(* ===== verification/Rounding.thy ===== *)
theory Rounding
  imports Complex_Main "HOL-Library.Log_Nat"
begin

text \<open>
  The rounding of IEEE-754 binary64, to nearest with ties to even, on exact rationals:
  \<open>ilog2\<close> is the binary exponent, \<open>rhe\<close> rounds half to even, \<open>rnd\<close> rounds to 53 bits or to
  the place of the subnormals, without the overflow test. Every result here is executable;
  the monotonicity of \<open>rnd\<close> is what the bounds on percentages rest on.
\<close>

section \<open>Rounding\<close>

definition two_pow :: "int \<Rightarrow> rat" where
  "two_pow e = (if 0 \<le> e then of_int (2 ^ nat e) else 1 / of_int (2 ^ nat (- e)))"

text \<open>The binary exponent of a positive rational.\<close>

definition ilog2 :: "rat \<Rightarrow> int" where
  "ilog2 q = (let (n, d) = quotient_of q; k = bitlen n - bitlen d
     in if two_pow k \<le> q then k else k - 1)"

definition rhe :: "rat \<Rightarrow> int" where
  "rhe q = (let f = \<lfloor>q\<rfloor>; r = q - of_int f in
     if r < 1 / 2 then f else if 1 / 2 < r then f + 1 else if even f then f else f + 1)"

text \<open>The exponent of the last place: 52 below the leading bit, not below that of the subnormals.\<close>

definition ulp_exp :: "rat \<Rightarrow> int" where
  "ulp_exp q = max (- 1074) (ilog2 \<bar>q\<bar> - 52)"

definition rnd :: "rat \<Rightarrow> rat" where
  "rnd q = (if q = 0 then 0
     else of_int (rhe (q / two_pow (ulp_exp q))) * two_pow (ulp_exp q))"

lemma two_pow_pos [simp]: "0 < two_pow e"
  by (simp add: two_pow_def)

lemma two_pow_nonzero [simp]: "two_pow e \<noteq> 0"
  using two_pow_pos [of e] by linarith

lemma abs_two_pow [simp]: "\<bar>two_pow e\<bar> = two_pow e"
  using two_pow_pos [of e] by (simp only: abs_of_pos)

lemma two_pow_powi: "two_pow e = 2 powi e"
  by (simp add: two_pow_def power_int_def field_simps)

lemma two_pow_add: "two_pow (a + b) = two_pow a * two_pow b"
  by (simp add: two_pow_powi power_int_add)

lemma two_pow_diff: "two_pow (a - b) = two_pow a / two_pow b"
  by (simp add: two_pow_powi power_int_diff)

lemma two_pow_mono: "a \<le> b \<Longrightarrow> two_pow a \<le> two_pow b"
  by (simp add: two_pow_powi power_int_increasing)

lemma two_pow_less_iff: "two_pow a < two_pow b \<longleftrightarrow> a < b"
  by (metis linorder_not_less order_less_le two_pow_mono two_pow_powi power_int_strict_increasing one_less_numeral_iff semiring_norm(76))

lemma two_pow_int: "0 \<le> k \<Longrightarrow> two_pow k = of_int (2 ^ nat k)"
  by (simp add: two_pow_def)

lemma ilog2_bounds:
  assumes "0 < q"
  shows "two_pow (ilog2 q) \<le> q \<and> q < two_pow (ilog2 q + 1)"
proof -
  obtain n d where nd: "quotient_of q = (n, d)" by force
  then have d: "0 < d" by (rule quotient_of_denom_pos)
  have q: "q = of_int n / of_int d" using nd by (rule quotient_of_div)
  with assms d have n: "0 < n" by (simp add: zero_less_divide_iff)
  have b: "two_pow (bitlen m - 1) \<le> of_int m \<and> of_int m < two_pow (bitlen m)" if "0 < m" for m
  proof -
    from bitlen_bounds [OF that] have "2 ^ nat (bitlen m - 1) \<le> m" "m < 2 ^ nat (bitlen m)" by auto
    then have "of_int (2 ^ nat (bitlen m - 1)) \<le> (of_int m :: rat)"
      "(of_int m :: rat) < of_int (2 ^ nat (bitlen m))" by (simp_all only: of_int_le_iff of_int_less_iff)
    moreover have "0 < bitlen m" using that bitlen_eq_zero_iff [of m] bitlen_nonneg [of m] by linarith
    ultimately show ?thesis by (simp add: two_pow_int flip: of_int_power)
  qed
  let ?k = "bitlen n - bitlen d"
  from b [OF n] b [OF d] d have lo: "two_pow (?k - 1) \<le> q"
  proof -
    have "two_pow (?k - 1) * of_int d \<le> two_pow (?k - 1) * two_pow (bitlen d)"
      using b [OF d] by (intro mult_left_mono) (auto intro: less_imp_le)
    also have "\<dots> = two_pow (bitlen n - 1)" by (simp flip: two_pow_add)
    also have "\<dots> \<le> of_int n" using b [OF n] by simp
    finally show ?thesis using d by (simp add: q field_simps)
  qed
  have hi: "q < two_pow (?k + 1)"
  proof -
    have "of_int n < two_pow (bitlen n)" using b [OF n] by simp
    also have "\<dots> = two_pow (?k + 1) * two_pow (bitlen d - 1)" by (simp flip: two_pow_add)
    also have "\<dots> \<le> two_pow (?k + 1) * of_int d"
      using b [OF d] by (intro mult_left_mono) (auto intro: less_imp_le)
    finally show ?thesis using d by (simp add: q field_simps)
  qed
  from lo hi show ?thesis by (simp add: ilog2_def nd Let_def)
qed

lemma ilog2_mono: "0 < p \<Longrightarrow> p \<le> q \<Longrightarrow> ilog2 p \<le> ilog2 q"
proof -
  assume p: "0 < p" "p \<le> q"
  have "two_pow (ilog2 p) < two_pow (ilog2 q + 1)"
    using ilog2_bounds [of p] ilog2_bounds [of q] p by linarith
  then show ?thesis by (simp add: two_pow_less_iff)
qed

lemma rhe_close: "\<bar>of_int (rhe q) - q\<bar> \<le> 1 / 2"
proof -
  have "of_int \<lfloor>q\<rfloor> \<le> q" "q < of_int \<lfloor>q\<rfloor> + 1" by linarith+
  then show ?thesis by (auto simp: rhe_def Let_def abs_le_iff)
qed

lemma rhe_of_int [simp]: "rhe (of_int k) = k"
  by (simp add: rhe_def)

lemma rhe_mono:
  assumes "p \<le> q"
  shows "rhe p \<le> rhe q"
proof (cases "\<lfloor>p\<rfloor> = \<lfloor>q\<rfloor>")
  case True
  with assms show ?thesis by (simp add: rhe_def Let_def)
next
  case False
  from assms have "\<lfloor>p\<rfloor> \<le> \<lfloor>q\<rfloor>" by (rule floor_mono)
  with False have "\<lfloor>p\<rfloor> + 1 \<le> \<lfloor>q\<rfloor>" by simp
  moreover have "rhe p \<le> \<lfloor>p\<rfloor> + 1" "\<lfloor>q\<rfloor> \<le> rhe q" by (simp_all add: rhe_def Let_def)
  ultimately show ?thesis by linarith
qed

lemma rhe_nonneg: "0 \<le> q \<Longrightarrow> 0 \<le> rhe q"
  using rhe_mono [of 0 q] rhe_of_int [of 0] by simp

lemma rhe_minus: "rhe (- q) = - rhe q"
proof (cases "q = of_int \<lfloor>q\<rfloor>")
  case True
  then show ?thesis by (metis of_int_minus rhe_of_int)
next
  case False
  define f r where "f = \<lfloor>q\<rfloor>" and "r = q - of_int f"
  have q: "q = of_int f + r" by (simp add: r_def)
  have r: "0 < r" "r < 1" using False by (auto simp: r_def f_def) linarith+
  have "\<lfloor>- q\<rfloor> = - f - 1" using r by (simp add: q floor_unique)
  moreover have "\<lfloor>q\<rfloor> = f" by (simp add: f_def)
  ultimately show ?thesis using r by (auto simp: rhe_def Let_def q)
qed

lemma rnd_0 [simp]: "rnd 0 = 0"
  by (simp add: rnd_def)

lemma rnd_minus: "rnd (- q) = - rnd q"
  by (simp add: rnd_def ulp_exp_def rhe_minus flip: minus_divide_left)

lemma rnd_abs: "rnd \<bar>q\<bar> = \<bar>rnd q\<bar>"
proof -
  have "0 \<le> rnd q" if "0 \<le> q" for q
    using that rhe_mono [of 0 "q / two_pow (ulp_exp q)"] rhe_of_int [of 0]
    by (simp add: rnd_def zero_le_mult_iff zero_le_divide_iff less_imp_le)
  then show ?thesis by (metis abs_minus abs_of_neg abs_of_nonneg linorder_not_less neg_0_le_iff_le order_less_imp_le rnd_minus)
qed

text \<open>A multiple of a place with at most 53 bits is its own rounding.\<close>

lemma rnd_exact:
  assumes "q = of_int m * two_pow e" "\<bar>m\<bar> < 2 ^ 53" "- 1074 \<le> e"
  shows "rnd q = q"
proof (cases "q = 0")
  case False
  with assms have m: "m \<noteq> 0" by auto
  have aq: "\<bar>q\<bar> = of_int \<bar>m\<bar> * two_pow e" using assms(1) by (simp add: abs_mult)
  have "two_pow (ilog2 \<bar>q\<bar>) \<le> \<bar>q\<bar>" using ilog2_bounds [of "\<bar>q\<bar>"] False by simp
  also have "\<bar>q\<bar> < of_int (2 ^ 53) * two_pow e"
    unfolding aq using assms(2) by (intro mult_strict_right_mono) (simp_all only: of_int_less_iff two_pow_pos)
  also have "\<dots> = two_pow (53 + e)" by (simp add: two_pow_add two_pow_int)
  finally have "ilog2 \<bar>q\<bar> - 52 \<le> e" by (simp add: two_pow_less_iff)
  with assms(3) have u: "ulp_exp q \<le> e" by (simp add: ulp_exp_def)
  have "q / two_pow (ulp_exp q) = of_int (m * 2 ^ nat (e - ulp_exp q))"
    using u assms(1) two_pow_int [of "e - ulp_exp q"] by (simp add: two_pow_diff field_simps)
  then show ?thesis using False by (metis nonzero_divide_eq_eq rhe_of_int rnd_def two_pow_nonzero)
qed simp

lemma rnd_of_small_int: "\<bar>m\<bar> < 2 ^ 53 \<Longrightarrow> rnd (of_int m) = of_int m"
  by (rule rnd_exact [of _ m 0]) (simp_all add: two_pow_def)

lemma rnd_mono_pos:
  assumes "0 < x" "x \<le> y"
  shows "rnd x \<le> rnd y"
proof (cases "ulp_exp x = ulp_exp y")
  case True
  have "x / two_pow (ulp_exp y) \<le> y / two_pow (ulp_exp y)"
    using assms by (simp add: divide_right_mono less_imp_le)
  then have "rhe (x / two_pow (ulp_exp y)) \<le> rhe (y / two_pow (ulp_exp y))" by (rule rhe_mono)
  then show ?thesis using assms True by (simp add: rnd_def mult_right_mono less_imp_le)
next
  case False
  have l: "ilog2 x \<le> ilog2 y" using assms by (intro ilog2_mono)
  with False assms have ex: "ulp_exp x < ulp_exp y" and ey: "ulp_exp y = ilog2 y - 52"
    by (auto simp: ulp_exp_def max_def split: if_splits)
  define P where "P = two_pow (ilog2 y)"
  have "ilog2 x < ilog2 y" using ex ey assms by (simp add: ulp_exp_def)
  then have "two_pow (ilog2 x + 1) \<le> P" unfolding P_def by (intro two_pow_mono) simp
  then have xP: "x \<le> P" using ilog2_bounds [of x] assms by linarith
  have Py: "P \<le> y" using ilog2_bounds [of y] assms unfolding P_def by linarith
  have grid: "P / two_pow e = of_int (2 ^ nat (ilog2 y - e))" if "e \<le> ilog2 y" for e
    using that two_pow_int [of "ilog2 y - e"] by (simp add: P_def two_pow_diff)
  have on_grid: "of_int (rhe (P / two_pow e)) * two_pow e = P" if "e \<le> ilog2 y" for e
    by (simp only: grid [OF that] rhe_of_int) (simp flip: grid [OF that] of_int_power)
  have "rhe (x / two_pow (ulp_exp x)) \<le> rhe (P / two_pow (ulp_exp x))"
    using xP by (intro rhe_mono divide_right_mono) (simp_all add: less_imp_le)
  then have "rnd x \<le> of_int (rhe (P / two_pow (ulp_exp x))) * two_pow (ulp_exp x)"
    using assms by (simp add: rnd_def mult_right_mono less_imp_le)
  also have "\<dots> = P" using ex ey by (intro on_grid) simp
  also have "P = of_int (rhe (P / two_pow (ulp_exp y))) * two_pow (ulp_exp y)"
    using ey by (intro on_grid [symmetric]) simp
  also have "\<dots> \<le> of_int (rhe (y / two_pow (ulp_exp y))) * two_pow (ulp_exp y)"
    using Py by (intro mult_right_mono of_int_le_iff [THEN iffD2] rhe_mono divide_right_mono)
      (simp_all add: less_imp_le)
  also have "\<dots> = rnd y" using assms by (simp add: rnd_def)
  finally show ?thesis .
qed

lemma rnd_nonneg: "0 \<le> q \<Longrightarrow> 0 \<le> rnd q"
  by (metis abs_ge_zero abs_of_nonneg rnd_abs)

lemma rnd_mono:
  assumes "x \<le> y"
  shows "rnd x \<le> rnd y"
proof -
  consider "0 < x" | "x \<le> 0" "0 \<le> y" | "y < 0" by linarith
  then show ?thesis
  proof cases
    case 1
    then show ?thesis by (rule rnd_mono_pos [OF _ assms])
  next
    case 2
    have "rnd x = - rnd (- x)" by (simp add: rnd_minus)
    with 2 rnd_nonneg [of "- x"] rnd_nonneg [of y] show ?thesis by linarith
  next
    case 3
    then have "rnd (- y) \<le> rnd (- x)" using assms by (intro rnd_mono_pos) auto
    then show ?thesis by (simp add: rnd_minus)
  qed
qed

end
