(* ===== verification/Prelude.thy ===== *)
theory Prelude
  imports Main "HOL-Library.AList"
begin

text \<open>
  Shared vocabulary of the development.

  Python exceptions are values: a computation that may raise returns
  \<open>py_exn + 'a\<close>, \<open>Inl\<close> for the exception and \<open>Inr\<close> for the result; \<open>bindE\<close>
  sequences two computations and \<open>foldE\<close> is a \<open>for\<close> loop whose body may raise.

  Python dictionaries keep insertion order: they are association lists updated with
  \<open>AList.update\<close>, which replaces in place or appends, and read with \<open>map_of\<close>.

  The two locales at the end are the contracts of the aggregation loops: a loop over
  records that changes a dictionary at one key per record (\<open>keyed_loop\<close>), and one whose
  change is an addition in a commutative monoid (\<open>keyed_sum\<close>).
\<close>

named_theorems res_simps \<open>equations of the result type and its loops\<close>
named_theorems dict_simps \<open>lookup and keys of association-list dictionaries\<close>

section \<open>Exceptions as values\<close>

datatype py_exn =
    IndexError
  | ValueError
  | KeyError
  | TypeError
  | AttributeError
  | ZeroDivisionError
  | OverflowError
  | IsADirectoryError
  | FileNotFoundError
  | CalledProcessError
  | TimeoutExpired
  | RuntimeError string
  | SystemExit string

type_synonym 'a res = "py_exn + 'a"

fun bindE :: "'a res \<Rightarrow> ('a \<Rightarrow> 'b res) \<Rightarrow> 'b res" where
  "bindE (Inl e) f = Inl e"
| "bindE (Inr x) f = f x"

fun foldE :: "('x \<Rightarrow> 's \<Rightarrow> 's res) \<Rightarrow> 'x list \<Rightarrow> 's \<Rightarrow> 's res" where
  "foldE f [] s = Inr s"
| "foldE f (x # xs) s = bindE (f x s) (foldE f xs)"

fun mapE :: "('x \<Rightarrow> 'y res) \<Rightarrow> 'x list \<Rightarrow> 'y list res" where
  "mapE f [] = Inr []"
| "mapE f (x # xs) = bindE (f x) (\<lambda>y. bindE (mapE f xs) (\<lambda>ys. Inr (y # ys)))"

text \<open>\<open>try: m except ValueError: h\<close>\<close>

definition catch_ValueError :: "'a res \<Rightarrow> 'a res \<Rightarrow> 'a res" where
  "catch_ValueError m h = (if m = Inl ValueError then h else m)"

lemma bindE_Inr_iff [res_simps]: "bindE m f = Inr y \<longleftrightarrow> (\<exists>x. m = Inr x \<and> f x = Inr y)"
  by (cases m) auto

lemma bindE_Inl_iff [res_simps]:
  "bindE m f = Inl e \<longleftrightarrow> m = Inl e \<or> (\<exists>x. m = Inr x \<and> f x = Inl e)"
  by (cases m) auto

lemma bindE_assoc: "bindE (bindE m f) g = bindE m (\<lambda>x. bindE (f x) g)"
  by (cases m) auto

lemma bindE_Inr_right [simp]: "bindE m Inr = m"
  by (cases m) auto

lemma bindE_cong [fundef_cong]:
  "m = m' \<Longrightarrow> (\<And>x. m' = Inr x \<Longrightarrow> f x = g x) \<Longrightarrow> bindE m f = bindE m' g"
  by (cases m') auto

lemma foldE_append: "foldE f (xs @ ys) s = bindE (foldE f xs s) (foldE f ys)"
proof (induction xs arbitrary: s)
  case (Cons x xs)
  then show ?case by (cases "f x s") simp_all
qed simp

lemma foldE_total:
  assumes "\<And>x s. x \<in> set xs \<Longrightarrow> f x s = Inr (g x s)"
  shows "foldE f xs s = Inr (fold g xs s)"
  using assms by (induction xs arbitrary: s) auto

lemma foldE_invariant:
  assumes "foldE f xs s = Inr t" "P s"
    and "\<And>x u v. x \<in> set xs \<Longrightarrow> P u \<Longrightarrow> f x u = Inr v \<Longrightarrow> P v"
  shows "P t"
  using assms
proof (induction xs arbitrary: s)
  case Nil
  then show ?case by simp
next
  case (Cons x xs)
  from Cons.prems(1) obtain u where u: "f x s = Inr u" "foldE f xs u = Inr t"
    by (auto simp: res_simps)
  from Cons.prems(2,3) u(1) have "P u" by auto
  with Cons.IH [OF u(2)] Cons.prems(3) show ?case by auto
qed

lemma foldE_Inl_cases:
  "foldE f xs s = Inl e \<Longrightarrow> \<exists>x\<in>set xs. \<exists>u. f x u = Inl e"
  by (induction xs arbitrary: s) (auto simp: res_simps)

lemma mapE_Inr_iff: "mapE f xs = Inr ys \<longleftrightarrow> list_all2 (\<lambda>x y. f x = Inr y) xs ys"
  by (induction xs arbitrary: ys) (auto simp: res_simps list_all2_Cons1)

lemma mapE_Inl_cases: "mapE f xs = Inl e \<Longrightarrow> \<exists>x\<in>set xs. f x = Inl e"
  by (induction xs) (auto simp: res_simps)

lemma mapE_total: "(\<And>x. x \<in> set xs \<Longrightarrow> f x = Inr (g x)) \<Longrightarrow> mapE f xs = Inr (map g xs)"
  by (induction xs) auto

lemma catch_ValueError_simps [simp]:
  "catch_ValueError (Inr x) h = Inr x"
  "catch_ValueError (Inl ValueError) h = h"
  "e \<noteq> ValueError \<Longrightarrow> catch_ValueError (Inl e) h = Inl e"
  by (auto simp: catch_ValueError_def)

text \<open>\<open>xs[i]\<close> for a non-negative index.\<close>

definition py_nth :: "'a list \<Rightarrow> nat \<Rightarrow> 'a res" where
  "py_nth xs i = (if i < length xs then Inr (xs ! i) else Inl IndexError)"

section \<open>Dictionaries\<close>

type_synonym ('k, 'v) dict = "('k \<times> 'v) list"

definition dget :: "('k, 'v) dict \<Rightarrow> 'k \<Rightarrow> 'v \<Rightarrow> 'v" where
  "dget d k v = (case map_of d k of None \<Rightarrow> v | Some w \<Rightarrow> w)"

abbreviation dset :: "'k \<Rightarrow> 'v \<Rightarrow> ('k, 'v) dict \<Rightarrow> ('k, 'v) dict" where
  "dset \<equiv> AList.update"

abbreviation dkeys :: "('k, 'v) dict \<Rightarrow> 'k list" where
  "dkeys d \<equiv> map fst d"

abbreviation dvalues :: "('k, 'v) dict \<Rightarrow> 'v list" where
  "dvalues d \<equiv> map snd d"

lemma map_of_dset [dict_simps]: "map_of (dset k v d) = (map_of d)(k \<mapsto> v)"
  by (simp add: update_conv')

lemma set_dkeys_dset [dict_simps]: "set (dkeys (dset k v d)) = insert k (set (dkeys d))"
  by (simp add: dom_update)

lemma fst_set_dset [dict_simps]: "fst ` set (dset k v d) = insert k (fst ` set d)"
  using set_dkeys_dset [of k v d] by (simp del: update_conv')

lemma distinct_dkeys_dset [intro]: "distinct (dkeys d) \<Longrightarrow> distinct (dkeys (dset k v d))"
  by (rule distinct_update)

lemma map_of_in_dkeys [dict_simps]: "map_of d k \<noteq> None \<longleftrightarrow> k \<in> set (dkeys d)"
  by (simp add: map_of_eq_None_iff)

lemma sum_list_dset:
  fixes f :: "'v \<Rightarrow> 'n :: ab_group_add"
  assumes "distinct (dkeys d)"
  shows "(\<Sum>v\<leftarrow>dvalues (dset k v d). f v) =
    (\<Sum>v\<leftarrow>dvalues d. f v) - (case map_of d k of None \<Rightarrow> 0 | Some w \<Rightarrow> f w) + f v"
  using assms
proof (induction d)
  case (Cons p d)
  then show ?case
    by (cases "fst p = k") (auto simp: map_of_eq_None_iff algebra_simps split: option.splits)
qed simp

section \<open>Aggregation loops\<close>

text \<open>
  The state of a \<open>keyed_loop\<close> is any container with a lookup. A record with key \<open>None\<close> is
  skipped; a record with key \<open>Some k\<close> replaces the entry of \<open>k\<close> by \<open>upd r\<close> of what was
  there. The law is what the loop body promises; the conclusion is what the loop computes.
\<close>

locale keyed_loop =
  fixes body :: "'r \<Rightarrow> 'd \<Rightarrow> 'd res"
    and look :: "'d \<Rightarrow> 'k \<Rightarrow> 'v option"
    and key :: "'r \<Rightarrow> 'k option"
    and upd :: "'r \<Rightarrow> 'v option \<Rightarrow> 'v"
  assumes body_look: "body r d = Inr d' \<Longrightarrow>
    look d' k = (if key r = Some k then Some (upd r (look d k)) else look d k)"
begin

lemma loop_look:
  "foldE body rs d = Inr d' \<Longrightarrow>
   look d' k = fold (\<lambda>r v. Some (upd r v)) (filter (\<lambda>r. key r = Some k) rs) (look d k)"
proof (induction rs arbitrary: d)
  case Nil
  then show ?case by simp
next
  case (Cons r rs)
  from Cons.prems obtain u where u: "body r d = Inr u" "foldE body rs u = Inr d'"
    by (auto simp: res_simps)
  from Cons.IH [OF u(2)] body_look [OF u(1), of k] show ?case by auto
qed

lemma loop_look_dom:
  assumes "foldE body rs d = Inr d'"
  shows "look d' k \<noteq> None \<longleftrightarrow> look d k \<noteq> None \<or> (\<exists>r\<in>set rs. key r = Some k)"
proof -
  have aux: "fold (\<lambda>r v. Some (upd r v)) xs v \<noteq> None \<longleftrightarrow> v \<noteq> None \<or> xs \<noteq> []" for xs v
    by (induction xs arbitrary: v) auto
  show ?thesis
    unfolding loop_look [OF assms] aux by (auto simp: filter_empty_conv)
qed

lemma loop_look_other:
  "foldE body rs d = Inr d' \<Longrightarrow> \<forall>r\<in>set rs. key r \<noteq> Some k \<Longrightarrow> look d' k = look d k"
  by (simp add: loop_look filter_empty_conv)

end

locale keyed_sum = keyed_loop body look key upd
  for body :: "'r \<Rightarrow> 'd \<Rightarrow> 'd res"
    and look :: "'d \<Rightarrow> 'k \<Rightarrow> ('v :: comm_monoid_add) option"
    and key :: "'r \<Rightarrow> 'k option"
    and upd :: "'r \<Rightarrow> 'v option \<Rightarrow> 'v" +
  fixes amount :: "'r \<Rightarrow> 'v"
  assumes upd_add: "upd r v = (case v of None \<Rightarrow> 0 | Some x \<Rightarrow> x) + amount r"
begin

lemma loop_sum:
  assumes "foldE body rs d = Inr d'" "look d k = None"
  shows "look d' k = (if \<exists>r\<in>set rs. key r = Some k
    then Some (\<Sum>r\<leftarrow>filter (\<lambda>r. key r = Some k) rs. amount r) else None)"
proof -
  have aux: "fold (\<lambda>r v. Some (upd r v)) xs (Some a) = Some (a + (\<Sum>r\<leftarrow>xs. amount r))" for xs a
    by (induction xs arbitrary: a) (auto simp: upd_add add.assoc)
  have "fold (\<lambda>r v. Some (upd r v)) xs None =
      (if xs = [] then None else Some (\<Sum>r\<leftarrow>xs. amount r))" for xs
    by (cases xs) (simp_all add: aux, simp add: upd_add)
  with loop_look [OF assms(1), of k] assms(2) show ?thesis
    by (auto simp: filter_empty_conv)
qed

lemma loop_sum_default:
  assumes "foldE body rs d = Inr d'" "look d k = None"
  shows "(case look d' k of None \<Rightarrow> 0 | Some v \<Rightarrow> v) =
    (\<Sum>r\<leftarrow>filter (\<lambda>r. key r = Some k) rs. amount r)"
proof (cases "\<exists>r\<in>set rs. key r = Some k")
  case False
  then have "filter (\<lambda>r. key r = Some k) rs = []" by (auto simp: filter_empty_conv)
  with False show ?thesis by (simp add: loop_sum [OF assms])
qed (simp add: loop_sum [OF assms])

end

text \<open>The change of a \<open>keyed_sum\<close>: add to what is there, or to 0.\<close>

definition add_to :: "'v::comm_monoid_add \<Rightarrow> 'v option \<Rightarrow> 'v" where
  "add_to x v = (case v of None \<Rightarrow> 0 | Some w \<Rightarrow> w) + x"

text \<open>
  A record of counters is a commutative monoid when its extension is one; the extension of a
  closed record is \<open>unit\<close>.
\<close>

instantiation unit :: comm_monoid_add
begin
definition zero_unit :: unit where "zero_unit = ()"
definition plus_unit :: "unit \<Rightarrow> unit \<Rightarrow> unit" where "plus_unit x y = ()"
instance by standard simp_all
end

end
