(* ===== verification/PyStr.thy ===== *)
theory PyStr
  imports Prelude
begin

text \<open>
  Python's \<open>str\<close> as the scripts use it. A string is a list of characters, each read as
  the Latin-1 code point with its number (U+0000 to U+00FF): white space and case are
  those of Python's \<open>str\<close> on that range. Text files are read in universal-newline mode,
  so a file's text is first translated and then cut into lines that keep their newline.
\<close>

named_theorems str_simps \<open>evaluation and elimination rules of the string operations\<close>

abbreviation NL :: char where "NL \<equiv> CHR 0x0A"
abbreviation CR :: char where "CR \<equiv> CHR 0x0D"
abbreviation TAB :: char where "TAB \<equiv> CHR 0x09"

section \<open>Characters\<close>

definition is_space :: "char \<Rightarrow> bool" where
  "is_space c = (let n = (of_char c :: nat) in
     (9 \<le> n \<and> n \<le> 13) \<or> (28 \<le> n \<and> n \<le> 32) \<or> n = 133 \<or> n = 160)"

definition is_digit :: "char \<Rightarrow> bool" where
  "is_digit c = (let n = (of_char c :: nat) in 48 \<le> n \<and> n \<le> 57)"

definition is_ascii_alpha :: "char \<Rightarrow> bool" where
  "is_ascii_alpha c = (let n = (of_char c :: nat) in (65 \<le> n \<and> n \<le> 90) \<or> (97 \<le> n \<and> n \<le> 122))"

definition lower_char :: "char \<Rightarrow> char" where
  "lower_char c = (let n = (of_char c :: nat) in
     if (65 \<le> n \<and> n \<le> 90) \<or> (192 \<le> n \<and> n \<le> 222 \<and> n \<noteq> 215) then char_of (n + 32) else c)"

lemma is_digit_not_space: "is_digit c \<Longrightarrow> \<not> is_space c"
  by (auto simp: is_digit_def is_space_def Let_def)

lemma is_digit_iff: "is_digit c \<longleftrightarrow> c \<in> set ''0123456789''"
proof
  assume "is_digit c"
  then have n: "(of_char c :: nat) \<in> {48..57}" by (auto simp: is_digit_def Let_def)
  have "c = char_of (of_char c :: nat)" by simp
  also from n have "\<dots> \<in> char_of ` {48..57::nat}" by blast
  also have "{48..57::nat} = {48,49,50,51,52,53,54,55,56,57}"
    by (rule set_eqI, simp, presburger)
  finally show "c \<in> set ''0123456789''" by (simp add: char_of_def bit_Suc_0_iff)
qed (auto simp: is_digit_def)

section \<open>Methods of str\<close>

definition lstrip :: "string \<Rightarrow> string" where
  "lstrip s = dropWhile is_space s"

definition rstrip :: "string \<Rightarrow> string" where
  "rstrip s = rev (dropWhile is_space (rev s))"

definition strip :: "string \<Rightarrow> string" where
  "strip s = rstrip (lstrip s)"

definition lower :: "string \<Rightarrow> string" where
  "lower s = map lower_char s"

definition startswith :: "string \<Rightarrow> string \<Rightarrow> bool" where
  "startswith s p = (take (length p) s = p)"

definition startswith_any :: "string \<Rightarrow> string list \<Rightarrow> bool" where
  "startswith_any s ps = list_ex (startswith s) ps"

definition endswith :: "string \<Rightarrow> string \<Rightarrow> bool" where
  "endswith s p = startswith (rev s) (rev p)"

fun contains :: "string \<Rightarrow> string \<Rightarrow> bool" where
  "contains [] p = (p = [])"
| "contains (c # s) p = (startswith (c # s) p \<or> contains s p)"

fun split_by :: "('a \<Rightarrow> bool) \<Rightarrow> 'a list \<Rightarrow> 'a list list" where
  "split_by P [] = [[]]"
| "split_by P (c # s) =
     (if P c then [] # split_by P s
      else (case split_by P s of [] \<Rightarrow> [[c]] | w # ws \<Rightarrow> (c # w) # ws))"

text \<open>\<open>s.split(c)\<close>, \<open>s.split()\<close>, \<open>s.split(c, 1)\<close> and \<open>s.rsplit(c, 1)\<close> for a one-character separator.\<close>

definition split_on :: "char \<Rightarrow> string \<Rightarrow> string list" where
  "split_on c s = split_by (\<lambda>x. x = c) s"

definition split_ws :: "string \<Rightarrow> string list" where
  "split_ws s = filter (\<lambda>w. w \<noteq> []) (split_by is_space s)"

definition split1 :: "char \<Rightarrow> string \<Rightarrow> string list" where
  "split1 c s = (if c \<in> set s then [takeWhile (\<lambda>x. x \<noteq> c) s, tl (dropWhile (\<lambda>x. x \<noteq> c) s)] else [s])"

definition rsplit1 :: "char \<Rightarrow> string \<Rightarrow> string list" where
  "rsplit1 c s = (if c \<in> set s
     then [rev (tl (dropWhile (\<lambda>x. x \<noteq> c) (rev s))), rev (takeWhile (\<lambda>x. x \<noteq> c) (rev s))]
     else [s])"

fun join :: "string \<Rightarrow> string list \<Rightarrow> string" where
  "join sep [] = []"
| "join sep [w] = w"
| "join sep (w # v # ws) = w @ sep @ join sep (v # ws)"

definition replace_char :: "char \<Rightarrow> string \<Rightarrow> string \<Rightarrow> string" where
  "replace_char c r s = concat (map (\<lambda>x. if x = c then r else [x]) s)"

section \<open>Lines\<close>

fun translate_nl :: "string \<Rightarrow> string" where
  "translate_nl [] = []"
| "translate_nl [c] = [if c = CR then NL else c]"
| "translate_nl (c # d # s) =
     (if c = CR then (if d = NL then NL # translate_nl s else NL # translate_nl (d # s))
      else c # translate_nl (d # s))"

fun keep_lines :: "string \<Rightarrow> string list" where
  "keep_lines [] = []"
| "keep_lines (c # s) =
     (if c = NL then [NL] # keep_lines s
      else (case keep_lines s of [] \<Rightarrow> [[c]] | l # ls \<Rightarrow> (c # l) # ls))"

definition text_lines :: "string \<Rightarrow> string list" where
  "text_lines t = keep_lines (translate_nl t)"

text \<open>What a sequence of \<open>print\<close> calls leaves in the redirected output file.\<close>

definition printed :: "string list \<Rightarrow> string" where
  "printed ls = concat (map (\<lambda>l. l @ [NL]) ls)"

section \<open>Lemmas\<close>

lemma startswith_append [simp]: "startswith (p @ s) p"
  by (simp add: startswith_def)

lemma startswith_iff: "startswith s p \<longleftrightarrow> (\<exists>t. s = p @ t)"
  by (metis append_take_drop_id startswith_append startswith_def)

lemma startswith_Nil [str_simps]: "startswith s []"
  by (simp add: startswith_def)

lemma startswith_Cons [str_simps]:
  "startswith (c # s) (d # p) \<longleftrightarrow> c = d \<and> startswith s p"
  "startswith [] (d # p) \<longleftrightarrow> False"
  by (auto simp: startswith_def)

lemma dropWhile_is_space_idem: "dropWhile is_space (dropWhile is_space s) = dropWhile is_space s"
  by (induction s) auto

text \<open>A string whose first and last characters are not spaces is its own \<open>strip()\<close>.\<close>

definition trimmed :: "string \<Rightarrow> bool" where
  "trimmed s \<longleftrightarrow> s = [] \<or> (\<not> is_space (hd s) \<and> \<not> is_space (last s))"

lemma strip_trimmed: "trimmed s \<Longrightarrow> strip s = s"
proof (cases "s = []")
  case False
  moreover assume "trimmed s"
  ultimately have h: "\<not> is_space (hd s)" "\<not> is_space (hd (rev s))"
    by (auto simp: trimmed_def hd_rev)
  from False h have "dropWhile is_space s = s" "dropWhile is_space (rev s) = rev s"
    by (metis dropWhile.simps(2) list.collapse, metis dropWhile.simps(2) list.collapse rev_is_Nil_conv)
  then show ?thesis by (simp add: strip_def rstrip_def lstrip_def)
qed (simp add: strip_def rstrip_def lstrip_def)

lemma strip_snoc_space: "is_space c \<Longrightarrow> s \<noteq> [] \<Longrightarrow> \<not> is_space (hd s) \<Longrightarrow> strip (s @ [c]) = strip s"
  by (cases s) (auto simp: strip_def rstrip_def lstrip_def)

lemma strip_line: "trimmed s \<Longrightarrow> strip (s @ [NL]) = s"
proof (cases "s = []")
  case False
  moreover assume t: "trimmed s"
  ultimately have "\<not> is_space (hd s)" by (simp add: trimmed_def)
  with False have "strip (s @ [NL]) = strip s"
    by (intro strip_snoc_space) (simp_all add: is_space_def)
  with t show ?thesis by (simp add: strip_trimmed)
qed (simp add: strip_def rstrip_def lstrip_def is_space_def)

lemma hd_dropWhile_not: "dropWhile P s \<noteq> [] \<Longrightarrow> \<not> P (hd (dropWhile P s))"
  by (induction s) auto

lemma trimmed_strip: "trimmed (strip s)"
proof -
  have "last (rstrip t) = hd (dropWhile is_space (rev t))" if "rstrip t \<noteq> []" for t
    using that by (simp add: rstrip_def last_rev)
  moreover have "hd (rstrip t) = hd t" if "rstrip t \<noteq> []" for t
  proof -
    have "t = rstrip t @ rev (takeWhile is_space (rev t))"
      unfolding rstrip_def by (metis rev_append rev_rev_ident takeWhile_dropWhile_id)
    with that show ?thesis by (metis hd_append2)
  qed
  moreover have "\<not> is_space (hd (dropWhile is_space (rev t)))" if "rstrip t \<noteq> []" for t
    using that hd_dropWhile_not [of is_space "rev t"] by (simp add: rstrip_def)
  moreover have "\<not> is_space (hd (lstrip s))" if "rstrip (lstrip s) \<noteq> []"
  proof -
    from that have "lstrip s \<noteq> []" by (auto simp: rstrip_def)
    then show ?thesis unfolding lstrip_def by (rule hd_dropWhile_not)
  qed
  ultimately show ?thesis by (auto simp: trimmed_def strip_def)
qed

lemma strip_strip [simp]: "strip (strip s) = strip s"
  by (rule strip_trimmed) (rule trimmed_strip)

lemma rsplit1_last:
  "c \<notin> set w \<Longrightarrow> rsplit1 c (p @ c # w) = [p, w]"
  by (simp add: rsplit1_def takeWhile_append dropWhile_append)

lemma length_rsplit1: "length (rsplit1 c s) = (if c \<in> set s then 2 else 1)"
  by (simp add: rsplit1_def)

lemma split1_first: "c \<notin> set p \<Longrightarrow> split1 c (p @ c # w) = [p, w]"
  by (simp add: split1_def takeWhile_append dropWhile_append)

lemma split_by_nonempty: "split_by P s \<noteq> []"
  by (induction s) (auto split: list.splits)

lemma split_by_hd_prefix: "hd (split_by P s) = takeWhile (\<lambda>x. \<not> P x) s"
proof (induction s)
  case (Cons c s)
  then show ?case using split_by_nonempty [of P s] by (auto split: list.splits)
qed simp

lemma split_by_no_sep: "w \<in> set (split_by P s) \<Longrightarrow> x \<in> set w \<Longrightarrow> \<not> P x"
proof (induction s arbitrary: w)
  case (Cons c s)
  then show ?case by (fastforce split: if_splits list.splits)
qed simp

lemma translate_nl_id: "CR \<notin> set t \<Longrightarrow> translate_nl t = t"
  by (induction t rule: translate_nl.induct) auto

lemma keep_lines_append:
  "NL \<notin> set l \<Longrightarrow> keep_lines (l @ NL # s) = (l @ [NL]) # keep_lines s"
  by (induction l) auto

lemma text_lines_printed:
  assumes "\<And>l. l \<in> set ls \<Longrightarrow> CR \<notin> set l \<and> NL \<notin> set l"
  shows "text_lines (printed ls) = map (\<lambda>l. l @ [NL]) ls"
proof -
  have "CR \<notin> set (printed ls)" using assms by (auto simp: printed_def)
  moreover have "keep_lines (printed ls) = map (\<lambda>l. l @ [NL]) ls"
    using assms by (induction ls) (auto simp: printed_def keep_lines_append)
  ultimately show ?thesis by (simp add: text_lines_def translate_nl_id)
qed

end
