(* ===== verification/PyNum.thy ===== *)
theory PyNum
  imports PyStr
begin

text \<open>
  Python integers as text: \<open>int(s)\<close>, \<open>str(n)\<close> and the format \<open>f"{n:,}"\<close>. Integers are
  unbounded. The interpreter's limit on the number of digits (4300, since 3.11) is not
  modelled: no count of the scripts comes near it.
\<close>

section \<open>Reading\<close>

text \<open>
  \<open>int\<close> and \<open>float\<close> skip C white space (and U+0085, U+00A0) around the number, which is less
  than \<open>str.strip\<close> does: U+001C to U+001F stay.
\<close>

definition num_space :: "char \<Rightarrow> bool" where
  "num_space c = (let n = (of_char c :: nat) in (9 \<le> n \<and> n \<le> 13) \<or> n = 32 \<or> n = 133 \<or> n = 160)"

definition num_strip :: "string \<Rightarrow> string" where
  "num_strip s = rev (dropWhile num_space (rev (dropWhile num_space s)))"

text \<open>Underscores may only stand between two digits; the flag says whether the last character was one.\<close>

fun underscores_ok :: "bool \<Rightarrow> string \<Rightarrow> bool" where
  "underscores_ok d [] = True"
| "underscores_ok d (c # s) =
     (if c = CHR ''_'' then d \<and> s \<noteq> [] \<and> is_digit (hd s) \<and> underscores_ok False s
      else underscores_ok (is_digit c) s)"

definition drop_underscores :: "string \<Rightarrow> string" where
  "drop_underscores s = filter (\<lambda>c. c \<noteq> CHR ''_'') s"

definition digit_val :: "char \<Rightarrow> int" where
  "digit_val c = int (of_char c) - 48"

definition dec_val :: "string \<Rightarrow> int" where
  "dec_val s = foldl (\<lambda>n c. 10 * n + digit_val c) 0 s"

text \<open>An optional sign: whether the number is negative, and the rest.\<close>

definition take_sign :: "string \<Rightarrow> bool \<times> string" where
  "take_sign s = (case s of
      [] \<Rightarrow> (False, [])
    | c # t \<Rightarrow> if c = CHR ''-'' then (True, t) else if c = CHR ''+'' then (False, t) else (False, s))"

definition py_int :: "string \<Rightarrow> int res" where
  "py_int s = (let (neg, t) = take_sign (num_strip s); ds = drop_underscores t in
     if underscores_ok False t \<and> ds \<noteq> [] \<and> list_all is_digit ds
     then Inr (if neg then - dec_val ds else dec_val ds)
     else Inl ValueError)"

section \<open>Writing\<close>

definition digit_char :: "int \<Rightarrow> char" where
  "digit_char n = char_of (48 + nat n)"

text \<open>The digits of a non-negative number.\<close>

function show_digits :: "int \<Rightarrow> string" where
  "show_digits n = (if n < 10 then [digit_char n] else show_digits (n div 10) @ [digit_char (n mod 10)])"
  by pat_completeness auto
termination
  by (relation "measure nat") auto

declare show_digits.simps [simp del]

definition show_int :: "int \<Rightarrow> string" where
  "show_int i = (if i < 0 then CHR ''-'' # show_digits (- i) else show_digits i)"

text \<open>A comma after every third digit, counted from the right: the argument is reversed.\<close>

fun group3 :: "string \<Rightarrow> string" where
  "group3 (a # b # c # d # s) = a # b # c # CHR '','' # group3 (d # s)"
| "group3 s = s"

definition fmt_thousands :: "int \<Rightarrow> string" where
  "fmt_thousands i = (if i < 0 then ''-'' else '''') @ rev (group3 (rev (show_digits \<bar>i\<bar>)))"

section \<open>Lemmas\<close>

lemma digit_char_digit:
  assumes "0 \<le> n" "n < 10"
  shows "is_digit (digit_char n)" "digit_val (digit_char n) = n"
proof -
  from assms have "n = 0 \<or> n = 1 \<or> n = 2 \<or> n = 3 \<or> n = 4 \<or> n = 5 \<or> n = 6 \<or> n = 7 \<or> n = 8 \<or> n = 9"
    by presburger
  then show "is_digit (digit_char n)" "digit_val (digit_char n) = n"
    by (auto simp: is_digit_def digit_char_def digit_val_def)
qed

lemma show_digits_digits: "0 \<le> n \<Longrightarrow> c \<in> set (show_digits n) \<Longrightarrow> is_digit c"
proof (induction n arbitrary: c rule: show_digits.induct)
  case (1 n)
  show ?case
  proof (cases "n < 10")
    case True
    with 1 show ?thesis by (simp add: show_digits.simps [of n] digit_char_digit)
  next
    case False
    with "1.prems"(2) consider "c \<in> set (show_digits (n div 10))" | "c = digit_char (n mod 10)"
      by (auto simp: show_digits.simps [of n])
    then show ?thesis
    proof cases
      case 1
      with "1.IH" [OF False] "1.prems"(1) show ?thesis by simp
    qed (simp add: digit_char_digit)
  qed
qed

lemma show_digits_nonempty [simp]: "show_digits n \<noteq> []"
  by (subst show_digits.simps) simp

lemma dec_val_snoc: "dec_val (s @ [c]) = 10 * dec_val s + digit_val c"
  by (simp add: dec_val_def)

lemma dec_val_show_digits [simp]: "0 \<le> n \<Longrightarrow> dec_val (show_digits n) = n"
proof (induction n rule: show_digits.induct)
  case (1 n)
  show ?case
  proof (cases "n < 10")
    case True
    with 1 show ?thesis by (simp add: show_digits.simps [of n] dec_val_def digit_char_digit)
  next
    case False
    with 1 show ?thesis
      by (simp add: show_digits.simps [of n] dec_val_snoc digit_char_digit)
  qed
qed

lemma dec_val_nonneg: "(\<And>c. c \<in> set s \<Longrightarrow> is_digit c) \<Longrightarrow> 0 \<le> dec_val s"
proof (induction s rule: rev_induct)
  case (snoc c s)
  have "is_digit c" by (rule snoc.prems) simp
  then have "0 \<le> digit_val c"
    unfolding is_digit_iff by (auto simp: digit_val_def)
  moreover have "0 \<le> dec_val s" by (rule snoc.IH) (simp add: snoc.prems)
  ultimately show ?case by (simp add: dec_val_snoc)
qed (simp add: dec_val_def)

lemma digit_not_underscore: "is_digit c \<Longrightarrow> c \<noteq> CHR ''_''"
  by (auto simp: is_digit_def)

lemma digit_not_sign: "is_digit c \<Longrightarrow> c \<noteq> CHR ''-'' \<and> c \<noteq> CHR ''+'' \<and> c \<noteq> CHR ''.'' \<and> c \<noteq> CHR '',''"
  by (auto simp: is_digit_def)

lemma digit_not_num_space: "is_digit c \<Longrightarrow> \<not> num_space c"
  by (auto simp: is_digit_def num_space_def Let_def)

lemma underscores_ok_none: "CHR ''_'' \<notin> set s \<Longrightarrow> underscores_ok d s"
  by (induction s arbitrary: d) auto

lemma drop_underscores_none: "CHR ''_'' \<notin> set s \<Longrightarrow> drop_underscores s = s"
  by (auto simp: drop_underscores_def filter_id_conv)

lemma num_strip_id:
  assumes "s = [] \<or> (\<not> num_space (hd s) \<and> \<not> num_space (last s))"
  shows "num_strip s = s"
proof -
  have "dropWhile P t = t" if "t = [] \<or> \<not> P (hd t)" for P and t :: string
    using that by (cases t) auto
  with assms show ?thesis by (auto simp: num_strip_def hd_rev)
qed

lemma py_int_digits:
  assumes "s \<noteq> []" "\<And>c. c \<in> set s \<Longrightarrow> is_digit c"
  shows "py_int s = Inr (dec_val s)" "py_int (CHR ''-'' # s) = Inr (- dec_val s)"
proof -
  from assms have h: "is_digit (hd s)" "is_digit (last s)" by simp_all
  have u: "CHR ''_'' \<notin> set s" using assms(2) digit_not_underscore by blast
  have "num_strip s = s" "num_strip (CHR ''-'' # s) = CHR ''-'' # s"
    using h assms(1) by (auto intro!: num_strip_id simp: digit_not_num_space, simp add: num_space_def)
  moreover have "take_sign s = (False, s)"
    using h assms(1) by (cases s) (auto simp: take_sign_def dest: digit_not_sign)
  moreover have "take_sign (CHR ''-'' # s) = (True, s)" by (simp add: take_sign_def)
  ultimately show "py_int s = Inr (dec_val s)" "py_int (CHR ''-'' # s) = Inr (- dec_val s)"
    using assms u by (auto simp: py_int_def drop_underscores_none underscores_ok_none list_all_iff)
qed

lemma py_int_show_int [simp]: "py_int (show_int i) = Inr i"
proof (cases "i < 0")
  case True
  then show ?thesis
    using py_int_digits(2) [of "show_digits (- i)"] show_digits_digits [of "- i"]
    by (simp add: show_int_def)
next
  case False
  then show ?thesis
    using py_int_digits(1) [of "show_digits i"] show_digits_digits [of i] by (simp add: show_int_def)
qed

lemma py_int_errors: "py_int s = Inl e \<Longrightarrow> e = ValueError"
  by (auto simp: py_int_def Let_def split: prod.splits if_splits)

lemma show_int_chars: "c \<in> set (show_int i) \<Longrightarrow> is_digit c \<or> c = CHR ''-''"
  by (auto simp: show_int_def dest: show_digits_digits [rotated] split: if_splits)

lemma show_int_nonempty [simp]: "show_int i \<noteq> []"
  by (simp add: show_int_def)

lemma filter_group3: "CHR '','' \<notin> set s \<Longrightarrow> filter (\<lambda>c. c \<noteq> CHR '','') (group3 s) = s"
  by (induction s rule: group3.induct) auto

lemma fmt_thousands_commas: "filter (\<lambda>c. c \<noteq> CHR '','') (fmt_thousands i) = show_int i"
proof -
  have "CHR '','' \<notin> set (rev (show_digits \<bar>i\<bar>))"
    using show_digits_digits [of "\<bar>i\<bar>" "CHR '',''"] digit_not_sign [of "CHR '',''"] by auto
  then have "filter (\<lambda>c. c \<noteq> CHR '','') (rev (group3 (rev (show_digits \<bar>i\<bar>)))) = show_digits \<bar>i\<bar>"
    by (simp add: filter_group3 flip: rev_filter)
  then show ?thesis by (auto simp: fmt_thousands_def show_int_def)
qed

lemma fmt_thousands_small:
  assumes "0 \<le> i" "i < 1000"
  shows "fmt_thousands i = show_int i"
proof -
  have "i div 10 div 10 < 10" using assms by simp
  then have "length (show_digits (i div 10)) \<le> 2"
    by (subst show_digits.simps, subst show_digits.simps) simp
  then have "length (rev (show_digits i)) \<le> 3"
    by (subst show_digits.simps) simp
  moreover have "group3 s = s" if "length s \<le> 3" for s
    using that by (induction s rule: group3.induct) auto
  ultimately show ?thesis using assms by (simp add: fmt_thousands_def show_int_def)
qed

end
