(* ===== verification/PyFloat.thy ===== *)
theory PyFloat
  imports Rounding PyNum
begin

text \<open>
  Python's \<open>float\<close>: IEEE-754 binary64. A value is a finite rational, the negative zero, an
  infinity or a NaN (\<open>Fin 0\<close> is the positive zero). An arithmetic operation computes the
  exact result and rounds it once (\<open>of_exact\<close>). The operators \<open>+ - * <\<close> are instances of the
  library's classes; division may raise and is \<open>fdiv\<close>. The formats \<open>f"{x:.2f}"\<close> and
  \<open>f"{x:.3f}"\<close> print the exact value rounded half to even, as Python does.
\<close>

named_theorems float_simps \<open>evaluation of binary64 operations on finite values\<close>

section \<open>Values\<close>

datatype pyfloat = Fin rat | NegZero | PosInf | NegInf | NaN

text \<open>Overflow, negative zero and the ordinary case of one rounding; \<open>neg\<close> is the sign of an exact zero.\<close>

definition of_exact :: "bool \<Rightarrow> rat \<Rightarrow> pyfloat" where
  "of_exact neg q = (let r = rnd q in
     if two_pow 1024 \<le> r then PosInf
     else if r \<le> - two_pow 1024 then NegInf
     else if r = 0 \<and> (q < 0 \<or> (q = 0 \<and> neg)) then NegZero
     else Fin r)"

fun fval :: "pyfloat \<Rightarrow> rat" where
  "fval (Fin q) = q"
| "fval _ = 0"

fun is_finite :: "pyfloat \<Rightarrow> bool" where
  "is_finite (Fin q) = True"
| "is_finite NegZero = True"
| "is_finite _ = False"

text \<open>The sign bit (a NaN's is never looked at).\<close>

fun signbit :: "pyfloat \<Rightarrow> bool" where
  "signbit (Fin q) = (q < 0)"
| "signbit NegZero = True"
| "signbit NegInf = True"
| "signbit _ = False"

definition is_zero :: "pyfloat \<Rightarrow> bool" where
  "is_zero x \<longleftrightarrow> is_finite x \<and> fval x = 0"

definition inf_of :: "bool \<Rightarrow> pyfloat" where
  "inf_of neg = (if neg then NegInf else PosInf)"

text \<open>The values a binary64 register can hold.\<close>

fun binary64 :: "pyfloat \<Rightarrow> bool" where
  "binary64 (Fin q) = (rnd q = q \<and> \<bar>q\<bar> < two_pow 1024)"
| "binary64 _ = True"

section \<open>Operations\<close>

instantiation pyfloat :: "{plus, minus, uminus, times, ord}"
begin

fun uminus_pyfloat :: "pyfloat \<Rightarrow> pyfloat" where
  "uminus_pyfloat (Fin q) = (if q = 0 then NegZero else Fin (- q))"
| "uminus_pyfloat NegZero = Fin 0"
| "uminus_pyfloat PosInf = NegInf"
| "uminus_pyfloat NegInf = PosInf"
| "uminus_pyfloat NaN = NaN"

definition plus_pyfloat :: "pyfloat \<Rightarrow> pyfloat \<Rightarrow> pyfloat" where
  "plus_pyfloat x y =
     (if x = NaN \<or> y = NaN then NaN
      else if is_finite x \<and> is_finite y then of_exact (x = NegZero \<and> y = NegZero) (fval x + fval y)
      else if is_finite x then y
      else if is_finite y then x
      else if x = y then x else NaN)"

definition minus_pyfloat :: "pyfloat \<Rightarrow> pyfloat \<Rightarrow> pyfloat" where
  "minus_pyfloat x y = x + (- y)"

definition times_pyfloat :: "pyfloat \<Rightarrow> pyfloat \<Rightarrow> pyfloat" where
  "times_pyfloat x y =
     (if x = NaN \<or> y = NaN then NaN
      else if is_finite x \<and> is_finite y then of_exact (signbit x \<noteq> signbit y) (fval x * fval y)
      else if is_zero x \<or> is_zero y then NaN
      else inf_of (signbit x \<noteq> signbit y))"

text \<open>The place of a value on the extended line; a NaN has none, so it compares with nothing.\<close>

fun line_pos :: "pyfloat \<Rightarrow> (int \<times> rat) option" where
  "line_pos NaN = None"
| "line_pos PosInf = Some (1, 0)"
| "line_pos NegInf = Some (- 1, 0)"
| "line_pos x = Some (0, fval x)"

definition less_pyfloat :: "pyfloat \<Rightarrow> pyfloat \<Rightarrow> bool" where
  "less_pyfloat x y = (case (line_pos x, line_pos y) of
      (Some (a, p), Some (b, q)) \<Rightarrow> a < b \<or> (a = b \<and> p < q) | _ \<Rightarrow> False)"

definition less_eq_pyfloat :: "pyfloat \<Rightarrow> pyfloat \<Rightarrow> bool" where
  "less_eq_pyfloat x y = (case (line_pos x, line_pos y) of
      (Some (a, p), Some (b, q)) \<Rightarrow> a < b \<or> (a = b \<and> p \<le> q) | _ \<Rightarrow> False)"

instance ..

end

text \<open>Python's \<open>x == y\<close> on floats.\<close>

definition feq :: "pyfloat \<Rightarrow> pyfloat \<Rightarrow> bool" where
  "feq x y \<longleftrightarrow> line_pos x \<noteq> None \<and> line_pos x = line_pos y"

definition fdiv :: "pyfloat \<Rightarrow> pyfloat \<Rightarrow> pyfloat res" where
  "fdiv x y =
     (if is_zero y then Inl ZeroDivisionError
      else Inr (if x = NaN \<or> y = NaN then NaN
        else if is_finite x \<and> is_finite y then of_exact (signbit x \<noteq> signbit y) (fval x / fval y)
        else if is_finite y then inf_of (signbit x \<noteq> signbit y)
        else if is_finite x then of_exact (signbit x \<noteq> signbit y) 0
        else NaN))"

text \<open>\<open>a / b\<close> on ints: the exact quotient rounded once.\<close>

definition int_truediv :: "int \<Rightarrow> int \<Rightarrow> pyfloat res" where
  "int_truediv a b =
     (if b = 0 then Inl ZeroDivisionError
      else (let f = of_exact (b < 0) (of_int a / of_int b)
            in if is_finite f then Inr f else Inl OverflowError))"

text \<open>\<open>float(n)\<close> and \<open>int(x)\<close>.\<close>

definition float_of_int :: "int \<Rightarrow> pyfloat res" where
  "float_of_int n = (let f = of_exact False (of_int n) in if is_finite f then Inr f else Inl OverflowError)"

definition trunc :: "rat \<Rightarrow> int" where
  "trunc q = (if q < 0 then - \<lfloor>- q\<rfloor> else \<lfloor>q\<rfloor>)"

fun int_of_float :: "pyfloat \<Rightarrow> int res" where
  "int_of_float (Fin q) = Inr (trunc q)"
| "int_of_float NegZero = Inr 0"
| "int_of_float NaN = Inl ValueError"
| "int_of_float _ = Inl OverflowError"

abbreviation hundred :: pyfloat where
  "hundred \<equiv> Fin 100"

section \<open>Text\<close>

definition ten_pow :: "int \<Rightarrow> rat" where
  "ten_pow e = (if 0 \<le> e then 10 ^ nat e else 1 / 10 ^ nat (- e))"

text \<open>An unsigned decimal literal without underscores, as an exact rational.\<close>

definition parse_decimal :: "string \<Rightarrow> rat option" where
  "parse_decimal s = (let
     ip = takeWhile is_digit s;
     r = dropWhile is_digit s;
     (fp, e) = (case r of [] \<Rightarrow> ([], [])
       | c # t \<Rightarrow> if c = CHR ''.'' then (takeWhile is_digit t, dropWhile is_digit t) else ([], r));
     n = of_int (dec_val (ip @ fp))
   in if ip @ fp = [] then None
      else (case e of
          [] \<Rightarrow> Some (n * ten_pow (- int (length fp)))
        | c # t \<Rightarrow>
            (let (neg, ds) = take_sign t
             in if (c = CHR ''e'' \<or> c = CHR ''E'') \<and> ds \<noteq> [] \<and> list_all is_digit ds
                then Some (n * ten_pow ((if neg then - dec_val ds else dec_val ds) - int (length fp)))
                else None)))"

definition py_float :: "string \<Rightarrow> pyfloat res" where
  "py_float s = (let
     t = num_strip s;
     (neg, u) = take_sign (drop_underscores t)
   in if \<not> underscores_ok False t then Inl ValueError
      else if lower u = ''inf'' \<or> lower u = ''infinity'' then Inr (inf_of neg)
      else if lower u = ''nan'' then Inr NaN
      else (case parse_decimal u of
          None \<Rightarrow> Inl ValueError
        | Some q \<Rightarrow> Inr (of_exact neg (if neg then - q else q))))"

definition fixed_digits :: "nat \<Rightarrow> int \<Rightarrow> string" where
  "fixed_digits d m = (let
     s = show_digits m;
     p = replicate (Suc d - length s) (CHR ''0'') @ s
   in take (length p - d) p @ CHR ''.'' # drop (length p - d) p)"

text \<open>\<open>f"{x:.df}"\<close> for \<open>d > 0\<close>.\<close>

definition fmt_fixed :: "nat \<Rightarrow> pyfloat \<Rightarrow> string" where
  "fmt_fixed d x = (case x of
      NaN \<Rightarrow> ''nan''
    | PosInf \<Rightarrow> ''inf''
    | NegInf \<Rightarrow> ''-inf''
    | _ \<Rightarrow> (if signbit x then ''-'' else '''') @ fixed_digits d (rhe (\<bar>fval x\<bar> * 10 ^ d)))"

section \<open>Lemmas\<close>

lemma of_exact_finite:
  "\<bar>rnd q\<bar> < two_pow 1024 \<Longrightarrow> is_finite (of_exact neg q) \<and> fval (of_exact neg q) = rnd q"
  using two_pow_pos [of 1024] by (auto simp: of_exact_def Let_def simp del: two_pow_pos)

lemma of_exact_binary64: "binary64 (of_exact neg q)"
proof -
  have "rnd (rnd q) = rnd q"
  proof (cases "q = 0")
    case False
    have "\<bar>rhe (q / two_pow (ulp_exp q))\<bar> \<le> 2 ^ 53"
    proof -
      have "\<bar>q\<bar> < two_pow (ilog2 \<bar>q\<bar> + 1)" using ilog2_bounds [of "\<bar>q\<bar>"] False by simp
      also have "\<dots> \<le> two_pow (53 + ulp_exp q)" by (intro two_pow_mono) (simp add: ulp_exp_def)
      finally have "\<bar>q / two_pow (ulp_exp q)\<bar> \<le> of_int (2 ^ 53)"
        by (simp add: two_pow_add two_pow_int field_simps)
      then have "- of_int (2 ^ 53) \<le> q / two_pow (ulp_exp q)" "q / two_pow (ulp_exp q) \<le> of_int (2 ^ 53)"
        by linarith+
      then have "rhe (of_int (- (2 ^ 53))) \<le> rhe (q / two_pow (ulp_exp q))"
        "rhe (q / two_pow (ulp_exp q)) \<le> rhe (of_int (2 ^ 53))"
        by (intro rhe_mono; simp)+
      then show ?thesis by (simp only: rhe_of_int abs_le_iff) simp
    qed
    moreover have "rnd (of_int m * two_pow e) = of_int m * two_pow e"
      if "\<bar>m\<bar> \<le> 2 ^ 53" "- 1074 \<le> e" for m e
    proof (cases "\<bar>m\<bar> = 2 ^ 53")
      case True
      then have "m = (if m < 0 then - 1 else 1) * 2 ^ 53" by auto
      then have "of_int m * two_pow e = of_int (if m < 0 then - 1 else 1) * two_pow (53 + e)"
        by (metis (no_types, lifting) mult.assoc of_int_mult two_pow_add two_pow_int nat_numeral zero_le_numeral)
      with that(2) show ?thesis by (intro rnd_exact [of _ "if m < 0 then - 1 else 1" "53 + e"]) auto
    next
      case False
      with that show ?thesis by (intro rnd_exact [of _ m e]) auto
    qed
    ultimately show ?thesis using False by (simp add: rnd_def [of q] ulp_exp_def [of q])
  qed simp
  then show ?thesis by (auto simp: of_exact_def Let_def abs_less_iff)
qed

lemma two_pow_1024_big: "(2 :: rat) ^ 53 < two_pow 1024"
  by (simp add: two_pow_def)

lemma of_exact_bounded:
  assumes "\<bar>q\<bar> \<le> of_int m" "m < 2 ^ 53"
  shows "is_finite (of_exact neg q)" "fval (of_exact neg q) = rnd q" "\<bar>rnd q\<bar> \<le> of_int m"
proof -
  have m: "0 \<le> m" using assms(1) by (metis abs_ge_zero of_int_0_le_iff order_trans)
  have "rnd \<bar>q\<bar> \<le> rnd (of_int m)" using assms(1) by (rule rnd_mono)
  also have "\<dots> = of_int m" using m assms(2) by (intro rnd_of_small_int) simp
  finally show b: "\<bar>rnd q\<bar> \<le> of_int m" by (simp add: rnd_abs)
  have "of_int m < (of_int (2 ^ 53) :: rat)" using assms(2) by (simp only: of_int_less_iff)
  with b two_pow_1024_big have "\<bar>rnd q\<bar> < two_pow 1024" by simp
  then show "is_finite (of_exact neg q)" "fval (of_exact neg q) = rnd q"
    by (simp_all add: of_exact_finite)
qed

lemma finite_less_iff [float_simps]:
  "is_finite x \<Longrightarrow> is_finite y \<Longrightarrow> x < y \<longleftrightarrow> fval x < fval y"
  by (cases x; cases y) (auto simp: less_pyfloat_def)

lemma finite_less_eq_iff [float_simps]:
  "is_finite x \<Longrightarrow> is_finite y \<Longrightarrow> x \<le> y \<longleftrightarrow> fval x \<le> fval y"
  by (cases x; cases y) (auto simp: less_eq_pyfloat_def)

lemma NaN_not_less [simp]: "\<not> NaN < x" "\<not> x < NaN" "\<not> NaN \<le> x" "\<not> x \<le> NaN"
  by (auto simp: less_pyfloat_def less_eq_pyfloat_def split: option.splits)

lemma feq_finite: "is_finite x \<Longrightarrow> is_finite y \<Longrightarrow> feq x y \<longleftrightarrow> fval x = fval y"
  by (cases x; cases y) (auto simp: feq_def)

lemma uminus_finite [simp]: "is_finite (- x) = is_finite x" "fval (- x) = - fval x"
  by (cases x; auto)+

lemma binary64_uminus: "binary64 x \<Longrightarrow> binary64 (- x)"
  by (cases x) (auto simp: rnd_minus)

lemma binary64_plus: "binary64 x \<Longrightarrow> binary64 y \<Longrightarrow> binary64 (x + y)"
  by (auto simp: plus_pyfloat_def of_exact_binary64)

lemma binary64_minus: "binary64 x \<Longrightarrow> binary64 y \<Longrightarrow> binary64 (x - y)"
  by (simp add: minus_pyfloat_def binary64_plus binary64_uminus)

lemma binary64_times: "binary64 (x * y)"
  by (auto simp: times_pyfloat_def of_exact_binary64 inf_of_def)

lemma binary64_fdiv: "fdiv x y = Inr z \<Longrightarrow> binary64 z"
  by (auto simp: fdiv_def of_exact_binary64 inf_of_def split: if_splits)

lemma binary64_int_truediv: "int_truediv a b = Inr z \<Longrightarrow> binary64 z \<and> is_finite z"
  by (auto simp: int_truediv_def Let_def of_exact_binary64 split: if_splits)

lemma py_float_errors: "py_float s = Inl e \<Longrightarrow> e = ValueError"
  by (auto simp: py_float_def Let_def split: prod.splits if_splits option.splits)

end
