(* ===== verification/FloatOrder.thy ===== *)
theory FloatOrder
  imports PyFloat
begin

text \<open>
  How binary64 arithmetic respects the order: rounding, subtraction, division by a positive
  number and the scaling to a percentage are monotone, and the difference of two distinct
  finite values is never zero (gradual underflow), so a division guarded by \<open>x != y\<close> cannot
  raise. The last section evaluates operations whose exact result is dyadic.
\<close>

named_theorems float_mono \<open>monotonicity of binary64 operations\<close>

section \<open>The order\<close>

lemma fle_trans: "x \<le> y \<Longrightarrow> y \<le> z \<Longrightarrow> x \<le> (z :: pyfloat)"
  by (cases x; cases y; cases z) (auto simp: less_eq_pyfloat_def)

lemma fle_refl: "x \<noteq> NaN \<Longrightarrow> x \<le> (x :: pyfloat)"
  by (cases x) (auto simp: less_eq_pyfloat_def)

lemma fless_le: "x < y \<Longrightarrow> x \<le> (y :: pyfloat)"
  by (cases x; cases y) (auto simp: less_pyfloat_def less_eq_pyfloat_def)

lemma fle_not_NaN: "x \<le> y \<Longrightarrow> x \<noteq> NaN \<and> (y :: pyfloat) \<noteq> NaN"
  by auto

lemma fle_not_less: "x \<le> y \<Longrightarrow> \<not> y < (x :: pyfloat)"
  by (cases x; cases y) (auto simp: less_pyfloat_def less_eq_pyfloat_def)

lemma not_fless_le: "x \<noteq> NaN \<Longrightarrow> y \<noteq> NaN \<Longrightarrow> \<not> x < y \<Longrightarrow> y \<le> (x :: pyfloat)"
  by (cases x; cases y) (auto simp: less_pyfloat_def less_eq_pyfloat_def)

lemma Fin_le_iff [simp]: "Fin p \<le> Fin q \<longleftrightarrow> p \<le> q" "Fin p < Fin q \<longleftrightarrow> p < q"
  by (simp_all add: less_eq_pyfloat_def less_pyfloat_def)

lemma of_exact_not_NaN [simp]: "of_exact neg q \<noteq> NaN"
  by (auto simp: of_exact_def Let_def)

lemma of_exact_mono [float_mono]:
  assumes "p \<le> q"
  shows "of_exact a p \<le> of_exact b q"
proof -
  have "rnd p \<le> rnd q" using assms by (rule rnd_mono)
  moreover have "0 < two_pow 1024" by simp
  ultimately show ?thesis
    by (auto simp: of_exact_def Let_def less_eq_pyfloat_def simp del: two_pow_pos)
qed

lemma of_exact_fixed: "rnd c = c \<Longrightarrow> \<bar>c\<bar> < two_pow 1024 \<Longrightarrow> of_exact False c = Fin c"
  by (auto simp: of_exact_def Let_def abs_less_iff)

lemma of_exact_le_Fin:
  assumes "q \<le> c" "rnd c = c" "\<bar>c\<bar> < two_pow 1024"
  shows "of_exact a q \<le> Fin c"
  using of_exact_mono [OF assms(1), of a False] by (simp add: of_exact_fixed assms(2,3))

lemma Fin_le_of_exact:
  assumes "c \<le> q" "rnd c = c" "\<bar>c\<bar> < two_pow 1024"
  shows "Fin c \<le> of_exact a q"
  using of_exact_mono [OF assms(1), of False a] by (simp add: of_exact_fixed assms(2,3))

lemma rnd_hundred: "rnd 100 = 100" "\<bar>100\<bar> < two_pow 1024"
  using rnd_of_small_int [of 100] two_pow_1024_big by simp_all

lemma rnd_one: "rnd 1 = 1" "\<bar>1\<bar> < two_pow 1024"
  using rnd_of_small_int [of 1] two_pow_1024_big by simp_all

lemma zero_le_of_exact: "0 \<le> q \<Longrightarrow> Fin 0 \<le> of_exact a q"
  by (rule Fin_le_of_exact) simp_all

lemma of_exact_le_zero: "q \<le> 0 \<Longrightarrow> of_exact a q \<le> Fin 0"
  by (rule of_exact_le_Fin) simp_all

section \<open>Distinct values have a nonzero difference\<close>

lemma rnd_fixed_multiple:
  assumes "rnd q = q"
  obtains k where "q = of_int k * two_pow (- 1074)"
proof (cases "q = 0")
  case True
  then show ?thesis by (intro that [of 0]) simp
next
  case False
  define e where "e = ulp_exp q"
  have e: "- 1074 \<le> e" by (simp add: e_def ulp_exp_def)
  define r where "r = rhe (q / two_pow e)"
  have "q = of_int r * two_pow e"
    using assms False by (simp add: rnd_def e_def r_def)
  moreover have "two_pow e = 2 ^ nat (e + 1074) * two_pow (- 1074)"
    using e two_pow_int [of "e + 1074"] two_pow_add [of "e + 1074" "- 1074"] by simp
  ultimately show ?thesis
    by (intro that [of "r * 2 ^ nat (e + 1074)"]) simp
qed

lemma rnd_diff_nonzero:
  assumes "rnd p = p" "rnd q = q" "p < q"
  shows "0 < rnd (q - p)"
proof -
  obtain j k where j: "p = of_int j * two_pow (- 1074)" and k: "q = of_int k * two_pow (- 1074)"
    using rnd_fixed_multiple [OF assms(1)] rnd_fixed_multiple [OF assms(2)] by metis
  with assms(3) have "j < k" by simp
  then have "1 \<le> k - j" by simp
  then have "of_int 1 * two_pow (- 1074) \<le> of_int (k - j) * two_pow (- 1074)"
    by (intro mult_right_mono) (simp_all only: of_int_le_iff less_imp_le two_pow_pos)
  then have "two_pow (- 1074) \<le> q - p" by (simp add: j k algebra_simps)
  then have "rnd (two_pow (- 1074)) \<le> rnd (q - p)" by (rule rnd_mono)
  moreover have "rnd (two_pow (- 1074)) = two_pow (- 1074)"
    by (rule rnd_exact [of _ 1 "- 1074"]) simp_all
  ultimately show ?thesis using two_pow_pos [of "- 1074"] by linarith
qed

lemma binary64_rnd: "binary64 x \<Longrightarrow> is_finite x \<Longrightarrow> rnd (fval x) = fval x"
  by (cases x) auto

lemma minus_finite:
  "is_finite x \<Longrightarrow> is_finite y \<Longrightarrow> x - y = of_exact (x = NegZero \<and> - y = NegZero) (fval x - fval y)"
  by (cases x; cases y) (auto simp: minus_pyfloat_def plus_pyfloat_def)

lemma diff_not_zero:
  assumes "binary64 x" "binary64 y" "\<not> feq x y"
  shows "\<not> is_zero (x - y)"
proof (cases "is_finite x \<and> is_finite y")
  case True
  then have f: "is_finite x" "is_finite y" by auto
  from assms(3) f have "fval x \<noteq> fval y" by (simp add: feq_finite)
  then have "rnd (fval x - fval y) \<noteq> 0"
  proof (cases "fval x < fval y")
    case True
    then have "0 < rnd (fval y - fval x)" using assms f by (intro rnd_diff_nonzero binary64_rnd)
    then show ?thesis using rnd_minus [of "fval y - fval x"] by auto
  next
    case False
    with \<open>fval x \<noteq> fval y\<close> have "0 < rnd (fval x - fval y)"
      using assms f by (intro rnd_diff_nonzero binary64_rnd) auto
    then show ?thesis by auto
  qed
  then show ?thesis by (auto simp: minus_finite f is_zero_def of_exact_def Let_def split: if_splits)
next
  case False
  with assms(3) show ?thesis
    by (cases x; cases y) (auto simp: minus_pyfloat_def plus_pyfloat_def is_zero_def feq_def split: if_splits)
qed

section \<open>Monotone operations\<close>

lemma minus_left_mono [float_mono]:
  "is_finite x \<Longrightarrow> is_finite y \<Longrightarrow> is_finite z \<Longrightarrow> x \<le> y \<Longrightarrow> x - z \<le> y - z"
  by (simp add: minus_finite float_simps of_exact_mono)

lemma minus_right_mono [float_mono]:
  "is_finite x \<Longrightarrow> is_finite y \<Longrightarrow> is_finite z \<Longrightarrow> x \<le> y \<Longrightarrow> z - y \<le> z - x"
  by (simp add: minus_finite float_simps of_exact_mono)

lemma fdiv_pos_finite:
  "is_finite x \<Longrightarrow> is_finite z \<Longrightarrow> 0 < fval z \<Longrightarrow>
   fdiv x z = Inr (of_exact (signbit x \<noteq> signbit z) (fval x / fval z))"
  by (auto simp: fdiv_def is_zero_def)

lemma pos_not_signbit: "is_finite z \<Longrightarrow> 0 < fval z \<Longrightarrow> \<not> signbit z"
  by (cases z) auto

lemma fdiv_pos_infinite:
  assumes "is_finite z" "0 < fval z"
  shows "fdiv PosInf z = Inr PosInf" "fdiv NegInf z = Inr NegInf"
  using assms by (auto simp: fdiv_def is_zero_def inf_of_def dest: pos_not_signbit)

lemma fdiv_left_mono [float_mono]:
  assumes "x \<le> y" "is_finite z" "0 < fval z" "fdiv x z = Inr u" "fdiv y z = Inr v"
  shows "u \<le> v"
proof -
  have div_mono: "fval x / fval z \<le> fval y / fval z" if "is_finite x" "is_finite y"
    using that assms(1,3) by (simp add: float_simps divide_right_mono)
  have top: "w \<le> PosInf" and bot: "NegInf \<le> w" if "w \<noteq> NaN" for w
    using that by (cases w; simp add: less_eq_pyfloat_def)+
  show ?thesis
  proof (cases "is_finite x \<and> is_finite y")
    case True
    with assms(2-5) have "u = of_exact (signbit x \<noteq> signbit z) (fval x / fval z)"
      "v = of_exact (signbit y \<noteq> signbit z) (fval y / fval z)"
      by (simp_all add: fdiv_pos_finite)
    with True show ?thesis by (simp add: of_exact_mono div_mono)
  next
    case False
    have "u \<noteq> NaN" if "fdiv w z = Inr u" "w \<noteq> NaN" for w u
      using that assms(2,3)
      by (cases w) (auto simp: fdiv_pos_infinite fdiv_pos_finite)
    then have n: "u \<noteq> NaN" "v \<noteq> NaN" using assms fle_not_NaN by blast+
    from False assms(1) have "x = NegInf \<or> y = PosInf"
      by (cases x; cases y) (auto simp: less_eq_pyfloat_def)
    then show ?thesis using assms(2-5) n by (auto simp: fdiv_pos_infinite intro: top bot)
  qed
qed

lemma times_hundred_finite: "is_finite x \<Longrightarrow> x * hundred = of_exact (signbit x) (fval x * 100)"
  by (cases x) (auto simp: times_pyfloat_def)

lemma times_hundred_infinite: "PosInf * hundred = PosInf" "NegInf * hundred = NegInf"
  by (simp_all add: times_pyfloat_def is_zero_def inf_of_def)

lemma times_hundred_mono [float_mono]: "x \<le> y \<Longrightarrow> x * hundred \<le> y * hundred"
proof -
  assume le: "x \<le> y"
  have top: "w \<le> PosInf" and bot: "NegInf \<le> w" if "w \<noteq> NaN" for w
    using that by (cases w; simp add: less_eq_pyfloat_def)+
  have n: "w * hundred \<noteq> NaN" if "w \<noteq> NaN" for w
    using that by (cases w) (simp_all add: times_hundred_finite times_hundred_infinite)
  show ?thesis
  proof (cases "is_finite x \<and> is_finite y")
    case True
    with le show ?thesis by (simp add: times_hundred_finite of_exact_mono float_simps)
  next
    case False
    with le have "x = NegInf \<or> y = PosInf"
      by (cases x; cases y) (auto simp: less_eq_pyfloat_def)
    then show ?thesis using n [of x] n [of y] fle_not_NaN [OF le]
      by (auto simp: times_hundred_infinite top bot)
  qed
qed

lemma one_times_hundred: "Fin 1 * hundred = hundred"
  using rnd_hundred by (simp add: times_hundred_finite of_exact_def Let_def)

lemma zero_times_hundred: "Fin 0 * hundred = Fin 0"
  using two_pow_pos [of 1024]
  by (simp add: times_hundred_finite of_exact_def Let_def del: two_pow_pos)

section \<open>Evaluation of dyadic results\<close>

lemma of_exact_dyadic:
  assumes "q = of_int m / 2 ^ k" "\<bar>m\<bar> < 2 ^ 53" "k \<le> 1074"
  shows "of_exact neg q = (if q = 0 \<and> neg then NegZero else Fin q)"
proof -
  have r: "rnd q = q"
    using assms by (intro rnd_exact [of _ m "- int k"]) (simp_all add: two_pow_def)
  have "\<bar>q\<bar> \<le> of_int \<bar>m\<bar>"
    unfolding assms(1) abs_divide of_int_abs [symmetric]
    by (simp add: divide_le_eq) (metis abs_ge_zero mult_left_mono mult.right_neutral of_int_abs one_le_power one_le_numeral)
  also have "\<dots> < of_int (2 ^ 53)" using assms(2) by (simp only: of_int_less_iff)
  also have "\<dots> < two_pow 1024" using two_pow_1024_big by simp
  finally have "\<bar>q\<bar> < two_pow 1024" .
  then show ?thesis
    using two_pow_pos [of 1024] by (auto simp: of_exact_def r Let_def simp del: two_pow_pos)
qed

lemma of_exact_int: "\<bar>m\<bar> < 2 ^ 53 \<Longrightarrow> of_exact False (of_int m) = Fin (of_int m)"
  using of_exact_dyadic [of "of_int m" m 0] by simp

end
