(* ===== verification/Overhead.thy ===== *)
theory Overhead
  imports FloatOrder
begin

text \<open>
  The figures the summary scripts derive from run times and check counts: \<open>numeric\<close>,
  \<open>compute_overhead_metrics\<close> (\<open>scripts/spec_asan_summary.py\<close> and, the same text,
  \<open>scripts/opensource_summary.py\<close>), \<open>overhead_metrics\<close> (\<open>scripts/spec_asanmm_summary.py\<close>
  and, the same text up to names, \<open>scripts/opensource_asanmm_summary.py\<close> and
  \<open>scripts/spec_sanrazor_summary.py\<close>), the ratios of check counts and the cells of the
  printed tables.

  The locale is the contract that both versions of the overhead computation share; it is
  interpreted on each of them.
\<close>

section \<open>Definitions\<close>

text \<open>A CSV value is a string, or \<open>None\<close> where the row has no such column.\<close>

definition numeric :: "string option \<Rightarrow> pyfloat option" where
  "numeric value = (case value of
      None \<Rightarrow> None
    | Some v \<Rightarrow> (let s = strip v in
        if s = '''' \<or> s = ''--'' then None
        else (case py_float s of Inl e \<Rightarrow> None | Inr x \<Rightarrow> Some x)))"

text \<open>\<open>x / y * 100.0\<close>, on floats and on ints.\<close>

definition percent :: "pyfloat \<Rightarrow> pyfloat \<Rightarrow> pyfloat res" where
  "percent x y = bindE (fdiv x y) (\<lambda>q. Inr (q * hundred))"

definition int_percent :: "int \<Rightarrow> int \<Rightarrow> pyfloat res" where
  "int_percent a b = bindE (int_truediv a b) (\<lambda>q. Inr (q * hundred))"

text \<open>\<open>(a / b * 100.0) if b else None\<close>\<close>

definition ratio_or_none :: "int \<Rightarrow> int \<Rightarrow> pyfloat option res" where
  "ratio_or_none a b = (if b \<noteq> 0 then bindE (int_percent a b) (\<lambda>q. Inr (Some q)) else Inr None)"

type_synonym run_time = "pyfloat option"

definition compute_overhead_metrics ::
  "string \<Rightarrow> string \<Rightarrow> string \<Rightarrow> run_time \<Rightarrow> run_time \<Rightarrow> run_time \<Rightarrow>
   (pyfloat option \<times> pyfloat option \<times> pyfloat option) res" where
  "compute_overhead_metrics native_status before_status after_status native_time before_time after_time =
     (case (native_time, before_time, after_time) of
        (Some n, Some b, Some a) \<Rightarrow>
          if native_status = ''S'' \<and> before_status = ''S'' \<and> after_status = ''S'' \<and> Fin 0 < n
          then bindE (percent (b - n) n) (\<lambda>sanitizer_overhead.
               bindE (percent (a - n) n) (\<lambda>desan_overhead.
               if \<not> feq b n
               then bindE (percent (b - a) (b - n)) (\<lambda>overhead_reduction.
                 Inr (Some sanitizer_overhead, Some desan_overhead, Some overhead_reduction))
               else Inr (Some sanitizer_overhead, Some desan_overhead, None)))
          else Inr (None, None, None)
      | _ \<Rightarrow> Inr (None, None, None))"

definition overhead_metrics ::
  "string \<Rightarrow> string \<Rightarrow> string \<Rightarrow> run_time \<Rightarrow> run_time \<Rightarrow> run_time \<Rightarrow>
   (pyfloat option \<times> pyfloat option \<times> pyfloat option \<times> pyfloat option) res" where
  "overhead_metrics native_status base_status tool_status native_time base_time tool_time =
     (case (native_time, base_time, tool_time) of
        (Some n, Some b, Some a) \<Rightarrow>
          if native_status = ''S'' \<and> base_status = ''S'' \<and> tool_status = ''S'' \<and> Fin 0 < n
          then bindE (percent (b - n) n) (\<lambda>sanitizer_overhead.
               bindE (percent (a - n) n) (\<lambda>tool_overhead.
               bindE (if \<not> feq b n
                      then bindE (percent (b - a) (b - n)) (\<lambda>q. Inr (Some q)) else Inr None) (\<lambda>overhead_reduction.
               bindE (if Fin 0 < b
                      then bindE (percent (b - a) b) (\<lambda>q. Inr (Some q)) else Inr None) (\<lambda>runtime_reduction.
               Inr (Some sanitizer_overhead, Some tool_overhead, overhead_reduction, runtime_reduction)))))
          else Inr (None, None, None, None)
      | _ \<Rightarrow> Inr (None, None, None, None))"

text \<open>The cells of the tables: \<open>fmt_int\<close>, \<open>fmt_float\<close>, \<open>fmt_pct\<close> (also named \<open>num\<close>, \<open>flt\<close>, \<open>pct\<close>).\<close>

definition fmt_int :: "int \<Rightarrow> string" where
  "fmt_int value = fmt_thousands value"

definition fmt_float :: "pyfloat option \<Rightarrow> string" where
  "fmt_float value = (case value of None \<Rightarrow> ''--'' | Some x \<Rightarrow> fmt_fixed 3 x)"

definition fmt_pct :: "pyfloat option \<Rightarrow> string" where
  "fmt_pct value = (case value of None \<Rightarrow> ''--'' | Some x \<Rightarrow> fmt_fixed 2 x @ ''%'')"

text \<open>A table line: \<open>"| " + " | ".join(cells) + " |"\<close>\<close>

definition table_line :: "string list \<Rightarrow> string" where
  "table_line cells = ''| '' @ join '' | '' cells @ '' |''"

definition table_rule :: "nat \<Rightarrow> string" where
  "table_rule n = ''|'' @ join ''|'' (replicate n ''---'') @ ''|''"

section \<open>Lemmas\<close>

lemma numeric_binary64: "numeric v = Some x \<Longrightarrow> binary64 x"
  by (auto simp: numeric_def Let_def py_float_def of_exact_binary64 inf_of_def
      split: option.splits if_splits sum.splits prod.splits)

lemma not_zero_pos: "Fin 0 < x \<Longrightarrow> \<not> is_zero x"
  by (cases x) (auto simp: is_zero_def less_pyfloat_def)

lemma percent_total: "\<not> is_zero y \<Longrightarrow> \<exists>q. percent x y = Inr q"
  by (auto simp: percent_def fdiv_def)

lemma percent_mono:
  "x \<le> y \<Longrightarrow> is_finite z \<Longrightarrow> 0 < fval z \<Longrightarrow> percent x z = Inr u \<Longrightarrow> percent y z = Inr v \<Longrightarrow> u \<le> v"
  by (auto simp: percent_def res_simps intro: times_hundred_mono fdiv_left_mono)

lemma percent_nonneg:
  assumes "Fin 0 \<le> x" "is_finite y" "0 < fval y" "percent x y = Inr r"
  shows "Fin 0 \<le> r"
proof -
  obtain q where q: "fdiv x y = Inr q" "r = q * hundred"
    using assms(4) by (auto simp: percent_def res_simps)
  have "fdiv (Fin 0) y = Inr (of_exact (signbit y) 0)" using assms by (simp add: fdiv_pos_finite)
  moreover have "Fin 0 \<le> of_exact (signbit y) 0" by (rule zero_le_of_exact) simp
  ultimately have "Fin 0 \<le> q" using fdiv_left_mono [OF assms(1-3) _ q(1)] fle_trans by blast
  from times_hundred_mono [OF this] show ?thesis by (simp add: q zero_times_hundred)
qed

lemma percent_le_hundred:
  assumes "x \<le> y" "is_finite y" "0 < fval y" "percent x y = Inr r"
  shows "r \<le> hundred"
proof -
  obtain q where q: "fdiv x y = Inr q" "r = q * hundred"
    using assms(4) by (auto simp: percent_def res_simps)
  have "fdiv y y = Inr (Fin 1)" using assms rnd_one by (simp add: fdiv_pos_finite of_exact_fixed)
  then have "q \<le> Fin 1" using fdiv_left_mono [OF assms(1-3) q(1)] by blast
  from times_hundred_mono [OF this] show ?thesis by (simp add: q one_times_hundred)
qed

lemma diff_nonneg: "is_finite x \<Longrightarrow> is_finite y \<Longrightarrow> y \<le> x \<Longrightarrow> Fin 0 \<le> x - y"
  by (simp add: minus_finite float_simps zero_le_of_exact)

lemma minus_nonneg_le:
  assumes "is_finite x" "is_finite y" "Fin 0 \<le> y" "binary64 x"
  shows "x - y \<le> x"
proof -
  have "\<bar>fval x\<bar> < two_pow 1024" "rnd (fval x) = fval x" using assms(1,4) by (cases x; simp)+
  then have e: "of_exact False (fval x) \<le> x"
    using of_exact_finite [of "fval x" False] assms(1) by (simp add: float_simps)
  have "x - y \<le> of_exact False (fval x)"
    using assms(1-3) by (simp add: minus_finite float_simps of_exact_mono)
  then show ?thesis using e fle_trans by blast
qed

text \<open>The difference of a time and a smaller positive one does not overflow and is not 0.\<close>

lemma positive_diff:
  assumes "is_finite x" "is_finite y" "binary64 x" "binary64 y" "0 \<le> fval y" "fval y < fval x"
  shows "is_finite (x - y)" "0 < fval (x - y)"
proof -
  have x: "rnd (fval x) = fval x" "\<bar>fval x\<bar> < two_pow 1024" using assms(1,3) by (cases x; simp)+
  have pos: "0 < rnd (fval x - fval y)" using assms by (intro rnd_diff_nonzero binary64_rnd)
  moreover have "rnd (fval x - fval y) \<le> fval x"
    using rnd_mono [of "fval x - fval y" "fval x"] assms(5) x by simp
  ultimately have "\<bar>rnd (fval x - fval y)\<bar> < two_pow 1024" using x(2) by simp
  from of_exact_finite [OF this] pos show "is_finite (x - y)" "0 < fval (x - y)"
    using assms by (simp_all add: minus_finite)
qed

lemma int_percent_total_le:
  assumes "0 \<le> a" "a \<le> b" "0 < b"
  obtains q where "int_percent a b = Inr q" "Fin 0 \<le> q" "q \<le> hundred" "is_finite q"
proof -
  define x :: rat where "x = of_int a / of_int b"
  have x: "0 \<le> x" "x \<le> 1" using assms by (simp_all add: x_def)
  define q where "q = of_exact False x"
  from x have f: "is_finite q" using of_exact_bounded(1) [of x 1 False] by (simp add: q_def)
  moreover have "int_truediv a b = Inr q"
    using assms f by (simp add: int_truediv_def q_def x_def Let_def)
  moreover have lo: "Fin 0 \<le> q" using x by (simp add: q_def zero_le_of_exact)
  moreover have hi: "q \<le> Fin 1" using x rnd_one by (simp add: q_def of_exact_le_Fin)
  moreover have b: "Fin 0 \<le> q * hundred" "q * hundred \<le> hundred"
    using times_hundred_mono [OF lo] times_hundred_mono [OF hi]
    by (simp_all add: zero_times_hundred one_times_hundred)
  moreover have "is_finite (q * hundred)"
    using b by (cases "q * hundred") (auto simp: less_eq_pyfloat_def)
  ultimately show ?thesis by (intro that [of "q * hundred"]) (simp_all add: int_percent_def)
qed

lemma int_truediv_nonneg:
  assumes "0 \<le> a" "a \<le> b" "0 < b"
  shows "int_truediv a b = Inr (of_exact False (of_int a / of_int b))"
proof -
  have "\<bar>of_int a / of_int b\<bar> \<le> (of_int 1 :: rat)" using assms by simp
  from of_exact_bounded(1) [OF this] show ?thesis using assms by (simp add: int_truediv_def Let_def)
qed

text \<open>A larger denominator gives no larger percentage.\<close>

lemma int_percent_antimono:
  assumes "0 \<le> a" "a \<le> b" "b \<le> c" "0 < b" "int_percent a b = Inr p" "int_percent a c = Inr q"
  shows "q \<le> p"
proof -
  have "of_int a / of_int c \<le> (of_int a / of_int b :: rat)"
    using assms(1-4) by (intro divide_left_mono) simp_all
  then have "of_exact False (of_int a / of_int c) * hundred \<le> of_exact False (of_int a / of_int b) * hundred"
    by (intro times_hundred_mono of_exact_mono)
  moreover have "p = of_exact False (of_int a / of_int b) * hundred"
    using assms(5) int_truediv_nonneg [OF assms(1,2,4)] by (simp add: int_percent_def)
  moreover have "q = of_exact False (of_int a / of_int c) * hundred"
    using assms(6) int_truediv_nonneg [of a c] assms(1-4) by (simp add: int_percent_def)
  ultimately show ?thesis by simp
qed

lemma ratio_or_none_exn: "ratio_or_none a b = Inl e \<Longrightarrow> e = OverflowError"
  by (auto simp: ratio_or_none_def int_percent_def int_truediv_def Let_def res_simps split: if_splits)

lemma ratio_or_none_bounds:
  assumes "ratio_or_none a b = Inr r" "0 \<le> a" "a \<le> b"
  shows "(r = None \<longleftrightarrow> b = 0) \<and> (\<forall>q\<in>set_option r. Fin 0 \<le> q \<and> q \<le> hundred)"
proof (cases "b = 0")
  case True
  with assms show ?thesis by (auto simp: ratio_or_none_def)
next
  case False
  with assms(2,3) have "0 < b" by simp
  from int_percent_total_le [OF assms(2,3) this] obtain q
    where "int_percent a b = Inr q" "Fin 0 \<le> q" "q \<le> hundred" .
  with False assms(1) show ?thesis by (auto simp: ratio_or_none_def)
qed

section \<open>The contract of the overhead computations\<close>

text \<open>
  What a script may rely on: nothing is computed unless all three runs succeeded and have a
  time, the native time being positive; otherwise the two overheads are relative to the native
  time, and the reduction is the share of the first that the tool saves, if there is any.
\<close>

definition measured :: "string \<Rightarrow> string \<Rightarrow> string \<Rightarrow> pyfloat \<Rightarrow> bool" where
  "measured ns bs as n \<longleftrightarrow> ns = ''S'' \<and> bs = ''S'' \<and> as = ''S'' \<and> Fin 0 < n"

locale overhead_contract =
  fixes metrics :: "string \<Rightarrow> string \<Rightarrow> string \<Rightarrow> run_time \<Rightarrow> run_time \<Rightarrow> run_time \<Rightarrow>
    (pyfloat option \<times> pyfloat option \<times> pyfloat option) res"
  assumes missing: "tn = None \<or> tb = None \<or> ta = None \<Longrightarrow> metrics ns bs as tn tb ta = Inr (None, None, None)"
    and unmeasured: "\<not> measured ns bs as n \<Longrightarrow>
      metrics ns bs as (Some n) (Some b) (Some a) = Inr (None, None, None)"
    and equal_times: "measured ns bs as n \<Longrightarrow> feq b n \<Longrightarrow>
      metrics ns bs as (Some n) (Some b) (Some a) =
        bindE (percent (b - n) n) (\<lambda>s. bindE (percent (a - n) n) (\<lambda>d. Inr (Some s, Some d, None)))"
    and changed_times: "measured ns bs as n \<Longrightarrow> \<not> feq b n \<Longrightarrow>
      metrics ns bs as (Some n) (Some b) (Some a) =
        bindE (percent (b - n) n) (\<lambda>s. bindE (percent (a - n) n) (\<lambda>d.
          bindE (percent (b - a) (b - n)) (\<lambda>r. Inr (Some s, Some d, Some r))))"
begin

lemma metrics_total:
  assumes "\<forall>x\<in>set_option n. binary64 x" "\<forall>x\<in>set_option b. binary64 x"
  shows "\<exists>r. metrics ns bs as n b a = Inr r"
proof (cases "n = None \<or> b = None \<or> a = None")
  case False
  then obtain x y z where t: "n = Some x" "b = Some y" "a = Some z" by auto
  show ?thesis
  proof (cases "measured ns bs as x")
    case True
    then have x: "\<not> is_zero x" by (simp add: measured_def not_zero_pos)
    from percent_total [OF this] obtain s d where s: "percent (y - x) x = Inr s"
      and d: "percent (z - x) x = Inr d" by metis
    show ?thesis
    proof (cases "feq y x")
      case False
      then have "\<not> is_zero (y - x)" using assms by (intro diff_not_zero) (simp_all add: t)
      from percent_total [OF this] obtain r where "percent (y - z) (y - x) = Inr r" by blast
      with True False s d show ?thesis by (simp add: t changed_times)
    qed (use True s d in \<open>simp add: t equal_times\<close>)
  qed (simp add: t unmeasured)
qed (simp add: missing)

lemma metrics_cases:
  assumes "metrics ns bs as n b a = Inr (s, d, r)"
  obtains (none) "s = None" "d = None" "r = None"
  | (some) x y z p q where "n = Some x" "b = Some y" "a = Some z" "measured ns bs as x"
      "s = Some p" "d = Some q" "percent (y - x) x = Inr p" "percent (z - x) x = Inr q"
      "r = None \<longleftrightarrow> feq y x" "\<And>u. r = Some u \<Longrightarrow> percent (y - z) (y - x) = Inr u"
proof (cases "n = None \<or> b = None \<or> a = None")
  case True
  with assms show ?thesis by (intro none) (simp_all add: missing)
next
  case False
  then obtain x y z where t: "n = Some x" "b = Some y" "a = Some z" by auto
  show ?thesis
  proof (cases "measured ns bs as x")
    case True
    show ?thesis
    proof (cases "feq y x")
      case feq: True
      with assms True obtain p q where "s = Some p" "d = Some q" "r = None"
        "percent (y - x) x = Inr p" "percent (z - x) x = Inr q"
        by (auto simp: t equal_times res_simps)
      with t True feq show ?thesis by (intro some [of x y z p q]) simp_all
    next
      case ne: False
      with assms True obtain p q u where "s = Some p" "d = Some q" "r = Some u"
        "percent (y - x) x = Inr p" "percent (z - x) x = Inr q" "percent (y - z) (y - x) = Inr u"
        by (auto simp: t changed_times res_simps)
      with t True ne show ?thesis by (intro some [of x y z p q]) simp_all
    qed
  next
    case unm: False
    with assms show ?thesis by (intro none) (simp_all add: t unmeasured)
  qed
qed

text \<open>A tool that is not slower than the sanitizer alone has no larger overhead.\<close>

lemma metrics_order:
  assumes "metrics ns bs as (Some n) (Some b) (Some a) = Inr (Some s, Some d, r)"
    and "is_finite n" "is_finite b" "is_finite a" "a \<le> b"
  shows "d \<le> s"
  using assms(1)
proof (cases rule: metrics_cases)
  case (some x y z p q)
  then have "Fin 0 < n" by (simp add: measured_def)
  then have "0 < fval n" using assms(2) by (cases n) (auto simp: less_pyfloat_def)
  moreover have "a - n \<le> b - n" using assms by (intro minus_left_mono)
  ultimately show ?thesis using some assms(2) by (auto intro: percent_mono)
qed simp

text \<open>
  The reduction is not negative when the tool is not slower than the sanitizer, and at most
  100 per cent when it is not faster than the native program.
\<close>

lemma reduction_bounds:
  assumes "metrics ns bs as (Some n) (Some b) (Some a) = Inr (s, d, Some r)"
    and "is_finite n" "is_finite b" "is_finite a" "binary64 n" "binary64 b" "n < b"
  shows "a \<le> b \<Longrightarrow> Fin 0 \<le> r" "n \<le> a \<Longrightarrow> r \<le> hundred"
proof -
  from assms(1) have r: "percent (b - a) (b - n) = Inr r" and "Fin 0 < n"
    by (cases rule: metrics_cases; auto simp: measured_def)+
  then have "0 < fval n" using assms(2) by (cases n) (auto simp: less_pyfloat_def)
  with assms have pos: "is_finite (b - n)" "0 < fval (b - n)"
    by (auto intro!: positive_diff simp: float_simps)
  show "Fin 0 \<le> r" if "a \<le> b"
    using percent_nonneg [OF diff_nonneg [OF assms(3,4) that] pos r] .
  show "r \<le> hundred" if "n \<le> a"
    using percent_le_hundred [OF minus_right_mono [OF assms(2,4,3) that] pos r] .
qed

end

section \<open>Both computations meet the contract\<close>

interpretation desan: overhead_contract compute_overhead_metrics
  by unfold_locales (auto simp: compute_overhead_metrics_def measured_def split: option.splits)

text \<open>The first three figures of the longer version.\<close>

definition first_three ::
  "(pyfloat option \<times> pyfloat option \<times> pyfloat option \<times> pyfloat option) res \<Rightarrow>
   (pyfloat option \<times> pyfloat option \<times> pyfloat option) res" where
  "first_three m = bindE m (\<lambda>(s, d, r, t). Inr (s, d, r))"

lemma overhead_metrics_first_three:
  "first_three (overhead_metrics ns bs as n b a) = compute_overhead_metrics ns bs as n b a"
proof (cases "n = None \<or> b = None \<or> a = None")
  case True
  then show ?thesis
    by (auto simp: first_three_def overhead_metrics_def compute_overhead_metrics_def split: option.splits)
next
  case False
  then obtain x y z where t: "n = Some x" "b = Some y" "a = Some z" by auto
  have "\<exists>q. (if Fin 0 < y then bindE (percent (y - z) y) (\<lambda>q. Inr (Some q)) else Inr None) = Inr q"
    using percent_total [OF not_zero_pos, of y "y - z"] by (auto simp: res_simps)
  then obtain q where q:
    "(if Fin 0 < y then bindE (percent (y - z) y) (\<lambda>q. Inr (Some q)) else Inr None) = Inr q" by blast
  show ?thesis
    unfolding first_three_def overhead_metrics_def compute_overhead_metrics_def t q prod.case option.case
    by (auto simp: bindE_assoc)
qed

interpretation asanmm: overhead_contract "\<lambda>ns bs as n b a. first_three (overhead_metrics ns bs as n b a)"
  unfolding overhead_metrics_first_three by (rule desan.overhead_contract_axioms)

lemma overhead_metrics_total:
  assumes "\<forall>x\<in>set_option n. binary64 x" "\<forall>x\<in>set_option b. binary64 x"
  shows "\<exists>r. overhead_metrics ns bs sa n b a = Inr r"
  using asanmm.metrics_total [OF assms, of ns bs sa a] by (auto simp: first_three_def res_simps)

section \<open>Properties\<close>

text \<open>
  C3: the overhead computation never divides by zero: for times that are binary64 values (as
  every parsed time is) both versions return, whatever the statuses and whichever times are
  missing; a difference of two different floats is never rounded to 0.
\<close>

theorem overhead_never_raises:
  assumes "\<forall>x\<in>set_option n. binary64 x" "\<forall>x\<in>set_option b. binary64 x"
  shows "(\<exists>r. compute_overhead_metrics ns bs as n b a = Inr r) \<and>
    (\<exists>r. overhead_metrics ns bs as n b a = Inr r)"
proof -
  from desan.metrics_total [OF assms] asanmm.metrics_total [OF assms]
  show ?thesis by (auto simp: first_three_def res_simps)
qed

theorem overhead_never_raises_witness:
  "(\<exists>r. overhead_metrics ''S'' ''S'' ''S'' (Some (Fin 1)) (Some (Fin (1 + two_pow (- 52)))) None = Inr r) \<and>
   binary64 (Fin (1 + two_pow (- 52)))"
proof -
  have b: "binary64 (Fin 1)" "binary64 (Fin (1 + two_pow (- 52)))" by code_simp+
  with overhead_never_raises [of "Some (Fin 1)" "Some (Fin (1 + two_pow (- 52)))" "''S''" "''S''" "''S''" None]
  show ?thesis by simp
qed

text \<open>
  the two versions of the overhead computation agree: the longer one, which also computes
  the reduction of the run time, starts with the figures of the shorter one, errors included.
\<close>

theorem overhead_versions_agree:
  "bindE (overhead_metrics ns bs as n b a) (\<lambda>(s, d, r, t). Inr (s, d, r)) =
   compute_overhead_metrics ns bs as n b a"
  using overhead_metrics_first_three by (simp add: first_three_def)



end
