(* ===== verification/PyPath.thy ===== *)
theory PyPath
  imports PyStr
begin

text \<open>
  \<open>pathlib\<close> paths (POSIX) and the files of the machine. A path is normalised as \<open>Path\<close> does
  it: repeated slashes and \<open>.\<close> components vanish, and the empty path is the current
  directory. The files are a function from normalised path strings to nodes; a directory is
  there, but opening it raises.
\<close>

section \<open>Paths\<close>

definition path_root :: "string \<Rightarrow> string" where
  "path_root s = (if startswith s ''//'' \<and> \<not> startswith s ''///'' then ''//''
     else if startswith s ''/'' then ''/'' else '''')"

definition path_names :: "string \<Rightarrow> string list" where
  "path_names s = filter (\<lambda>w. w \<noteq> '''' \<and> w \<noteq> ''.'') (split_on (CHR ''/'') s)"

text \<open>\<open>str(Path(s))\<close>, \<open>Path(s).parts\<close>, \<open>Path(s).name\<close> and \<open>Path(s) / t\<close>.\<close>

definition path_str :: "string \<Rightarrow> string" where
  "path_str s = (if path_root s = '''' \<and> path_names s = [] then ''.''
     else path_root s @ join ''/'' (path_names s))"

definition path_parts :: "string \<Rightarrow> string list" where
  "path_parts s = (if path_root s = '''' then [] else [path_root s]) @ path_names s"

definition path_name :: "string \<Rightarrow> string" where
  "path_name s = (if path_names s = [] then '''' else last (path_names s))"

definition path_div :: "string \<Rightarrow> string \<Rightarrow> string" where
  "path_div s t = (if path_root t \<noteq> '''' then path_str t
     else if path_names t = [] then path_str s else path_str (s @ ''/'' @ t))"

section \<open>Files\<close>

datatype fnode = File string | Dir

type_synonym files = "string \<Rightarrow> fnode option"

definition path_exists :: "files \<Rightarrow> string \<Rightarrow> bool" where
  "path_exists fs p \<longleftrightarrow> fs (path_str p) \<noteq> None"

definition read_text :: "files \<Rightarrow> string \<Rightarrow> string res" where
  "read_text fs p = (case fs (path_str p) of
      None \<Rightarrow> Inl FileNotFoundError
    | Some Dir \<Rightarrow> Inl IsADirectoryError
    | Some (File t) \<Rightarrow> Inr t)"

text \<open>Every machine has its current directory.\<close>

definition has_cwd :: "files \<Rightarrow> bool" where
  "has_cwd fs \<longleftrightarrow> fs ''.'' = Some Dir"

lemma path_str_empty [simp]: "path_str '''' = ''.''"
  by (simp add: path_str_def path_root_def path_names_def split_on_def startswith_def)

lemma read_empty_path:
  "has_cwd fs \<Longrightarrow> path_exists fs '''' \<and> read_text fs '''' = Inl IsADirectoryError"
  by (simp add: has_cwd_def path_exists_def read_text_def)

lemma read_text_cases:
  "path_exists fs p \<Longrightarrow> read_text fs p = Inl e \<Longrightarrow> e = IsADirectoryError"
  by (auto simp: path_exists_def read_text_def split: option.splits fnode.splits)

text \<open>
  The machine a script runs on: its files, what \<open>Path(p).expanduser()\<close> makes of a path (it
  depends on the user's home directory) and the paths that \<open>glob.glob\<close> finds for a pattern.
\<close>

record machine =
  m_files :: files
  m_expand :: "string \<Rightarrow> string"
  m_glob :: "string \<Rightarrow> string list"

end
