(* ===== verification/PyRegex.thy ===== *)
theory PyRegex
  imports PyStr
begin

text \<open>
  Python's \<open>re\<close> on the constructs the scripts' patterns use. Matching is backtracking
  search: \<open>rmatch r s\<close> lists the states in which \<open>r\<close> can leave the input, in the order the
  engine tries them, so its first element is the match \<open>re\<close> reports. A state holds the
  characters before the position (nearest first), those after it, and the captured groups.
  A starred pattern repeats only while it consumes input, which is what makes it finite.
\<close>

named_theorems rx_simps \<open>evaluation of the regular expression matcher\<close>

datatype rx =
    Eps
  | One "char \<Rightarrow> bool"
  | Cat rx rx
  | Alt rx rx
  | Star rx
  | LazyStar rx
  | Group nat rx
  | Bol
  | Eol
  | WordB

record rstate =
  rx_before :: string
  rx_rest :: string
  rx_groups :: "(nat \<times> string) list"

section \<open>Character classes\<close>

text \<open>\<open>\w\<close>, \<open>\d\<close>, \<open>\s\<close> and \<open>.\<close> on Latin-1: the letters and numeric characters above U+007F are word characters.\<close>

definition is_word :: "char \<Rightarrow> bool" where
  "is_word c = (is_digit c \<or> is_ascii_alpha c \<or> c = CHR ''_'' \<or>
     (let n = (of_char c :: nat) in
        n \<in> {170, 178, 179, 181, 185, 186, 188, 189, 190} \<or> (192 \<le> n \<and> n \<noteq> 215 \<and> n \<noteq> 247)))"

definition Chr :: "char \<Rightarrow> rx" where
  "Chr c = One (\<lambda>x. x = c)"

definition Dot :: rx where
  "Dot = One (\<lambda>x. x \<noteq> NL)"

fun Lit :: "string \<Rightarrow> rx" where
  "Lit [] = Eps"
| "Lit (c # s) = Cat (Chr c) (Lit s)"

definition Plus :: "rx \<Rightarrow> rx" where
  "Plus r = Cat r (Star r)"

definition Opt :: "rx \<Rightarrow> rx" where
  "Opt r = Alt r Eps"

fun Seqs :: "rx list \<Rightarrow> rx" where
  "Seqs [] = Eps"
| "Seqs (r # rs) = Cat r (Seqs rs)"

section \<open>The matcher\<close>

fun star_states :: "nat \<Rightarrow> (rstate \<Rightarrow> rstate list) \<Rightarrow> rstate \<Rightarrow> rstate list" where
  "star_states 0 m s = [s]"
| "star_states (Suc n) m s =
     concat (map (star_states n m) (filter (\<lambda>t. length (rx_rest t) < length (rx_rest s)) (m s))) @ [s]"

fun lazy_states :: "nat \<Rightarrow> (rstate \<Rightarrow> rstate list) \<Rightarrow> rstate \<Rightarrow> rstate list" where
  "lazy_states 0 m s = [s]"
| "lazy_states (Suc n) m s =
     s # concat (map (lazy_states n m) (filter (\<lambda>t. length (rx_rest t) < length (rx_rest s)) (m s)))"

definition advance :: "rstate \<Rightarrow> rstate list" where
  "advance s = (case rx_rest s of [] \<Rightarrow> [] | c # u \<Rightarrow> [s\<lparr>rx_before := c # rx_before s, rx_rest := u\<rparr>])"

definition at_word_boundary :: "rstate \<Rightarrow> bool" where
  "at_word_boundary s \<longleftrightarrow>
     (rx_before s \<noteq> [] \<and> is_word (hd (rx_before s))) \<noteq> (rx_rest s \<noteq> [] \<and> is_word (hd (rx_rest s)))"

definition capture :: "nat \<Rightarrow> rstate \<Rightarrow> rstate \<Rightarrow> rstate" where
  "capture i s t = t\<lparr>rx_groups := AList.update i (take (length (rx_rest s) - length (rx_rest t)) (rx_rest s)) (rx_groups t)\<rparr>"

primrec rmatch :: "rx \<Rightarrow> rstate \<Rightarrow> rstate list" where
  "rmatch Eps s = [s]"
| "rmatch (One P) s = (if rx_rest s \<noteq> [] \<and> P (hd (rx_rest s)) then advance s else [])"
| "rmatch (Cat r q) s = concat (map (rmatch q) (rmatch r s))"
| "rmatch (Alt r q) s = rmatch r s @ rmatch q s"
| "rmatch (Star r) s = star_states (length (rx_rest s)) (rmatch r) s"
| "rmatch (LazyStar r) s = lazy_states (length (rx_rest s)) (rmatch r) s"
| "rmatch (Group i r) s = map (capture i s) (rmatch r s)"
| "rmatch Bol s = (if rx_before s = [] then [s] else [])"
| "rmatch Eol s = (if rx_rest s = [] \<or> rx_rest s = [NL] then [s] else [])"
| "rmatch WordB s = (if at_word_boundary s then [s] else [])"

definition at_start :: "string \<Rightarrow> rstate" where
  "at_start s = \<lparr>rx_before = [], rx_rest = s, rx_groups = []\<rparr>"

text \<open>\<open>p.match(s)\<close> and \<open>p.search(s)\<close>; the result is the state after the match.\<close>

definition re_match :: "rx \<Rightarrow> string \<Rightarrow> rstate option" where
  "re_match r s = (case rmatch r (at_start s) of [] \<Rightarrow> None | t # _ \<Rightarrow> Some t)"

text \<open>The search also returns the state in which the match starts.\<close>

fun search_from :: "rx \<Rightarrow> string \<Rightarrow> string \<Rightarrow> (rstate \<times> rstate) option" where
  "search_from r b s =
     (let p = \<lparr>rx_before = b, rx_rest = s, rx_groups = []\<rparr> in
      case rmatch r p of
        t # _ \<Rightarrow> Some (p, t)
      | [] \<Rightarrow> (case s of [] \<Rightarrow> None | c # u \<Rightarrow> search_from r (c # b) u))"

declare search_from.simps [simp del]

definition re_search :: "rx \<Rightarrow> string \<Rightarrow> rstate option" where
  "re_search r s = map_option snd (search_from r [] s)"

definition re_test :: "rx \<Rightarrow> string \<Rightarrow> bool" where
  "re_test r s \<longleftrightarrow> re_match r s \<noteq> None"

text \<open>\<open>m.group(i)\<close>: \<open>None\<close> for a group that took no part in the match.\<close>

definition group :: "nat \<Rightarrow> rstate \<Rightarrow> string option" where
  "group i t = map_of (rx_groups t) i"

text \<open>\<open>p.findall(s)\<close> with one group, for patterns that never match the empty string.\<close>

fun findall_from :: "nat \<Rightarrow> rx \<Rightarrow> nat \<Rightarrow> string \<Rightarrow> string \<Rightarrow> string list" where
  "findall_from 0 r i b s = []"
| "findall_from (Suc n) r i b s = (case search_from r b s of
      None \<Rightarrow> []
    | Some (_, t) \<Rightarrow> (case group i t of None \<Rightarrow> [] | Some g \<Rightarrow> g) # findall_from n r i (rx_before t) (rx_rest t))"

definition findall :: "rx \<Rightarrow> nat \<Rightarrow> string \<Rightarrow> string list" where
  "findall r i s = findall_from (Suc (length s)) r i [] s"

text \<open>\<open>p.sub("", s)\<close>, again for patterns that never match the empty string.\<close>

fun delete_from :: "nat \<Rightarrow> rx \<Rightarrow> string \<Rightarrow> string \<Rightarrow> string" where
  "delete_from 0 r b s = s"
| "delete_from (Suc n) r b s = (case search_from r b s of
      None \<Rightarrow> s
    | Some (p, t) \<Rightarrow> take (length s - length (rx_rest p)) s @ delete_from n r (rx_before t) (rx_rest t))"

definition re_delete :: "rx \<Rightarrow> string \<Rightarrow> string" where
  "re_delete r s = delete_from (Suc (length s)) r [] s"

section \<open>What a match is\<close>

text \<open>
  Every state a pattern leaves the input in is reached by consuming a prefix of the rest.
\<close>

definition consumes :: "rstate \<Rightarrow> string \<Rightarrow> rstate \<Rightarrow> bool" where
  "consumes s w t \<longleftrightarrow> rx_rest s = w @ rx_rest t \<and> rx_before t = rev w @ rx_before s"

lemma consumes_refl: "consumes s [] s"
  by (simp add: consumes_def)

lemma consumes_trans: "consumes s v t \<Longrightarrow> consumes t w u \<Longrightarrow> consumes s (v @ w) u"
  by (simp add: consumes_def)

lemma star_states_induct:
  assumes "t \<in> set (star_states n m s)" "Q s"
    and step: "\<And>u v. Q u \<Longrightarrow> v \<in> set (m u) \<Longrightarrow> Q v"
  shows "Q t"
  using assms(1,2)
proof (induction n arbitrary: s)
  case (Suc n)
  then consider "t = s" | u where "u \<in> set (m s)" "t \<in> set (star_states n m u)" by auto
  then show ?case using Suc.IH Suc.prems(2) step by cases blast+
qed simp

lemma lazy_states_induct:
  assumes "t \<in> set (lazy_states n m s)" "Q s"
    and step: "\<And>u v. Q u \<Longrightarrow> v \<in> set (m u) \<Longrightarrow> Q v"
  shows "Q t"
  using assms(1,2)
proof (induction n arbitrary: s)
  case (Suc n)
  then consider "t = s" | u where "u \<in> set (m s)" "t \<in> set (lazy_states n m u)" by auto
  then show ?case using Suc.IH Suc.prems(2) step by cases blast+
qed simp

lemma rmatch_consumes: "t \<in> set (rmatch r s) \<Longrightarrow> \<exists>w. consumes s w t"
proof (induction r arbitrary: s t)
  case (One P)
  then show ?case
    by (auto simp: advance_def consumes_def split: if_splits list.splits)
next
  case (Cat r q)
  then show ?case by (fastforce intro: consumes_trans)
next
  case (Star r)
  show ?case
    using Star.prems unfolding rmatch.simps
  proof (rule star_states_induct)
    show "\<exists>w. consumes s w s" by (blast intro: consumes_refl)
  next
    fix u v assume "\<exists>w. consumes s w u" "v \<in> set (rmatch r u)"
    with Star.IH show "\<exists>w. consumes s w v" by (blast intro: consumes_trans)
  qed
next
  case (LazyStar r)
  show ?case
    using LazyStar.prems unfolding rmatch.simps
  proof (rule lazy_states_induct)
    show "\<exists>w. consumes s w s" by (blast intro: consumes_refl)
  next
    fix u v assume "\<exists>w. consumes s w u" "v \<in> set (rmatch r u)"
    with LazyStar.IH show "\<exists>w. consumes s w v" by (blast intro: consumes_trans)
  qed
next
  case (Group i r)
  then show ?case by (force simp: capture_def consumes_def)
qed (auto intro: consumes_refl split: if_splits)

lemma search_from_consumes:
  "search_from r b s = Some (p, t) \<Longrightarrow>
   (\<exists>v w. s = v @ w @ rx_rest t \<and> rx_before p = rev v @ b \<and> rx_rest p = w @ rx_rest t \<and>
      rx_before t = rev w @ rx_before p \<and> t \<in> set (rmatch r p) \<and> rx_groups p = [])"
proof (induction s arbitrary: b)
  case Nil
  let ?p = "\<lparr>rx_before = b, rx_rest = [], rx_groups = []\<rparr>"
  from Nil.prems obtain ts where "p = ?p" "rmatch r ?p = t # ts"
    by (auto simp: search_from.simps [of r b] Let_def split: list.splits)
  moreover from this have "t \<in> set (rmatch r p)" by simp
  moreover from this obtain w where "consumes p w t" using rmatch_consumes by blast
  ultimately show ?case by (intro exI [of _ "[]"] exI [of _ w]) (simp add: consumes_def)
next
  case (Cons c s)
  let ?p = "\<lparr>rx_before = b, rx_rest = c # s, rx_groups = []\<rparr>"
  show ?case
  proof (cases "rmatch r ?p")
    case Nil
    with Cons.prems have "search_from r (c # b) s = Some (p, t)"
      by (simp add: search_from.simps [of r b])
    from Cons.IH [OF this] obtain v w where "s = v @ w @ rx_rest t" "rx_before p = rev v @ c # b"
      "rx_rest p = w @ rx_rest t" "rx_before t = rev w @ rx_before p" "t \<in> set (rmatch r p)" "rx_groups p = []"
      by blast
    then show ?thesis by (intro exI [of _ "c # v"] exI [of _ w]) simp
  next
    case (Cons t' ts)
    with Cons.prems have pt: "p = ?p" "t = t'" by (simp_all add: search_from.simps [of r b])
    with Cons have "t \<in> set (rmatch r p)" by simp
    with rmatch_consumes obtain w where "consumes p w t" by blast
    with pt \<open>t \<in> set (rmatch r p)\<close> show ?thesis
      by (intro exI [of _ "[]"] exI [of _ w]) (simp add: consumes_def)
  qed
qed

text \<open>What a starred character class and a final group capture.\<close>

lemma consumes_advance: "u \<in> set (advance s) \<Longrightarrow> consumes s [hd (rx_rest s)] u \<and> rx_groups u = rx_groups s"
  by (cases "rx_rest s") (auto simp: advance_def consumes_def)

lemma rmatch_One: "t \<in> set (rmatch (One P) s) \<Longrightarrow> \<exists>c. P c \<and> consumes s [c] t \<and> rx_groups t = rx_groups s"
  by (auto dest: consumes_advance split: if_splits)

lemma rmatch_Star_One:
  assumes "t \<in> set (rmatch (Star (One P)) s)"
  shows "\<exists>w. consumes s w t \<and> (\<forall>c\<in>set w. P c) \<and> rx_groups t = rx_groups s"
  using assms unfolding rmatch.simps(5)
proof (rule star_states_induct)
  show "\<exists>w. consumes s w s \<and> (\<forall>c\<in>set w. P c) \<and> rx_groups s = rx_groups s"
    by (intro exI [of _ "[]"]) (simp add: consumes_refl)
next
  fix u v
  assume "\<exists>w. consumes s w u \<and> (\<forall>c\<in>set w. P c) \<and> rx_groups u = rx_groups s" "v \<in> set (rmatch (One P) u)"
  with rmatch_One obtain w c where "consumes s w u" "\<forall>c\<in>set w. P c" "rx_groups u = rx_groups s"
    "P c" "consumes u [c] v" "rx_groups v = rx_groups u" by metis
  then show "\<exists>w. consumes s w v \<and> (\<forall>c\<in>set w. P c) \<and> rx_groups v = rx_groups s"
    by (intro exI [of _ "w @ [c]"]) (auto intro: consumes_trans)
qed

lemma group_capture: "consumes s w t \<Longrightarrow> group i (capture i s t) = Some w"
  by (simp add: group_def capture_def consumes_def dict_simps)

lemma Seqs_last_group:
  "t \<in> set (rmatch (Seqs (rs @ [Group i q])) s) \<Longrightarrow>
   \<exists>u v w. v \<in> set (rmatch q u) \<and> consumes u w v \<and> group i t = Some w"
proof (induction rs arbitrary: s)
  case Nil
  then obtain v where "v \<in> set (rmatch q s)" "t = capture i s v" by auto
  then show ?case using rmatch_consumes group_capture by metis
qed auto

lemma re_search_state: "re_search r s = Some t \<Longrightarrow> \<exists>p. t \<in> set (rmatch r p)"
  by (auto simp: re_search_def dest: search_from_consumes)

end
