(* ===== verification/CountChecks.thy ===== *)
theory CountChecks
  imports PyPath PyRegex FloatOrder "HOL-Library.List_Lexorder" "HOL-Library.Product_Lexorder"
    "HOL-Library.Char_ord" "HOL-Library.Multiset"
begin

text \<open>
  \<open>scripts/count_sanitizer_checks.py\<close>: count the sanitizer calls in a file of LLVM IR and
  print the summary that the other scripts read back. The model is the whole script: the
  pattern \<open>CALL_RE\<close>, the tables of prefixes, the counting loop and the printed lines.
\<close>

section \<open>Tables and pattern\<close>

fun CORE_PREFIXES :: "string \<Rightarrow> string list" where
  "CORE_PREFIXES kind =
     (if kind = ''asan'' then
        [''__asan_report_load'', ''__asan_report_store'', ''__asan_load'', ''__asan_store'']
      else if kind = ''ubsan'' then
        [''__ubsan_handle_type_mismatch_v1'', ''__ubsan_handle_pointer_overflow'',
         ''__ubsan_handle_out_of_bounds'', ''__ubsan_handle_shift_out_of_bounds'']
      else if kind = ''msan'' then
        [''__msan_warning'', ''__msan_param_'', ''__msan_retval_'', ''__msan_va_arg_'']
      else [])"

definition name_start :: "char \<Rightarrow> bool" where
  "name_start c \<longleftrightarrow> is_ascii_alpha c \<or> c = CHR ''_''"

definition name_char :: "char \<Rightarrow> bool" where
  "name_char c \<longleftrightarrow> is_ascii_alpha c \<or> is_digit c \<or> c = CHR ''_'' \<or> c = CHR ''.'' \<or> c = CHR ''$''"

text \<open>\<^verbatim>\<open>\b(?:call|invoke)\b[^@]*@([A-Za-z_][A-Za-z0-9_.$]*)\<close>\<close>

definition CALL_RE :: rx where
  "CALL_RE = Seqs [WordB, Alt (Lit ''call'') (Lit ''invoke''), WordB,
     Star (One (\<lambda>c. c \<noteq> CHR ''@'')), Chr (CHR ''@''),
     Group 1 (Cat (One name_start) (Star (One name_char)))]"

definition sanitizer_prefix :: "string \<Rightarrow> string" where
  "sanitizer_prefix kind = (let k = lower kind in
     if k \<in> {''asan'', ''address''} then ''__asan_''
     else if k \<in> {''ubsan'', ''undefined''} then ''__ubsan_''
     else if k \<in> {''msan'', ''memory''} then ''__msan_''
     else ''__'')"

definition sanitizer_label :: "string \<Rightarrow> string" where
  "sanitizer_label kind = (let k = lower kind in
     if k \<in> {''asan'', ''address''} then ''ASan''
     else if k \<in> {''ubsan'', ''undefined''} then ''UBSan''
     else if k \<in> {''msan'', ''memory''} then ''MemSan''
     else k)"

definition normalize_kind :: "string \<Rightarrow> string" where
  "normalize_kind kind = (let k = lower kind in
     if k = ''address'' then ''asan''
     else if k = ''undefined'' then ''ubsan''
     else if k = ''memory'' then ''msan''
     else k)"

section \<open>Counting\<close>

type_synonym counter = "(string, int) dict"

text \<open>The name counted for a line: the first call on it, if it has the prefix.\<close>

definition called_name :: "string \<Rightarrow> string option" where
  "called_name line = (case re_search CALL_RE line of None \<Rightarrow> None | Some t \<Rightarrow> group 1 t)"

definition counted_name :: "string \<Rightarrow> string \<Rightarrow> string option" where
  "counted_name prefix line = (case called_name line of
      None \<Rightarrow> None
    | Some name \<Rightarrow> if startswith name prefix then Some name else None)"

definition count_line :: "string \<Rightarrow> string \<Rightarrow> counter \<Rightarrow> counter" where
  "count_line prefix line counts = (case counted_name prefix line of
      None \<Rightarrow> counts
    | Some name \<Rightarrow> dset name (dget counts name 0 + 1) counts)"

definition count_checks :: "string \<Rightarrow> string \<Rightarrow> counter" where
  "count_checks prefix text = fold (count_line prefix) (text_lines text) []"

definition total_checks :: "counter \<Rightarrow> int" where
  "total_checks counts = sum_list (dvalues counts)"

definition prefix_checks :: "string list \<Rightarrow> counter \<Rightarrow> int" where
  "prefix_checks prefixes counts =
     (\<Sum>(name, cnt)\<leftarrow>counts. if startswith_any name prefixes then cnt else 0)"

section \<open>The printed summary\<close>

definition ranking :: "counter \<Rightarrow> (string \<times> int) list" where
  "ranking counts = sort_key (\<lambda>(name, cnt). (- cnt, name)) counts"

definition check_ratio :: "int \<Rightarrow> int \<Rightarrow> pyfloat res" where
  "check_ratio cnt tot =
     (if tot \<noteq> 0 then bindE (int_truediv cnt tot) (\<lambda>q. Inr (q * hundred)) else Inr (Fin 0))"

definition count_entry :: "int \<Rightarrow> string \<times> int \<Rightarrow> string list res" where
  "count_entry tot = (\<lambda>(name, cnt). bindE (check_ratio cnt tot) (\<lambda>ratio.
     Inr [''Check Type: '' @ name, ''Count: '' @ show_int cnt, ''Ratio: '' @ fmt_fixed 2 ratio @ ''%'']))"

definition count_report :: "string \<Rightarrow> string \<Rightarrow> counter \<Rightarrow> string list res" where
  "count_report path kind counts =
     (let tot = total_checks counts; core = prefix_checks (CORE_PREFIXES kind) counts in
      bindE (mapE (count_entry tot) (ranking counts)) (\<lambda>entries.
        Inr ([''DESAN Sanitizer Check Count Summary'', ''Input: '' @ path,
              ''Total Checks: '' @ show_int tot, ''Core Checks: '' @ show_int core,
              ''Sanitizer: '' @ sanitizer_label kind] @ concat entries)))"

definition count_main :: "files \<Rightarrow> string \<Rightarrow> string \<Rightarrow> string list res" where
  "count_main fs sanitizer ir =
     (let kind = normalize_kind sanitizer in
      bindE (read_text fs ir) (\<lambda>text.
        count_report (path_str ir) kind (count_checks (sanitizer_prefix kind) text)))"

section \<open>Names and counters\<close>

lemma called_name_shape:
  assumes "called_name line = Some n"
  shows "n \<noteq> [] \<and> (\<forall>c\<in>set n. name_char c)"
proof -
  from assms obtain t where t: "re_search CALL_RE line = Some t" "group 1 t = Some n"
    by (auto simp: called_name_def split: option.splits)
  have re: "CALL_RE = Seqs ([WordB, Alt (Lit ''call'') (Lit ''invoke''), WordB,
      Star (One (\<lambda>c. c \<noteq> CHR ''@'')), Chr (CHR ''@'')] @ [Group 1 (Cat (One name_start) (Star (One name_char)))])"
    by (simp add: CALL_RE_def)
  from t(1) obtain p where "t \<in> set (rmatch CALL_RE p)" by (blast dest: re_search_state)
  with t(2) obtain u v where v: "v \<in> set (rmatch (Cat (One name_start) (Star (One name_char))) u)"
    and n: "consumes u n v"
    unfolding re by (fastforce dest: Seqs_last_group simp del: append_Cons append_Nil Seqs.simps)
  from v obtain m where "m \<in> set (rmatch (One name_start) u)" "v \<in> set (rmatch (Star (One name_char)) m)"
    by (auto simp del: rmatch.simps(2,5))
  then obtain c w where "name_start c" "consumes u [c] m" "consumes m w v" "\<forall>c\<in>set w. name_char c"
    using rmatch_One rmatch_Star_One by metis
  moreover from this n have "n = c # w" by (auto simp: consumes_def)
  ultimately show ?thesis by (auto simp: name_start_def name_char_def)
qed

lemma name_char_plain: "name_char c \<Longrightarrow> \<not> is_space c \<and> c \<noteq> NL \<and> c \<noteq> CR"
  by (auto simp: name_char_def is_ascii_alpha_def is_digit_def is_space_def Let_def)

text \<open>What the counting loop keeps: distinct, well-formed names and positive counts.\<close>

definition counter_ok :: "counter \<Rightarrow> bool" where
  "counter_ok counts \<longleftrightarrow> distinct (dkeys counts) \<and>
     (\<forall>(name, cnt)\<in>set counts. name \<noteq> [] \<and> (\<forall>c\<in>set name. name_char c) \<and> 1 \<le> cnt)"

lemma counter_ok_empty: "counter_ok []"
  by (simp add: counter_ok_def)

lemma update_elem: "(a, b) \<in> set (dset k v d) \<Longrightarrow> (a, b) \<in> set d \<or> (a = k \<and> b = v)"
  by (induction d) (auto split: if_splits)

lemma counter_ok_line:
  assumes "counter_ok counts"
  shows "counter_ok (count_line prefix line counts)"
proof (cases "counted_name prefix line")
  case (Some n)
  then have n: "n \<noteq> [] \<and> (\<forall>c\<in>set n. name_char c)"
    by (auto simp: counted_name_def dest: called_name_shape split: option.splits if_splits)
  have "0 \<le> dget counts n 0"
    using assms by (auto simp: dget_def counter_ok_def dest!: map_of_SomeD split: option.splits)
  with n assms show ?thesis
    by (auto simp: count_line_def Some counter_ok_def dest!: update_elem)
qed (simp add: count_line_def assms)

lemma counter_ok_count: "counter_ok (count_checks prefix text)"
proof -
  have "counter_ok (fold (count_line prefix) ls counts)" if "counter_ok counts" for ls counts
    using that by (induction ls arbitrary: counts) (auto intro: counter_ok_line)
  then show ?thesis by (simp add: count_checks_def counter_ok_empty)
qed

text \<open>The counting loop is an aggregation with amount 1 per counted line.\<close>

interpretation check_counts: keyed_sum "\<lambda>line counts. Inr (count_line prefix line counts)" map_of
  "counted_name prefix" "\<lambda>_ v. (case v of None \<Rightarrow> 0 | Some n \<Rightarrow> n) + 1" "\<lambda>_. 1" for prefix
  by unfold_locales (auto simp: count_line_def dget_def dict_simps split: option.splits)

lemma count_checks_fold: "foldE (\<lambda>line counts. Inr (count_line prefix line counts)) (text_lines text) [] =
  Inr (count_checks prefix text)"
  by (simp add: count_checks_def foldE_total)

lemma count_checks_occurrences:
  "dget (count_checks prefix text) name 0 =
   int (length (filter (\<lambda>line. counted_name prefix line = Some name) (text_lines text)))"
  using check_counts.loop_sum_default [OF count_checks_fold, where k = name]
  by (simp add: dget_def sum_list_triv)

lemma total_checks_line:
  assumes "counter_ok counts"
  shows "total_checks (count_line prefix line counts) =
    total_checks counts + (if counted_name prefix line = None then 0 else 1)"
proof (cases "counted_name prefix line")
  case (Some n)
  have "distinct (dkeys counts)" using assms by (simp add: counter_ok_def)
  from sum_list_dset [OF this, of "\<lambda>v. v" n "dget counts n 0 + 1"]
  show ?thesis by (auto simp: count_line_def Some total_checks_def dget_def split: option.splits)
qed (simp add: count_line_def)

lemma total_checks_lines:
  "total_checks (count_checks prefix text) =
   int (length (filter (\<lambda>line. counted_name prefix line \<noteq> None) (text_lines text)))"
proof -
  have "total_checks (fold (count_line prefix) ls counts) =
      total_checks counts + int (length (filter (\<lambda>line. counted_name prefix line \<noteq> None) ls))"
    if "counter_ok counts" for ls counts
    using that
    by (induction ls arbitrary: counts) (simp_all add: total_checks_line counter_ok_line)
  from this [OF counter_ok_empty] show ?thesis by (simp add: count_checks_def total_checks_def)
qed

lemma prefix_checks_bounds:
  assumes "counter_ok counts"
  shows "0 \<le> prefix_checks ps counts \<and> prefix_checks ps counts \<le> total_checks counts"
proof -
  have "\<forall>(name, cnt)\<in>set counts. 0 \<le> cnt" using assms by (force simp: counter_ok_def)
  then show ?thesis
    by (induction counts) (auto simp: prefix_checks_def total_checks_def split: if_splits)
qed

section \<open>The summary is printed, with ratios between 0 and 100\<close>

lemma count_le_total:
  assumes "counter_ok counts" "(name, cnt) \<in> set counts"
  shows "1 \<le> cnt \<and> cnt \<le> total_checks counts"
proof -
  have h: "1 \<le> cnt" "cnt \<in> set (dvalues counts)" and "\<forall>n\<in>set (dvalues counts). 0 \<le> n"
    using assms by (force simp: counter_ok_def)+
  then have "cnt \<le> sum_list (dvalues counts)" by (intro member_le_sum_list) blast+
  with h show ?thesis by (simp add: total_checks_def)
qed

lemma percentage_bounds:
  assumes "0 \<le> a" "a \<le> b" "0 < b"
  obtains q where "int_truediv a b = Inr q" "is_finite q" "Fin 0 \<le> q * hundred" "q * hundred \<le> hundred"
    "is_finite (q * hundred)"
proof -
  define x :: rat where "x = of_int a / of_int b"
  have x: "0 \<le> x" "x \<le> 1" using assms by (simp_all add: x_def)
  define q where "q = of_exact False x"
  from x have f: "is_finite q" using of_exact_bounded(1) [of x 1 False] by (simp add: q_def)
  moreover have "int_truediv a b = Inr q"
    using assms f by (simp add: int_truediv_def q_def x_def Let_def)
  moreover have lo: "Fin 0 \<le> q" using x by (simp add: q_def zero_le_of_exact)
  moreover have hi: "q \<le> Fin 1" using x rnd_one by (simp add: q_def of_exact_le_Fin)
  moreover have "Fin 0 \<le> q * hundred" using times_hundred_mono [OF lo] by (simp add: zero_times_hundred)
  moreover have "q * hundred \<le> hundred" using times_hundred_mono [OF hi] by (simp add: one_times_hundred)
  moreover have "is_finite (q * hundred)"
    using calculation(5,6) by (cases "q * hundred") (auto simp: less_eq_pyfloat_def)
  ultimately show ?thesis by (intro that [of q])
qed

lemma count_report_total:
  assumes "counter_ok counts"
  shows "\<exists>entries. mapE (count_entry (total_checks counts)) (ranking counts) = Inr entries"
proof -
  have "\<exists>e. count_entry (total_checks counts) nc = Inr e" if "nc \<in> set counts" for nc
  proof -
    obtain n c where nc: "nc = (n, c)" by force
    with count_le_total [OF assms] that have b: "1 \<le> c" "c \<le> total_checks counts" by auto
    then obtain q where "int_truediv c (total_checks counts) = Inr q"
      using percentage_bounds [of c "total_checks counts"] by auto
    then show ?thesis by (auto simp: count_entry_def nc check_ratio_def)
  qed
  then show ?thesis
    by (intro exI [of _ "map (\<lambda>nc. (SOME e. count_entry (total_checks counts) nc = Inr e)) (ranking counts)"]
        mapE_total) (auto simp: ranking_def intro: someI_ex)
qed

section \<open>The ranking\<close>

lemma set_ranking [simp]: "set (ranking counts) = set counts"
  by (simp add: ranking_def)

lemma sum_list_ranking: "sum_list (map f (ranking counts)) = (sum_list (map f counts) :: int)"
proof -
  have "mset (map f (ranking counts)) = mset (map f counts)" by (simp add: ranking_def)
  then show ?thesis by (metis sum_mset_sum_list)
qed

lemma distinct_ranking: "distinct (dkeys counts) \<Longrightarrow> distinct (dkeys (ranking counts))"
proof -
  have "mset (dkeys (ranking counts)) = mset (dkeys counts)" by (simp add: ranking_def)
  then show "distinct (dkeys counts) \<Longrightarrow> ?thesis" by (metis distinct_count_atmost_1 set_mset_mset)
qed

lemma total_checks_ranking: "total_checks (ranking counts) = total_checks counts"
  by (simp add: total_checks_def sum_list_ranking)

lemma prefix_checks_ranking: "prefix_checks ps (ranking counts) = prefix_checks ps counts"
  by (simp add: prefix_checks_def sum_list_ranking)

lemma ranking_sorted:
  "sorted (map (\<lambda>(name, cnt). (- cnt, name)) (ranking counts))"
  by (simp add: ranking_def)

lemma counter_ok_ranking: "counter_ok counts \<Longrightarrow> counter_ok (ranking counts)"
  by (auto simp: counter_ok_def distinct_ranking)

lemma check_ratio_bounds:
  assumes "counter_ok counts" "(name, cnt) \<in> set counts"
  shows "\<exists>q. check_ratio cnt (total_checks counts) = Inr q \<and> Fin 0 \<le> q \<and> q \<le> hundred"
proof -
  have b: "1 \<le> cnt" "cnt \<le> total_checks counts" using count_le_total [OF assms] by auto
  then obtain q where "int_truediv cnt (total_checks counts) = Inr q"
    "Fin 0 \<le> q * hundred" "q * hundred \<le> hundred"
    using percentage_bounds [of cnt "total_checks counts"] by auto
  with b show ?thesis by (auto simp: check_ratio_def)
qed

section \<open>Properties\<close>

text \<open>
  C1: the counter of the script counts, for every name, the lines of the file whose first
  call goes to that name (and has the sanitizer's prefix); the total is the number of
  counted lines, and the checks under any list of prefixes lie between 0 and the total.
\<close>

theorem count_checks_correct:
  "dget (count_checks prefix text) name 0 =
     int (length (filter (\<lambda>line. counted_name prefix line = Some name) (text_lines text))) \<and>
   total_checks (count_checks prefix text) =
     int (length (filter (\<lambda>line. counted_name prefix line \<noteq> None) (text_lines text))) \<and>
   0 \<le> prefix_checks prefixes (count_checks prefix text) \<and>
   prefix_checks prefixes (count_checks prefix text) \<le> total_checks (count_checks prefix text)"
  using count_checks_occurrences total_checks_lines prefix_checks_bounds [OF counter_ok_count] by blast



end
