(* ===== verification/PassLog.thy ===== *)
theory PassLog
  imports CountChecks
begin

text \<open>
  The readers of check logs. \<open>parse_pass_log\<close> of \<open>scripts/spec_asan_summary.py\<close> and of
  \<open>scripts/opensource_summary.py\<close> read the log of the DESAN pass: the first total, the counts
  of the core check types and the number of removed checks. They differ in one thing: the
  first catches the \<open>ValueError\<close> of a malformed number, the second lets it escape.
  \<open>parse_check_log\<close> of \<open>scripts/spec_asanmm_summary.py\<close> and of
  \<open>scripts/opensource_asanmm_summary.py\<close> (the same text) reads the summary printed by
  \<open>count_sanitizer_checks.py\<close>: the last total and the count of every check type.

  Each loop is a fold of a step over the stripped lines; the state is a record of the
  loop's local variables.
\<close>

section \<open>The number at the end of a line\<close>

text \<open>\<open>int(line.rsplit(" ", 1)[1])\<close>\<close>

definition log_int :: "string \<Rightarrow> int res" where
  "log_int line = bindE (py_nth (rsplit1 (CHR '' '') line) 1) py_int"

definition log_int_or_zero :: "string \<Rightarrow> int res" where
  "log_int_or_zero line = catch_ValueError (log_int line) (Inr 0)"

text \<open>\<open>line.split(":", 1)[1].strip()\<close> of a line that has a colon.\<close>

definition check_type_of :: "string \<Rightarrow> string res" where
  "check_type_of line = bindE (py_nth (split1 (CHR '':'') line) 1) (\<lambda>s. Inr (strip s))"

section \<open>parse_pass_log\<close>

record pass_state =
  ps_total :: int
  ps_core :: int
  ps_removed :: int
  ps_type :: "string option"
  ps_saw_total :: bool

definition pass_init :: pass_state where
  "pass_init = \<lparr>ps_total = 0, ps_core = 0, ps_removed = 0, ps_type = None, ps_saw_total = False\<rparr>"

text \<open>One line; the reader of numbers is the argument in which the two scripts differ.\<close>

definition pass_log_step ::
  "(string \<Rightarrow> int res) \<Rightarrow> string list \<Rightarrow> string \<Rightarrow> pass_state \<Rightarrow> pass_state res" where
  "pass_log_step num core_prefixes raw st = (let line = strip raw in
     if startswith line ''Total Checks:'' \<and> \<not> ps_saw_total st then
       bindE (num line) (\<lambda>n. Inr (st\<lparr>ps_total := n, ps_saw_total := True\<rparr>))
     else if startswith line ''Check Type:'' then
       bindE (check_type_of line) (\<lambda>t. Inr (st\<lparr>ps_type := Some t\<rparr>))
     else if startswith line ''Count:'' \<and> ps_type st \<noteq> None \<and> ps_type st \<noteq> Some [] then
       bindE (num line) (\<lambda>cnt.
         Inr (st\<lparr>ps_core := ps_core st +
                (if startswith_any (the (ps_type st)) core_prefixes then cnt else 0),
              ps_type := None\<rparr>))
     else if startswith line ''DESAN Removed Redundant Checks:''
        \<or> startswith line ''DESAN Removed Redundant READ Checks:'' then
       bindE (num line) (\<lambda>n. Inr (st\<lparr>ps_removed := n\<rparr>))
     else Inr st)"

definition pass_result :: "pass_state \<Rightarrow> int \<times> int \<times> int" where
  "pass_result st = (ps_total st, ps_core st, ps_removed st)"

definition parse_pass_log_spec :: "files \<Rightarrow> string \<Rightarrow> string list \<Rightarrow> (int \<times> int \<times> int) res" where
  "parse_pass_log_spec fs path core_prefixes =
     (if \<not> path_exists fs path then Inr (0, 0, 0)
      else bindE (read_text fs path) (\<lambda>text.
        bindE (foldE (pass_log_step log_int_or_zero core_prefixes) (text_lines text) pass_init)
          (\<lambda>st. Inr (pass_result st))))"

definition parse_pass_log_oss :: "files \<Rightarrow> string \<Rightarrow> string list \<Rightarrow> (int \<times> int \<times> int) res" where
  "parse_pass_log_oss fs path core_prefixes =
     (if \<not> path_exists fs path then Inr (0, 0, 0)
      else bindE (read_text fs path) (\<lambda>text.
        bindE (foldE (pass_log_step log_int core_prefixes) (text_lines text) pass_init)
          (\<lambda>st. Inr (pass_result st))))"

section \<open>parse_check_log\<close>

record check_state =
  cs_total :: int
  cs_counts :: counter
  cs_type :: "string option"

definition check_init :: check_state where
  "check_init = \<lparr>cs_total = 0, cs_counts = [], cs_type = None\<rparr>"

definition check_log_step :: "string \<Rightarrow> check_state \<Rightarrow> check_state res" where
  "check_log_step raw st = (let line = strip raw in
     if startswith line ''Total Checks:'' then
       bindE (log_int_or_zero line) (\<lambda>n. Inr (st\<lparr>cs_total := n\<rparr>))
     else if startswith line ''Check Type:'' then
       bindE (check_type_of line) (\<lambda>t. Inr (st\<lparr>cs_type := Some t\<rparr>))
     else if startswith line ''Count:'' \<and> cs_type st \<noteq> None \<and> cs_type st \<noteq> Some [] then
       (let t = the (cs_type st) in
        bindE (catch_ValueError
            (bindE (log_int line) (\<lambda>n. Inr (dset t (dget (cs_counts st) t 0 + n) (cs_counts st))))
            (Inr (cs_counts st)))
          (\<lambda>counts. Inr (st\<lparr>cs_counts := counts, cs_type := None\<rparr>)))
     else Inr st)"

definition check_result :: "check_state \<Rightarrow> int \<times> counter" where
  "check_result st =
     (if cs_total st = 0 then sum_list (dvalues (cs_counts st)) else cs_total st, cs_counts st)"

definition parse_check_log :: "files \<Rightarrow> string \<Rightarrow> (int \<times> counter) res" where
  "parse_check_log fs path =
     (if \<not> path_exists fs path then Inr (0, [])
      else bindE (read_text fs path) (\<lambda>text.
        bindE (foldE check_log_step (text_lines text) check_init) (\<lambda>st. Inr (check_result st))))"

definition sum_prefix :: "counter \<Rightarrow> string list \<Rightarrow> int" where
  "sum_prefix counts prefixes =
     (\<Sum>(name, cnt)\<leftarrow>counts. if startswith_any name prefixes then cnt else 0)"

section \<open>Lemmas on the readers\<close>

lemma log_int_last: "CHR '' '' \<notin> set w \<Longrightarrow> log_int (p @ CHR '' '' # w) = py_int w"
  by (simp add: log_int_def rsplit1_last py_nth_def)

lemma log_int_errors:
  "log_int line = Inl e \<Longrightarrow> e = ValueError \<or> (e = IndexError \<and> CHR '' '' \<notin> set line)"
  by (auto simp: log_int_def py_nth_def length_rsplit1 res_simps dest: py_int_errors split: if_splits)

lemma log_int_or_zero_errors:
  "log_int_or_zero line = Inl e \<Longrightarrow> e = IndexError \<and> CHR '' '' \<notin> set line"
  by (cases "log_int line = Inl ValueError")
    (auto simp: log_int_or_zero_def catch_ValueError_def dest: log_int_errors)

lemma log_int_or_zero_Inr: "log_int line = Inr n \<Longrightarrow> log_int_or_zero line = Inr n"
  by (simp add: log_int_or_zero_def)

lemma startswith_mem: "startswith s p \<Longrightarrow> c \<in> set p \<Longrightarrow> c \<in> set s"
  by (auto simp: startswith_iff)

lemma check_type_of_defined: "startswith line ''Check Type:'' \<Longrightarrow> \<exists>t. check_type_of line = Inr t"
  by (auto simp: check_type_of_def py_nth_def split1_def dest: startswith_mem [where c = "CHR '':''"])

text \<open>The only line on which the guarded reader raises is a count with no space before the number.\<close>

definition unspaced_count :: "string \<Rightarrow> bool" where
  "unspaced_count raw \<longleftrightarrow> startswith (strip raw) ''Count:'' \<and> CHR '' '' \<notin> set (strip raw)"

lemma pass_log_step_errors:
  assumes "pass_log_step log_int_or_zero cores raw st = Inl e"
  shows "e = IndexError \<and> unspaced_count raw"
proof -
  have sp: "CHR '' '' \<in> set line" if "startswith line p" "CHR '' '' \<in> set p" for line p
    using that by (rule startswith_mem)
  from assms show ?thesis
    by (auto simp: pass_log_step_def Let_def res_simps unspaced_count_def
        dest!: log_int_or_zero_errors dest: check_type_of_defined sp split: if_splits)
qed

lemma pass_log_fold_returns:
  assumes "\<And>raw. raw \<in> set ls \<Longrightarrow> \<not> unspaced_count raw"
  shows "\<exists>st'. foldE (pass_log_step log_int_or_zero cores) ls st = Inr st'"
proof (cases "foldE (pass_log_step log_int_or_zero cores) ls st")
  case (Inl e)
  then show ?thesis using assms foldE_Inl_cases pass_log_step_errors by metis
qed auto

lemma pass_log_step_oss_spec:
  "pass_log_step log_int cores raw st = Inr st' \<Longrightarrow> pass_log_step log_int_or_zero cores raw st = Inr st'"
  by (auto simp: pass_log_step_def Let_def res_simps log_int_or_zero_Inr split: if_splits)

lemma pass_log_fold_oss_spec:
  "foldE (pass_log_step log_int cores) ls st = Inr st' \<Longrightarrow>
   foldE (pass_log_step log_int_or_zero cores) ls st = Inr st'"
  by (induction ls arbitrary: st) (auto simp: res_simps dest: pass_log_step_oss_spec)

section \<open>Reading the printed summary back\<close>

text \<open>Text that stays on one line.\<close>

definition one_line :: "string \<Rightarrow> bool" where
  "one_line s \<longleftrightarrow> CR \<notin> set s \<and> NL \<notin> set s"

lemma one_line_simps [simp]:
  "one_line []" "one_line (c # s) \<longleftrightarrow> c \<noteq> CR \<and> c \<noteq> NL \<and> one_line s"
  "one_line (s @ t) \<longleftrightarrow> one_line s \<and> one_line t"
  by (auto simp: one_line_def)

lemma one_line_digits: "(\<And>c. c \<in> set s \<Longrightarrow> is_digit c) \<Longrightarrow> one_line s"
proof -
  have "\<not> is_digit CR" "\<not> is_digit NL" by (simp_all add: is_digit_def)
  then show "(\<And>c. c \<in> set s \<Longrightarrow> is_digit c) \<Longrightarrow> one_line s" by (auto simp: one_line_def)
qed

lemma one_line_show_int [simp]: "one_line (show_int i)"
  using show_int_chars [of NL i] show_int_chars [of CR i] by (auto simp: one_line_def is_digit_def)

lemma one_line_lower: "one_line s \<Longrightarrow> one_line (lower s)"
proof -
  have "lower_char c = NL \<Longrightarrow> c = NL" "lower_char c = CR \<Longrightarrow> c = CR" for c
    by (auto simp: lower_char_def Let_def split: if_splits dest!: arg_cong [of _ _ "of_char :: char \<Rightarrow> nat"])
  then show "one_line s \<Longrightarrow> one_line (lower s)" by (auto simp: one_line_def lower_def) metis+
qed

lemma one_line_fixed: "one_line (fmt_fixed (Suc d) x)"
proof -
  have d: "one_line (show_digits n)" if "0 \<le> n" for n
    using that by (intro one_line_digits) (rule show_digits_digits)
  have "one_line (fixed_digits k n)" if "0 \<le> n" for k n
  proof -
    have "one_line (replicate j (CHR ''0'') @ show_digits n)" for j
      using d [OF that] by (auto simp: one_line_def)
    then have "one_line (take i (replicate j (CHR ''0'') @ show_digits n))"
      "one_line (drop i (replicate j (CHR ''0'') @ show_digits n))" for i j
      unfolding one_line_def by (blast dest: in_set_takeD in_set_dropD)+
    then show ?thesis by (simp add: fixed_digits_def Let_def)
  qed
  moreover have "0 \<le> rhe (\<bar>fval x\<bar> * 10 ^ Suc d)" by (rule rhe_nonneg) simp
  ultimately have "one_line (fixed_digits (Suc d) (rhe (\<bar>fval x\<bar> * 10 ^ Suc d)))" by blast
  then show ?thesis unfolding fmt_fixed_def by (cases x) (simp_all del: power_Suc)
qed

text \<open>A line that starts with another letter is skipped by both readers.\<close>

lemma strip_keeps_hd: "\<not> is_space c \<Longrightarrow> \<exists>t. strip (c # s) = c # t"
proof -
  assume c: "\<not> is_space c"
  have "dropWhile is_space (rev s @ [c]) = dropWhile is_space (rev s) @ [c]"
    using c by (induction s rule: rev_induct) auto
  then show ?thesis using c by (simp add: strip_def rstrip_def lstrip_def)
qed

lemma check_log_skip:
  assumes "\<not> is_space c" "c \<noteq> CHR ''T''" "c \<noteq> CHR ''C''"
  shows "check_log_step (c # s) st = Inr st"
  using strip_keeps_hd [OF assms(1), of s] assms by (auto simp: check_log_step_def str_simps)

lemma pass_log_skip:
  assumes "\<not> is_space c" "c \<noteq> CHR ''T''" "c \<noteq> CHR ''C''" "c \<noteq> CHR ''D''"
  shows "pass_log_step num cores (c # s) st = Inr st"
  using strip_keeps_hd [OF assms(1), of s] assms by (auto simp: pass_log_step_def str_simps)

text \<open>The lines the readers do use.\<close>

lemma show_int_line: "CHR '' '' \<notin> set (show_int i)"
  by (auto dest!: show_int_chars simp: is_digit_def)

lemma trimmed_show_int: "p \<noteq> [] \<Longrightarrow> \<not> is_space (hd p) \<Longrightarrow> trimmed (p @ show_int i)"
proof -
  have "is_digit (last (show_int i)) \<or> last (show_int i) = CHR ''-''"
    using show_int_chars [of "last (show_int i)" i] by simp
  then have "\<not> is_space (last (show_int i))"
    using is_digit_not_space by (auto simp: is_space_def)
  then show "p \<noteq> [] \<Longrightarrow> \<not> is_space (hd p) \<Longrightarrow> ?thesis" by (simp add: trimmed_def)
qed

lemma strip_total: "strip (''Total Checks: '' @ show_int i @ [NL]) = ''Total Checks: '' @ show_int i"
  using strip_line [OF trimmed_show_int [of "''Total Checks: ''" i]] by (simp add: is_space_def)

lemma strip_count: "strip (''Count: '' @ show_int i @ [NL]) = ''Count: '' @ show_int i"
  using strip_line [OF trimmed_show_int [of "''Count: ''" i]] by (simp add: is_space_def)

lemma log_int_total: "log_int (''Total Checks: '' @ show_int i) = Inr i"
  using log_int_last [of "show_int i" "''Total Checks:''"] show_int_line by simp

lemma log_int_count: "log_int (''Count: '' @ show_int i) = Inr i"
  using log_int_last [of "show_int i" "''Count:''"] show_int_line by simp

definition name_ok :: "string \<Rightarrow> bool" where
  "name_ok n \<longleftrightarrow> n \<noteq> [] \<and> (\<forall>c\<in>set n. name_char c)"

lemma name_ok_facts:
  assumes "name_ok n"
  shows "one_line n" "strip (''Check Type: '' @ n @ [NL]) = ''Check Type: '' @ n"
    "check_type_of (''Check Type: '' @ n) = Inr n"
proof -
  have h: "n \<noteq> []" "\<not> is_space (hd n)" "\<not> is_space (last n)"
    using assms name_char_plain by (auto simp: name_ok_def)
  show "one_line n" using assms name_char_plain by (auto simp: name_ok_def one_line_def)
  show "strip (''Check Type: '' @ n @ [NL]) = ''Check Type: '' @ n"
    using strip_line [of "''Check Type: '' @ n"] h by (simp add: trimmed_def is_space_def)
  have "strip (CHR '' '' # n) = strip n"
    by (simp add: strip_def lstrip_def is_space_def)
  also have "\<dots> = n" using h by (simp add: strip_trimmed trimmed_def)
  finally have "strip (CHR '' '' # n) = n" .
  then show "check_type_of (''Check Type: '' @ n) = Inr n"
    using split1_first [of "CHR '':''" "''Check Type''" "CHR '' '' # n"]
    by (simp add: check_type_of_def py_nth_def)
qed

lemma check_log_total:
  "check_log_step (''Total Checks: '' @ show_int i @ [NL]) st = Inr (st\<lparr>cs_total := i\<rparr>)"
  by (simp only: check_log_step_def strip_total Let_def log_int_or_zero_Inr [OF log_int_total])
    (simp add: str_simps)

lemma check_log_entry:
  assumes "name_ok n"
  shows "foldE check_log_step [''Check Type: '' @ n @ [NL], ''Count: '' @ show_int i @ [NL], ''Ratio: '' @ r] st =
    Inr (st\<lparr>cs_counts := dset n (dget (cs_counts st) n 0 + i) (cs_counts st), cs_type := None\<rparr>)"
proof -
  have 1: "check_log_step (''Check Type: '' @ n @ [NL]) st = Inr (st\<lparr>cs_type := Some n\<rparr>)"
    by (simp only: check_log_step_def name_ok_facts [OF assms] Let_def) (simp add: str_simps)
  have 2: "check_log_step (''Count: '' @ show_int i @ [NL]) (st\<lparr>cs_type := Some n\<rparr>) =
      Inr (st\<lparr>cs_counts := dset n (dget (cs_counts st) n 0 + i) (cs_counts st), cs_type := None\<rparr>)"
    using assms
    by (simp only: check_log_step_def strip_count log_int_count Let_def) (simp add: str_simps name_ok_def)
  have 3: "check_log_step (''Ratio: '' @ r) st' = Inr st'" for st'
    using check_log_skip [of "CHR ''R''" "''atio: '' @ r"] by (simp add: is_space_def)
  show ?thesis by (simp only: foldE.simps 1 2 3 bindE.simps)
qed

lemma pass_log_total:
  "pass_log_step log_int_or_zero cores (''Total Checks: '' @ show_int i @ [NL]) st =
   Inr (if ps_saw_total st then st else st\<lparr>ps_total := i, ps_saw_total := True\<rparr>)"
  by (simp only: pass_log_step_def strip_total Let_def log_int_or_zero_Inr [OF log_int_total])
    (simp add: str_simps)

lemma pass_log_entry:
  assumes "name_ok n"
  shows "foldE (pass_log_step log_int_or_zero cores)
      [''Check Type: '' @ n @ [NL], ''Count: '' @ show_int i @ [NL], ''Ratio: '' @ r] st =
    Inr (st\<lparr>ps_core := ps_core st + (if startswith_any n cores then i else 0), ps_type := None\<rparr>)"
proof -
  let ?step = "pass_log_step log_int_or_zero cores"
  have 1: "?step (''Check Type: '' @ n @ [NL]) st = Inr (st\<lparr>ps_type := Some n\<rparr>)"
    by (simp only: pass_log_step_def name_ok_facts [OF assms] Let_def) (simp add: str_simps)
  have 2: "?step (''Count: '' @ show_int i @ [NL]) (st\<lparr>ps_type := Some n\<rparr>) =
      Inr (st\<lparr>ps_core := ps_core st + (if startswith_any n cores then i else 0), ps_type := None\<rparr>)"
    using assms
    by (simp only: pass_log_step_def strip_count log_int_or_zero_Inr [OF log_int_count] Let_def)
      (simp add: str_simps name_ok_def)
  have 3: "?step (''Ratio: '' @ r) st' = Inr st'" for st'
    using pass_log_skip [of "CHR ''R''" _ _ "''atio: '' @ r"] by (simp add: is_space_def)
  show ?thesis by (simp only: foldE.simps 1 2 3 bindE.simps)
qed

text \<open>The entries of the summary, in ranking order.\<close>

definition entry_lines :: "string \<times> int \<Rightarrow> string \<Rightarrow> string list" where
  "entry_lines e r = [''Check Type: '' @ fst e, ''Count: '' @ show_int (snd e), ''Ratio: '' @ r]"

lemma count_entry_lines:
  "count_entry tot e = Inr ls \<Longrightarrow> \<exists>r. ls = entry_lines e r \<and> one_line r"
  using one_line_fixed [of 1]
  by (auto simp: count_entry_def entry_lines_def res_simps numeral_2_eq_2 split: prod.splits)

lemma check_log_entries:
  assumes "list_all2 (\<lambda>e ls. \<exists>r. ls = entry_lines e r) es lss" "\<forall>e\<in>set es. name_ok (fst e)"
    "distinct (dkeys (cs_counts st @ es))" "cs_type st = None"
  shows "foldE check_log_step (map (\<lambda>l. l @ [NL]) (concat lss)) st = Inr (st\<lparr>cs_counts := cs_counts st @ es\<rparr>)"
  using assms
proof (induction es lss arbitrary: st rule: list_all2_induct)
  case (Cons e es ls lss)
  obtain n i where e: "e = (n, i)" by force
  have fresh: "n \<notin> set (dkeys (cs_counts st))" using Cons.prems(2) by (auto simp: e)
  have app: "dset n v d = d @ [(n, v)]" if "n \<notin> set (dkeys d)" for d and v :: int
    using that by (induction d) auto
  have "dget (cs_counts st) n 0 = 0"
    using fresh map_of_eq_None_iff [of "cs_counts st" n] by (simp add: dget_def)
  with fresh have d: "dset n (dget (cs_counts st) n 0 + i) (cs_counts st) = cs_counts st @ [e]"
    by (simp add: app e)
  from Cons.hyps(1) obtain r where "ls = entry_lines e r" by blast
  then have "map (\<lambda>l. l @ [NL]) ls =
      [''Check Type: '' @ n @ [NL], ''Count: '' @ show_int i @ [NL], ''Ratio: '' @ r @ [NL]]"
    by (simp add: entry_lines_def e)
  then have "foldE check_log_step (map (\<lambda>l. l @ [NL]) ls) st = Inr (st\<lparr>cs_counts := cs_counts st @ [e]\<rparr>)"
    using check_log_entry [of n i "r @ [NL]" st] Cons.prems by (simp only: d) (simp add: e)
  with Cons.IH [of "st\<lparr>cs_counts := cs_counts st @ [e]\<rparr>"] Cons.prems show ?case
    by (simp add: foldE_append)
qed simp

lemma pass_log_entries:
  assumes "list_all2 (\<lambda>e ls. \<exists>r. ls = entry_lines e r) es lss" "\<forall>e\<in>set es. name_ok (fst e)"
    "ps_type st = None"
  shows "foldE (pass_log_step log_int_or_zero cores) (map (\<lambda>l. l @ [NL]) (concat lss)) st =
    Inr (st\<lparr>ps_core := ps_core st + prefix_checks cores es\<rparr>)"
  using assms
proof (induction es lss arbitrary: st rule: list_all2_induct)
  case (Cons e es ls lss)
  obtain n i where e: "e = (n, i)" by force
  from Cons.hyps(1) obtain r where "ls = entry_lines e r" by blast
  then have "map (\<lambda>l. l @ [NL]) ls =
      [''Check Type: '' @ n @ [NL], ''Count: '' @ show_int i @ [NL], ''Ratio: '' @ r @ [NL]]"
    by (simp add: entry_lines_def e)
  then have "foldE (pass_log_step log_int_or_zero cores) (map (\<lambda>l. l @ [NL]) ls) st =
      Inr (st\<lparr>ps_core := ps_core st + (if startswith_any n cores then i else 0)\<rparr>)"
    using pass_log_entry [of n cores i "r @ [NL]" st] Cons.prems by (simp only:) (simp add: e)
  with Cons.IH Cons.prems show ?case
    by (simp add: foldE_append prefix_checks_def e)
qed (simp add: prefix_checks_def)

text \<open>The whole summary, as the file's lines.\<close>

lemma prefix_sum: "sum_prefix counts prefixes = prefix_checks prefixes counts"
  by (simp add: sum_prefix_def prefix_checks_def)

lemma counter_names: "counter_ok counts \<Longrightarrow> e \<in> set counts \<Longrightarrow> name_ok (fst e)"
  by (force simp: counter_ok_def name_ok_def)

lemma count_report_lines:
  assumes "count_report path kind counts = Inr ls" "counter_ok counts" "one_line path" "one_line kind"
  obtains lss where "list_all2 (\<lambda>e ls. \<exists>r. ls = entry_lines e r) (ranking counts) lss"
    "text_lines (printed ls) = map (\<lambda>l. l @ [NL])
      ([''DESAN Sanitizer Check Count Summary'', ''Input: '' @ path,
        ''Total Checks: '' @ show_int (total_checks counts),
        ''Core Checks: '' @ show_int (prefix_checks (CORE_PREFIXES kind) counts),
        ''Sanitizer: '' @ sanitizer_label kind] @ concat lss)"
proof -
  from assms(1) obtain lss where m: "mapE (count_entry (total_checks counts)) (ranking counts) = Inr lss"
    and ls: "ls = [''DESAN Sanitizer Check Count Summary'', ''Input: '' @ path,
        ''Total Checks: '' @ show_int (total_checks counts),
        ''Core Checks: '' @ show_int (prefix_checks (CORE_PREFIXES kind) counts),
        ''Sanitizer: '' @ sanitizer_label kind] @ concat lss"
    by (auto simp: count_report_def Let_def res_simps)
  from m have l2: "list_all2 (\<lambda>e ls. \<exists>r. ls = entry_lines e r \<and> one_line r) (ranking counts) lss"
    unfolding mapE_Inr_iff by (rule list_all2_mono) (rule count_entry_lines)
  have "one_line l" if "l \<in> set (concat lss)" for l
  proof -
    from that obtain x where x: "x \<in> set lss" "l \<in> set x" by auto
    then obtain i where i: "i < length lss" "x = lss ! i" by (auto simp: in_set_conv_nth)
    with l2 obtain r where r: "x = entry_lines (ranking counts ! i) r" "one_line r"
      by (auto dest: list_all2_nthD2)
    define e where "e = ranking counts ! i"
    have "e \<in> set (ranking counts)"
      using i(1) list_all2_lengthD [OF l2] unfolding e_def by (intro nth_mem) simp
    then have "one_line (fst e)" by (intro name_ok_facts(1) counter_names [OF assms(2)]) simp
    with r x(2) show ?thesis by (auto simp: entry_lines_def e_def [symmetric])
  qed
  moreover have "one_line (sanitizer_label kind)"
    using one_line_lower [OF assms(4)] by (simp add: sanitizer_label_def Let_def)
  ultimately have "\<forall>l\<in>set ls. one_line l" using assms(3) by (auto simp: ls)
  then have "text_lines (printed ls) = map (\<lambda>l. l @ [NL]) ls"
    by (intro text_lines_printed) (simp add: one_line_def)
  moreover from l2 have "list_all2 (\<lambda>e ls. \<exists>r. ls = entry_lines e r) (ranking counts) lss"
    by (rule list_all2_mono) blast
  ultimately show ?thesis by (intro that) (simp_all only: ls)
qed

lemma check_log_header:
  "foldE check_log_step (map (\<lambda>l. l @ [NL]) [''DESAN Sanitizer Check Count Summary'', ''Input: '' @ path,
      ''Total Checks: '' @ show_int n, ''Core Checks: '' @ show_int m, ''Sanitizer: '' @ lab]) check_init =
   Inr (check_init\<lparr>cs_total := n\<rparr>)"
proof -
  have 1: "check_log_step (''DESAN Sanitizer Check Count Summary'' @ [NL]) st = Inr st" for st
    using check_log_skip [of "CHR ''D''" "''ESAN Sanitizer Check Count Summary'' @ [NL]"] by (simp add: is_space_def)
  have 2: "check_log_step ((''Input: '' @ path) @ [NL]) st = Inr st" for st
    using check_log_skip [of "CHR ''I''" "''nput: '' @ path @ [NL]"] by (simp add: is_space_def)
  have 3: "check_log_step ((''Core Checks: '' @ show_int m) @ [NL]) st = Inr st" for st
    using strip_keeps_hd [of "CHR ''C''"] strip_line [OF trimmed_show_int [of "''Core Checks: ''" m]]
    by (simp add: check_log_step_def is_space_def str_simps)
  have 4: "check_log_step ((''Sanitizer: '' @ lab) @ [NL]) st = Inr st" for st
    using check_log_skip [of "CHR ''S''" "''anitizer: '' @ lab @ [NL]"] by (simp add: is_space_def)
  have 5: "check_log_step ((''Total Checks: '' @ show_int n) @ [NL]) st = Inr (st\<lparr>cs_total := n\<rparr>)" for st
    using check_log_total by simp
  show ?thesis by (simp only: list.map foldE.simps 1 2 3 4 5 bindE.simps)
qed

lemma pass_log_header:
  "foldE (pass_log_step log_int_or_zero cores) (map (\<lambda>l. l @ [NL])
     [''DESAN Sanitizer Check Count Summary'', ''Input: '' @ path,
      ''Total Checks: '' @ show_int n, ''Core Checks: '' @ show_int m, ''Sanitizer: '' @ lab]) pass_init =
   Inr (pass_init\<lparr>ps_total := n, ps_saw_total := True\<rparr>)"
proof -
  let ?step = "pass_log_step log_int_or_zero cores"
  have "trimmed ''DESAN Sanitizer Check Count Summary''" by (simp add: trimmed_def is_space_def)
  then have 1: "?step (''DESAN Sanitizer Check Count Summary'' @ [NL]) st = Inr st" for st
    by (simp only: pass_log_step_def strip_line) (simp add: str_simps)
  have 2: "?step ((''Input: '' @ path) @ [NL]) st = Inr st" for st
    using pass_log_skip [of "CHR ''I''" _ _ "''nput: '' @ path @ [NL]"] by (simp add: is_space_def)
  have 3: "?step ((''Core Checks: '' @ show_int m) @ [NL]) st = Inr st" for st
    using strip_line [OF trimmed_show_int [of "''Core Checks: ''" m]]
    by (simp add: pass_log_step_def is_space_def str_simps)
  have 4: "?step ((''Sanitizer: '' @ lab) @ [NL]) st = Inr st" for st
    using pass_log_skip [of "CHR ''S''" _ _ "''anitizer: '' @ lab @ [NL]"] by (simp add: is_space_def)
  have 5: "?step ((''Total Checks: '' @ show_int n) @ [NL]) pass_init =
      Inr (pass_init\<lparr>ps_total := n, ps_saw_total := True\<rparr>)"
    using pass_log_total [of cores n pass_init] by (simp add: pass_init_def)
  show ?thesis by (simp only: list.map foldE.simps 1 2 3 4 5 bindE.simps)
qed

lemma parse_pass_log_spec_exn:
  "parse_pass_log_spec fs path cores = Inl e \<Longrightarrow> e = IsADirectoryError \<or> e = IndexError"
  by (auto simp: parse_pass_log_spec_def res_simps split: if_splits
      dest!: foldE_Inl_cases dest: read_text_cases pass_log_step_errors)

lemma pass_log_step_exn:
  "pass_log_step log_int cores raw st = Inl e \<Longrightarrow> e = IndexError \<or> e = ValueError"
  by (auto simp: pass_log_step_def Let_def res_simps dest: log_int_errors check_type_of_defined split: if_splits)

lemma parse_pass_log_oss_exn:
  "parse_pass_log_oss fs path cores = Inl e \<Longrightarrow> e = IsADirectoryError \<or> e = IndexError \<or> e = ValueError"
  by (auto simp: parse_pass_log_oss_def res_simps split: if_splits
      dest!: foldE_Inl_cases dest: read_text_cases pass_log_step_exn)

lemma check_log_step_exn: "check_log_step raw st = Inl e \<Longrightarrow> e = IndexError"
proof -
  have "catch_ValueError (bindE (log_int l) (\<lambda>n. Inr (g n))) (Inr c) = Inl e \<Longrightarrow> e = IndexError" for l g c
    by (cases "log_int l") (auto simp: catch_ValueError_def dest: log_int_errors split: if_splits)
  then show "check_log_step raw st = Inl e \<Longrightarrow> e = IndexError"
    by (auto simp: check_log_step_def Let_def res_simps dest: log_int_or_zero_errors check_type_of_defined
        split: if_splits)
qed

lemma parse_check_log_exn: "parse_check_log fs path = Inl e \<Longrightarrow> e = IsADirectoryError \<or> e = IndexError"
  by (auto simp: parse_check_log_def res_simps split: if_splits
      dest!: foldE_Inl_cases dest: read_text_cases check_log_step_exn)

lemma read_text_exists: "read_text fs path = Inr text \<Longrightarrow> path_exists fs path"
  by (auto simp: path_exists_def read_text_def split: option.splits)

section \<open>Properties\<close>

text \<open>
  C2: the summary that \<open>count_sanitizer_checks.py\<close> prints is read back by \<open>parse_check_log\<close>
  without loss: the same total, and the same counter in the printed order.
\<close>

theorem summary_roundtrip:
  assumes "count_main fs sanitizer ir = Inr ls" "read_text fs ir = Inr text"
    and "one_line (path_str ir)" "one_line sanitizer"
    and "read_text fs' logf = Inr (printed ls)"
    and "counts = count_checks (sanitizer_prefix (normalize_kind sanitizer)) text"
  shows "parse_check_log fs' logf = Inr (total_checks counts, ranking counts)"
proof -
  let ?kind = "normalize_kind sanitizer"
  have ok: "counter_ok counts" by (simp add: assms(6) counter_ok_count)
  have rep: "count_report (path_str ir) ?kind counts = Inr ls"
    using assms(1,2,6) by (simp add: count_main_def Let_def)
  have "one_line ?kind" using one_line_lower [OF assms(4)] by (simp add: normalize_kind_def Let_def)
  from count_report_lines [OF rep ok assms(3) this] obtain lss where
    l2: "list_all2 (\<lambda>e ls. \<exists>r. ls = entry_lines e r) (ranking counts) lss" and
    tl: "text_lines (printed ls) = map (\<lambda>l. l @ [NL])
      ([''DESAN Sanitizer Check Count Summary'', ''Input: '' @ path_str ir,
        ''Total Checks: '' @ show_int (total_checks counts),
        ''Core Checks: '' @ show_int (prefix_checks (CORE_PREFIXES ?kind) counts),
        ''Sanitizer: '' @ sanitizer_label ?kind] @ concat lss)" by blast
  let ?st = "check_init\<lparr>cs_total := total_checks counts\<rparr>"
  have "foldE check_log_step (map (\<lambda>l. l @ [NL]) (concat lss)) ?st =
      Inr (?st\<lparr>cs_counts := cs_counts ?st @ ranking counts\<rparr>)"
    using counter_names [OF ok] counter_ok_ranking [OF ok]
    by (intro check_log_entries [OF l2]) (simp_all add: check_init_def counter_ok_def)
  then have "foldE check_log_step (text_lines (printed ls)) check_init =
      Inr (?st\<lparr>cs_counts := ranking counts\<rparr>)"
    unfolding tl by (simp only: map_append foldE_append check_log_header bindE.simps)
      (simp add: check_init_def)
  moreover have "path_exists fs' logf" using assms(5) by (rule read_text_exists)
  ultimately show ?thesis
    using assms(5) total_checks_ranking [of counts]
    by (simp add: parse_check_log_def check_result_def total_checks_def)
qed

text \<open>The example file of the witnesses.\<close>

definition demo_ir :: files where
  "demo_ir = (\<lambda>p. if p = ''a.ll'' then Some (File ''call void @__asan_load4()'') else None)"

definition demo_summary :: "string list" where
  "demo_summary = [''DESAN Sanitizer Check Count Summary'', ''Input: a.ll'', ''Total Checks: 1'',
     ''Core Checks: 1'', ''Sanitizer: ASan'', ''Check Type: __asan_load4'', ''Count: 1'', ''Ratio: 100.00%'']"

definition demo_log :: files where
  "demo_log = (\<lambda>p. if p = ''l'' then Some (File (printed demo_summary)) else None)"

lemma demo_runs:
  "count_main demo_ir ''asan'' ''a.ll'' = Inr demo_summary"
  "read_text demo_ir ''a.ll'' = Inr ''call void @__asan_load4()''"
  "one_line (path_str ''a.ll'')" "one_line ''asan''"
  "read_text demo_log ''l'' = Inr (printed demo_summary)"
  by code_simp+

theorem summary_roundtrip_witness:
  "parse_check_log demo_log ''l'' = Inr (1, [(''__asan_load4'', 1)])"
proof -
  have "count_checks (sanitizer_prefix (normalize_kind ''asan'')) ''call void @__asan_load4()'' =
      [(''__asan_load4'', 1)]" by code_simp
  with summary_roundtrip [OF demo_runs refl] show ?thesis
    by (simp add: total_checks_def ranking_def)
qed

text \<open>
  C23: the log reader of the SPEC script reads the same summary as a pass log: the total, the
  number of checks under the given core prefixes, and no removed check.
\<close>

theorem pass_log_of_summary:
  assumes "count_main fs sanitizer ir = Inr ls" "read_text fs ir = Inr text"
    and "one_line (path_str ir)" "one_line sanitizer"
    and "read_text fs' logf = Inr (printed ls)"
    and "counts = count_checks (sanitizer_prefix (normalize_kind sanitizer)) text"
  shows "parse_pass_log_spec fs' logf cores = Inr (total_checks counts, prefix_checks cores counts, 0)"
proof -
  let ?kind = "normalize_kind sanitizer"
  have ok: "counter_ok counts" by (simp add: assms(6) counter_ok_count)
  have rep: "count_report (path_str ir) ?kind counts = Inr ls"
    using assms(1,2,6) by (simp add: count_main_def Let_def)
  have "one_line ?kind" using one_line_lower [OF assms(4)] by (simp add: normalize_kind_def Let_def)
  from count_report_lines [OF rep ok assms(3) this] obtain lss where
    l2: "list_all2 (\<lambda>e ls. \<exists>r. ls = entry_lines e r) (ranking counts) lss" and
    tl: "text_lines (printed ls) = map (\<lambda>l. l @ [NL])
      ([''DESAN Sanitizer Check Count Summary'', ''Input: '' @ path_str ir,
        ''Total Checks: '' @ show_int (total_checks counts),
        ''Core Checks: '' @ show_int (prefix_checks (CORE_PREFIXES ?kind) counts),
        ''Sanitizer: '' @ sanitizer_label ?kind] @ concat lss)" by blast
  let ?st = "pass_init\<lparr>ps_total := total_checks counts, ps_saw_total := True\<rparr>"
  have "foldE (pass_log_step log_int_or_zero cores) (map (\<lambda>l. l @ [NL]) (concat lss)) ?st =
      Inr (?st\<lparr>ps_core := ps_core ?st + prefix_checks cores (ranking counts)\<rparr>)"
    using counter_names [OF ok] by (intro pass_log_entries [OF l2]) (simp_all add: pass_init_def)
  then have "foldE (pass_log_step log_int_or_zero cores) (text_lines (printed ls)) pass_init =
      Inr (?st\<lparr>ps_core := prefix_checks cores counts\<rparr>)"
    unfolding tl by (simp only: map_append foldE_append pass_log_header bindE.simps)
      (simp add: pass_init_def prefix_checks_ranking)
  moreover have "path_exists fs' logf" using assms(5) by (rule read_text_exists)
  ultimately show ?thesis
    using assms(5) by (simp add: parse_pass_log_spec_def pass_result_def pass_init_def)
qed

theorem pass_log_of_summary_witness:
  "parse_pass_log_spec demo_log ''l'' [''__asan_load''] = Inr (1, 1, 0)"
proof -
  have "count_checks (sanitizer_prefix (normalize_kind ''asan'')) ''call void @__asan_load4()'' =
      [(''__asan_load4'', 1)]" by code_simp
  with pass_log_of_summary [OF demo_runs refl, of "[''__asan_load'']"] show ?thesis
    by (simp add: total_checks_def prefix_checks_def startswith_any_def str_simps)
qed

text \<open>
  C24: the log reader of the SPEC script turns malformed numbers into 0 and never raises
  \<open>ValueError\<close>; it can only fail with \<open>IndexError\<close>, on a line that starts with \<open>Count:\<close> and
  has no space before its number, or because the path is a directory.
\<close>

theorem parse_pass_log_spec_errors:
  assumes "parse_pass_log_spec fs path cores = Inl e"
  shows "(e = IsADirectoryError \<and> fs (path_str path) = Some Dir) \<or>
    (e = IndexError \<and> (\<exists>text. fs (path_str path) = Some (File text) \<and>
       (\<exists>raw\<in>set (text_lines text). unspaced_count raw)))"
proof (cases "fs (path_str path)")
  case None
  with assms show ?thesis by (simp add: parse_pass_log_spec_def path_exists_def)
next
  case (Some n)
  show ?thesis
  proof (cases n)
    case (File t)
    with assms Some have "foldE (pass_log_step log_int_or_zero cores) (text_lines t) pass_init = Inl e"
      by (auto simp: parse_pass_log_spec_def read_text_def path_exists_def res_simps)
    then show ?thesis
      using Some File foldE_Inl_cases pass_log_step_errors by metis
  next
    case Dir
    with assms Some show ?thesis
      by (auto simp: parse_pass_log_spec_def read_text_def path_exists_def)
  qed
qed

theorem parse_pass_log_spec_errors_witness:
  "parse_pass_log_spec (\<lambda>_. Some (File ''Check Type: t\<newline>Count:5'')) ''l'' [] = Inl IndexError \<and>
   unspaced_count ''Count:5''"
proof -
  have "parse_pass_log_spec (\<lambda>_. Some (File ''Check Type: t\<newline>Count:5'')) ''l'' [] = Inl IndexError"
    by code_simp
  from parse_pass_log_spec_errors [OF this]
  have "\<exists>raw\<in>set (text_lines ''Check Type: t\<newline>Count:5''). unspaced_count raw" by simp
  moreover have "text_lines ''Check Type: t\<newline>Count:5'' = [''Check Type: t\<newline>'', ''Count:5'']" by code_simp
  moreover have "\<not> unspaced_count ''Check Type: t\<newline>''" by code_simp
  ultimately show ?thesis using \<open>parse_pass_log_spec _ _ _ = _\<close> by auto
qed

text \<open>
  C25: the two log readers agree wherever the unguarded one of the open-source script
  returns: the exception handling of the SPEC script changes no result, it only adds some.
\<close>

theorem pass_log_oss_refines_spec:
  assumes "parse_pass_log_oss fs path cores = Inr r"
  shows "parse_pass_log_spec fs path cores = Inr r"
  using assms
  by (auto simp: parse_pass_log_oss_def parse_pass_log_spec_def res_simps split: if_splits
      dest!: pass_log_fold_oss_spec)

theorem pass_log_oss_refines_spec_witness:
  "parse_pass_log_spec demo_log ''l'' [''__asan_store''] = Inr (1, 0, 0)"
  by (rule pass_log_oss_refines_spec) code_simp

end
