(* ===== verification/PyCsv.thy ===== *)
theory PyCsv
  imports PyPath
begin

text \<open>
  \<open>csv.reader\<close> and \<open>csv.DictReader\<close> with the excel dialect (quote character \<open>"\<close>, doubled
  quotes, not strict) and any delimiter, on a file opened with \<open>newline=""\<close>. The reader is
  the state machine of the library: it eats the file's lines (which keep their ends) one
  character at a time, and after each line the end-of-line signal. The library's limit on
  the size of one field (131072 characters) is not modelled.
\<close>

section \<open>csv.reader\<close>

text \<open>The lines of a file opened with \<open>newline=""\<close>: split after LF, CR or CR LF, untranslated.\<close>

fun raw_lines :: "string \<Rightarrow> string list" where
  "raw_lines [] = []"
| "raw_lines (c # s) =
     (if c = CR \<and> s \<noteq> [] \<and> hd s = NL then
        (case raw_lines s of [] \<Rightarrow> [[c]] | l # ls \<Rightarrow> (c # l) # ls)
      else if c = NL \<or> c = CR then [c] # raw_lines s
      else (case raw_lines s of [] \<Rightarrow> [[c]] | l # ls \<Rightarrow> (c # l) # ls))"

datatype csv_mode = StartRecord | StartField | InField | InQuoted | QuoteInQuoted | EatCrNl

record csv_state =
  csv_mode :: csv_mode
  csv_field :: string
  csv_fields :: "string list"

definition csv_init :: csv_state where
  "csv_init = \<lparr>csv_mode = StartRecord, csv_field = [], csv_fields = []\<rparr>"

definition add_char :: "char \<Rightarrow> csv_mode \<Rightarrow> csv_state \<Rightarrow> csv_state" where
  "add_char c m st = st\<lparr>csv_mode := m, csv_field := csv_field st @ [c]\<rparr>"

definition save_field :: "csv_mode \<Rightarrow> csv_state \<Rightarrow> csv_state" where
  "save_field m st = st\<lparr>csv_mode := m, csv_field := [], csv_fields := csv_fields st @ [csv_field st]\<rparr>"

definition is_eol :: "char \<Rightarrow> bool" where
  "is_eol c \<longleftrightarrow> c = NL \<or> c = CR"

text \<open>
  One character. After a line's CR or LF nothing but its other half can follow, since the
  line ends there; that last case keeps the state.
\<close>

definition start_field :: "char \<Rightarrow> char \<Rightarrow> csv_state \<Rightarrow> csv_state" where
  "start_field delim c st =
     (if is_eol c then save_field EatCrNl st
      else if c = CHR ''\"'' then st\<lparr>csv_mode := InQuoted\<rparr>
      else if c = delim then save_field StartField st
      else add_char c InField st)"

definition csv_char :: "char \<Rightarrow> char \<Rightarrow> csv_state \<Rightarrow> csv_state" where
  "csv_char delim c st = (case csv_mode st of
      StartRecord \<Rightarrow> if is_eol c then st\<lparr>csv_mode := EatCrNl\<rparr> else start_field delim c st
    | StartField \<Rightarrow> start_field delim c st
    | InField \<Rightarrow> if is_eol c then save_field EatCrNl st
        else if c = delim then save_field StartField st
        else add_char c InField st
    | InQuoted \<Rightarrow> if c = CHR ''\"'' then st\<lparr>csv_mode := QuoteInQuoted\<rparr> else add_char c InQuoted st
    | QuoteInQuoted \<Rightarrow> if c = CHR ''\"'' then add_char c InQuoted st
        else if c = delim then save_field StartField st
        else if is_eol c then save_field EatCrNl st
        else add_char c InField st
    | EatCrNl \<Rightarrow> st)"

text \<open>The end-of-line signal after each line.\<close>

definition csv_eol :: "csv_state \<Rightarrow> csv_state" where
  "csv_eol st = (case csv_mode st of
      StartRecord \<Rightarrow> st
    | InQuoted \<Rightarrow> st
    | EatCrNl \<Rightarrow> st\<lparr>csv_mode := StartRecord\<rparr>
    | _ \<Rightarrow> save_field StartRecord st)"

definition csv_line :: "char \<Rightarrow> string \<Rightarrow> csv_state \<Rightarrow> csv_state" where
  "csv_line delim l st = csv_eol (fold (csv_char delim) l st)"

fun csv_rows :: "char \<Rightarrow> string list \<Rightarrow> csv_state \<Rightarrow> string list list" where
  "csv_rows delim [] st =
     (if csv_mode st = InQuoted then [csv_fields st @ [csv_field st]] else [])"
| "csv_rows delim (l # ls) st =
     (let st' = csv_line delim l st in
      if csv_mode st' = StartRecord then csv_fields st' # csv_rows delim ls csv_init
      else csv_rows delim ls st')"

definition csv_reader :: "char \<Rightarrow> string \<Rightarrow> string list list" where
  "csv_reader delim text = csv_rows delim (raw_lines text) csv_init"

section \<open>csv.DictReader\<close>

text \<open>
  A row as a dictionary: missing columns are \<open>None\<close>. (The surplus columns of a long row are
  kept by Python under the key \<open>None\<close>, which no script looks up.)
\<close>

type_synonym csv_dict = "(string, string option) dict"

definition dict_row :: "string list \<Rightarrow> string list \<Rightarrow> csv_dict" where
  "dict_row names row =
     fold (\<lambda>k. dset k None) (drop (length row) names)
       (fold (\<lambda>(k, v). dset k (Some v)) (zip names row) [])"

definition dict_reader :: "char \<Rightarrow> string \<Rightarrow> csv_dict list" where
  "dict_reader delim text = (case csv_reader delim text of
      [] \<Rightarrow> []
    | names # rows \<Rightarrow> map (dict_row names) (filter (\<lambda>r. r \<noteq> []) rows))"

text \<open>\<open>row.get(k)\<close> and \<open>row.get(k, v)\<close>.\<close>

definition row_get :: "csv_dict \<Rightarrow> string \<Rightarrow> string option" where
  "row_get d k = (case map_of d k of None \<Rightarrow> None | Some v \<Rightarrow> v)"

definition row_get_or :: "csv_dict \<Rightarrow> string \<Rightarrow> string \<Rightarrow> string option" where
  "row_get_or d k v = (case map_of d k of None \<Rightarrow> Some v | Some w \<Rightarrow> w)"

text \<open>\<open>v or d\<close> for a string that may be \<open>None\<close>.\<close>

definition or_else :: "string option \<Rightarrow> string \<Rightarrow> string" where
  "or_else v d = (case v of None \<Rightarrow> d | Some s \<Rightarrow> if s = '''' then d else s)"

section \<open>Lemmas\<close>

text \<open>A line has its line end at its end only, so no line raises in the reader.\<close>

lemma raw_lines_nonempty: "[] \<notin> set (raw_lines t)"
proof (induction t)
  case (Cons c s)
  then show ?case by (cases "raw_lines s") auto
qed simp

lemma concat_raw_lines: "concat (raw_lines t) = t"
proof (induction t)
  case (Cons c s)
  then show ?case by (cases "raw_lines s") auto
qed simp

definition line_shape :: "string \<Rightarrow> bool" where
  "line_shape l \<longleftrightarrow> (\<exists>p e. l = p @ e \<and> (\<forall>c\<in>set p. \<not> is_eol c) \<and> e \<in> {[], [NL], [CR], [CR, NL]})"

lemma line_shape_Cons: "\<not> is_eol c \<Longrightarrow> line_shape l \<Longrightarrow> line_shape (c # l)"
  unfolding line_shape_def by (metis append_Cons set_ConsD)

lemma line_shape_end: "e \<in> {[], [NL], [CR], [CR, NL]} \<Longrightarrow> line_shape e"
  unfolding line_shape_def by (metis append_Nil empty_iff list.set(1))

lemma raw_lines_plain: "l \<in> set (raw_lines t) \<Longrightarrow> line_shape l"
proof (induction t arbitrary: l)
  case (Cons c s)
  consider (crnl) s' where "c = CR" "s = NL # s'"
    | (eol) "c = NL \<or> c = CR" "\<not> (c = CR \<and> s \<noteq> [] \<and> hd s = NL)"
    | (plain) "\<not> is_eol c"
    by (cases s) (auto simp: is_eol_def)
  then show ?case
  proof cases
    case crnl
    then have r: "raw_lines s = [NL] # raw_lines s'" by simp
    with crnl have "raw_lines (c # s) = [CR, NL] # raw_lines s'" by simp
    with Cons.prems r have "l = [CR, NL] \<or> l \<in> set (raw_lines s)" by auto
    then show ?thesis using Cons.IH line_shape_end [of l] by blast
  next
    case eol
    then have "raw_lines (c # s) = [c] # raw_lines s" by auto
    with Cons.prems have "l = [c] \<or> l \<in> set (raw_lines s)" by auto
    then show ?thesis using Cons.IH line_shape_end [of l] eol(1) by blast
  next
    case plain
    then have r: "raw_lines (c # s) = (case raw_lines s of [] \<Rightarrow> [[c]] | l # ls \<Rightarrow> (c # l) # ls)"
      by (auto simp: is_eol_def)
    show ?thesis
    proof (cases "raw_lines s")
      case Nil
      with r Cons.prems have "l = [c]" by simp
      with line_shape_Cons [OF plain line_shape_end [of "[]"]] show ?thesis by simp
    next
      case ks: (Cons k ks)
      with r Cons.prems have "l = c # k \<or> l \<in> set (raw_lines s)" by auto
      then show ?thesis using Cons.IH ks line_shape_Cons [OF plain] by auto
    qed
  qed
qed simp

lemma fold_dset_none_look:
  "map_of (fold (\<lambda>k. dset k None) ks d) k = (if k \<in> set ks then Some None else map_of d k)"
  by (induction ks arbitrary: d) (auto simp: dict_simps)

lemma fold_dset_look_notin:
  "k \<notin> fst ` set kvs \<Longrightarrow> map_of (fold (\<lambda>(k, v). dset k (Some v)) kvs d) k = map_of d k"
  by (induction kvs arbitrary: d) (auto simp: dict_simps)

lemma fold_dset_look_in:
  "distinct (map fst kvs) \<Longrightarrow> (k, v) \<in> set kvs \<Longrightarrow>
   map_of (fold (\<lambda>(k, v). dset k (Some v)) kvs d) k = Some (Some v)"
proof (induction kvs arbitrary: d)
  case (Cons p kvs)
  then show ?case
    by (cases "p = (k, v)") (auto simp: fold_dset_look_notin dict_simps image_iff split: prod.splits)
qed simp

text \<open>A column of a row, by the header's name.\<close>

lemma dict_row_column:
  assumes "distinct names" "i < length names"
  shows "row_get (dict_row names row) (names ! i) = (if i < length row then Some (row ! i) else None)"
proof (cases "i < length row")
  case True
  have "names ! i \<notin> set (drop (length row) names)"
  proof
    assume "names ! i \<in> set (drop (length row) names)"
    then obtain j where "j < length (drop (length row) names)" "drop (length row) names ! j = names ! i"
      by (auto simp: in_set_conv_nth)
    with assms True show False by (simp add: nth_eq_iff_index_eq)
  qed
  moreover have "(names ! i, row ! i) \<in> set (zip names row)"
    using assms True by (auto simp: in_set_zip)
  moreover have "distinct (map fst (zip names row))" using assms by (simp add: map_fst_zip_take)
  ultimately show ?thesis
    using True by (simp add: row_get_def dict_row_def fold_dset_none_look fold_dset_look_in)
next
  case False
  have "drop (length row) names ! (i - length row) = names ! i"
    "i - length row < length (drop (length row) names)"
    using False assms by auto
  then have "names ! i \<in> set (drop (length row) names)" by (metis nth_mem)
  then show ?thesis using False by (simp add: row_get_def dict_row_def fold_dset_none_look)
qed

lemma dict_row_keys: "set (dkeys (dict_row names row)) = set names"
proof -
  have none: "set (dkeys (fold (\<lambda>k. dset k None) ks d)) = set ks \<union> set (dkeys d)"
    for ks and d :: csv_dict
    by (induction ks arbitrary: d) (auto simp: dict_simps)
  have some: "set (dkeys (fold (\<lambda>(k, v). dset k (Some v)) kvs d)) = fst ` set kvs \<union> set (dkeys d)"
    for kvs and d :: csv_dict
    by (induction kvs arbitrary: d) (auto simp: dict_simps split: prod.splits)
  have "fst ` set (zip names row) = set (take (length row) names)"
    by (simp flip: set_map add: map_fst_zip_take min_def)
  moreover have "set (drop (length row) names) \<union> set (take (length row) names) = set names"
    by (metis Un_commute append_take_drop_id set_append)
  ultimately show ?thesis unfolding dict_row_def none some by simp
qed

end
