(* ===== verification/Records.thy ===== *)
theory Records
  imports PassLog PyCsv
begin

text \<open>
  \<open>parse_records\<close>: the compile records (one TSV row per compiled unit, with the log of its
  pass) folded into check counts. \<open>scripts/spec_asan_summary.py\<close> and
  \<open>scripts/spec_asanmm_summary.py\<close> keep one row of counts per benchmark;
  \<open>scripts/opensource_summary.py\<close> and \<open>scripts/opensource_asanmm_summary.py\<close> one row for the
  project that is measured.

  The row of counts is a commutative monoid (the componentwise sum), so that the loops are
  instances of \<open>keyed_sum\<close>: the row of a benchmark is the sum of the amounts of its records.
\<close>

section \<open>Rows of counts\<close>

record unit_counts =
  compile_units :: int
  fallback_units :: int
  unit_checks :: int
  unit_core :: int
  unit_removed :: int

record access_counts =
  acc_units :: int
  acc_fallback :: int
  acc_checks :: int
  acc_core :: int
  acc_read :: int
  acc_write :: int

instantiation unit_counts_ext :: (comm_monoid_add) comm_monoid_add
begin
definition zero_unit_counts_ext :: "'a unit_counts_ext" where
  "zero_unit_counts_ext = \<lparr>compile_units = 0, fallback_units = 0, unit_checks = 0, unit_core = 0,
     unit_removed = 0, \<dots> = 0\<rparr>"
definition plus_unit_counts_ext :: "'a unit_counts_ext \<Rightarrow> 'a unit_counts_ext \<Rightarrow> 'a unit_counts_ext" where
  "plus_unit_counts_ext x y = \<lparr>compile_units = compile_units x + compile_units y,
     fallback_units = fallback_units x + fallback_units y, unit_checks = unit_checks x + unit_checks y,
     unit_core = unit_core x + unit_core y, unit_removed = unit_removed x + unit_removed y,
     \<dots> = unit_counts.more x + unit_counts.more y\<rparr>"
instance
  by standard (simp_all add: zero_unit_counts_ext_def plus_unit_counts_ext_def ac_simps)
end

instantiation access_counts_ext :: (comm_monoid_add) comm_monoid_add
begin
definition zero_access_counts_ext :: "'a access_counts_ext" where
  "zero_access_counts_ext = \<lparr>acc_units = 0, acc_fallback = 0, acc_checks = 0, acc_core = 0,
     acc_read = 0, acc_write = 0, \<dots> = 0\<rparr>"
definition plus_access_counts_ext :: "'a access_counts_ext \<Rightarrow> 'a access_counts_ext \<Rightarrow> 'a access_counts_ext" where
  "plus_access_counts_ext x y = \<lparr>acc_units = acc_units x + acc_units y,
     acc_fallback = acc_fallback x + acc_fallback y, acc_checks = acc_checks x + acc_checks y,
     acc_core = acc_core x + acc_core y, acc_read = acc_read x + acc_read y,
     acc_write = acc_write x + acc_write y, \<dots> = access_counts.more x + access_counts.more y\<rparr>"
instance
  by standard (simp_all add: zero_access_counts_ext_def plus_access_counts_ext_def ac_simps)
end

definition zero_counts :: unit_counts where
  "zero_counts = \<lparr>compile_units = 0, fallback_units = 0, unit_checks = 0, unit_core = 0, unit_removed = 0\<rparr>"

definition zero_access :: access_counts where
  "zero_access = \<lparr>acc_units = 0, acc_fallback = 0, acc_checks = 0, acc_core = 0, acc_read = 0, acc_write = 0\<rparr>"

section \<open>The prefixes and the names\<close>

definition DEFAULT_CORE_PREFIXES :: "string list" where
  "DEFAULT_CORE_PREFIXES = [''__asan_report_load'', ''__asan_report_store'', ''__asan_load'', ''__asan_store'']"

definition READ_PREFIXES :: "string list" where
  "READ_PREFIXES = [''__asan_report_load'', ''__asan_load'']"

definition WRITE_PREFIXES :: "string list" where
  "WRITE_PREFIXES = [''__asan_report_store'', ''__asan_store'']"

text \<open>\<open>\s*\((base|peak)\)\s*$\<close>\<close>

definition RUN_SUFFIX :: rx where
  "RUN_SUFFIX = Seqs [Star (One is_space), Chr (CHR ''(''), Group 1 (Alt (Lit ''base'') (Lit ''peak'')),
     Chr (CHR '')''), Star (One is_space), Eol]"

definition normalize_benchmark_name :: "string option \<Rightarrow> string" where
  "normalize_benchmark_name name = re_delete RUN_SUFFIX (strip (or_else name ''''))"

section \<open>One record\<close>

text \<open>\<open>Path(rec.get("pass_log", ""))\<close>: a row that is too short has \<open>None\<close> there.\<close>

definition pass_log_path :: "csv_dict \<Rightarrow> string res" where
  "pass_log_path rec = (case row_get_or rec ''pass_log'' '''' of None \<Rightarrow> Inl TypeError | Some p \<Rightarrow> Inr p)"

text \<open>
  A compile record of the DESAN pass; \<open>readlog\<close> is the script's \<open>parse_pass_log\<close>. A record
  that fell back to the plain compiler contributes its checks, but no removed ones.
\<close>

definition count_record ::
  "(string \<Rightarrow> (int \<times> int \<times> int) res) \<Rightarrow> csv_dict \<Rightarrow> unit_counts \<Rightarrow> unit_counts res" where
  "count_record readlog rec row0 =
     (let row = row0\<lparr>compile_units := compile_units row0 + 1\<rparr>; status = row_get rec ''status'' in
      if status = Some ''pass'' then
        bindE (pass_log_path rec) (\<lambda>p. bindE (readlog p) (\<lambda>(tot, cor, removed).
          Inr (row\<lparr>unit_checks := unit_checks row + tot, unit_core := unit_core row + cor,
                   unit_removed := unit_removed row + removed\<rparr>)))
      else if status = Some ''pass-fallback'' then
        bindE (pass_log_path rec) (\<lambda>p. bindE (readlog p) (\<lambda>(tot, cor, _).
          Inr (row\<lparr>fallback_units := fallback_units row + 1,
                   unit_checks := unit_checks row + tot, unit_core := unit_core row + cor\<rparr>)))
      else Inr (row\<lparr>fallback_units := fallback_units row + 1\<rparr>))"

text \<open>A compile record of the ASAN-- runs; its log is a check summary.\<close>

definition access_record :: "files \<Rightarrow> csv_dict \<Rightarrow> access_counts \<Rightarrow> access_counts res" where
  "access_record fs rec row0 =
     (let row = row0\<lparr>acc_units := acc_units row0 + 1\<rparr> in
      bindE (pass_log_path rec) (\<lambda>p. bindE (parse_check_log fs p) (\<lambda>(tot, counts).
        let row = (if counts = [] \<and> row_get rec ''status'' \<noteq> Some ''direct-ir''
                   then row\<lparr>acc_fallback := acc_fallback row + 1\<rparr> else row) in
        Inr (row\<lparr>acc_checks := acc_checks row + tot,
                 acc_core := acc_core row + sum_prefix counts DEFAULT_CORE_PREFIXES,
                 acc_read := acc_read row + sum_prefix counts READ_PREFIXES,
                 acc_write := acc_write row + sum_prefix counts WRITE_PREFIXES\<rparr>))))"

section \<open>parse_records\<close>

text \<open>The loops over several record files, with one row of counts per benchmark.\<close>

definition record_key_spec :: "csv_dict \<Rightarrow> string option" where
  "record_key_spec rec =
     (if row_get rec ''status'' = Some ''status'' \<or> row_get rec ''benchmark'' = Some ''benchmark'' then None
      else Some (or_else (row_get_or rec ''benchmark'' ''<unknown>'') ''<unknown>''))"

definition record_step_spec ::
  "(string \<Rightarrow> (int \<times> int \<times> int) res) \<Rightarrow> csv_dict \<Rightarrow> (string, unit_counts) dict \<Rightarrow>
   (string, unit_counts) dict res" where
  "record_step_spec readlog rec rows = (case record_key_spec rec of
      None \<Rightarrow> Inr rows
    | Some bench \<Rightarrow> bindE (count_record readlog rec (dget rows bench zero_counts)) (\<lambda>row.
        Inr (dset bench row rows)))"

definition parse_records_spec ::
  "machine \<Rightarrow> string list \<Rightarrow> string list \<Rightarrow> (string, unit_counts) dict res" where
  "parse_records_spec m paths core_prefixes = foldE (\<lambda>path rows.
     let p = m_expand m path in
     if \<not> path_exists (m_files m) p then Inr rows
     else bindE (read_text (m_files m) p) (\<lambda>text.
       foldE (record_step_spec (\<lambda>l. parse_pass_log_spec (m_files m) l core_prefixes))
         (dict_reader (CHR 0x09) text) rows)) paths []"

definition record_key_asanmm :: "csv_dict \<Rightarrow> string option" where
  "record_key_asanmm rec =
     (let bench = normalize_benchmark_name
        (Some (or_else (row_get_or rec ''benchmark'' ''<unknown>'') ''<unknown>'')) in
      if bench = ''benchmark'' \<or> row_get rec ''status'' = Some ''status'' then None else Some bench)"

definition record_step_asanmm ::
  "files \<Rightarrow> csv_dict \<Rightarrow> (string, access_counts) dict \<Rightarrow> (string, access_counts) dict res" where
  "record_step_asanmm fs rec rows = (case record_key_asanmm rec of
      None \<Rightarrow> Inr rows
    | Some bench \<Rightarrow> bindE (access_record fs rec (dget rows bench zero_access)) (\<lambda>row.
        Inr (dset bench row rows)))"

definition parse_records_asanmm :: "machine \<Rightarrow> string list \<Rightarrow> (string, access_counts) dict res" where
  "parse_records_asanmm m paths = foldE (\<lambda>path rows.
     let p = m_expand m path in
     if \<not> path_exists (m_files m) p then Inr rows
     else bindE (read_text (m_files m) p) (\<lambda>text.
       foldE (record_step_asanmm (m_files m)) (dict_reader (CHR 0x09) text) rows)) paths []"

text \<open>The loops of the open-source scripts: one file, one project.\<close>

definition of_project :: "string option \<Rightarrow> string \<Rightarrow> bool" where
  "of_project name benchmark \<longleftrightarrow> name = Some benchmark \<or> name = Some ''<unknown>''"

definition parse_records_oss :: "files \<Rightarrow> string \<Rightarrow> string \<Rightarrow> string list \<Rightarrow> unit_counts res" where
  "parse_records_oss fs path benchmark core_prefixes =
     (if \<not> path_exists fs path then Inr zero_counts
      else bindE (read_text fs path) (\<lambda>text.
        foldE (\<lambda>rec row.
          if \<not> of_project (row_get rec ''benchmark'') benchmark then Inr row
          else count_record (\<lambda>l. parse_pass_log_oss fs l core_prefixes) rec row)
          (dict_reader (CHR 0x09) text) zero_counts))"

definition parse_records_oss_asanmm :: "files \<Rightarrow> string \<Rightarrow> string \<Rightarrow> access_counts res" where
  "parse_records_oss_asanmm fs path benchmark =
     (if \<not> path_exists fs path then Inr zero_access
      else bindE (read_text fs path) (\<lambda>text.
        foldE (\<lambda>rec row.
          if \<not> of_project (row_get_or rec ''benchmark'' '''') benchmark then Inr row
          else access_record fs rec row)
          (dict_reader (CHR 0x09) text) zero_access))"

section \<open>What one record contributes\<close>

lemma zero_counts_0 [simp]: "zero_counts = 0"
  by (simp add: zero_counts_def zero_unit_counts_ext_def zero_unit_def)

lemma zero_access_0 [simp]: "zero_access = 0"
  by (simp add: zero_access_def zero_access_counts_ext_def zero_unit_def)

definition record_amount :: "(string \<Rightarrow> (int \<times> int \<times> int) res) \<Rightarrow> csv_dict \<Rightarrow> unit_counts" where
  "record_amount readlog rec = (case count_record readlog rec 0 of Inl _ \<Rightarrow> 0 | Inr x \<Rightarrow> x)"

definition access_amount :: "files \<Rightarrow> csv_dict \<Rightarrow> access_counts" where
  "access_amount fs rec = (case access_record fs rec 0 of Inl _ \<Rightarrow> 0 | Inr x \<Rightarrow> x)"

lemma count_record_add:
  "count_record readlog rec row = bindE (count_record readlog rec 0) (\<lambda>x. Inr (row + x))"
  by (auto simp: count_record_def Let_def bindE_assoc plus_unit_counts_ext_def zero_unit_counts_ext_def
      plus_unit_def split_def intro!: bindE_cong)

lemma access_record_add:
  "access_record fs rec row = bindE (access_record fs rec 0) (\<lambda>x. Inr (row + x))"
  by (auto simp: access_record_def Let_def bindE_assoc plus_access_counts_ext_def zero_access_counts_ext_def
      plus_unit_def split_def intro!: bindE_cong)

lemma count_record_amount: "count_record readlog rec row = Inr x \<Longrightarrow> x = row + record_amount readlog rec"
  by (subst (asm) count_record_add) (auto simp: record_amount_def res_simps)

lemma access_record_amount: "access_record fs rec row = Inr x \<Longrightarrow> x = row + access_amount fs rec"
  by (subst (asm) access_record_add) (auto simp: access_amount_def res_simps)

section \<open>The loops are keyed sums\<close>

interpretation spec_records: keyed_sum "record_step_spec readlog" map_of record_key_spec
    "\<lambda>rec. add_to (record_amount readlog rec)" "record_amount readlog" for readlog
  by unfold_locales
    (auto simp: record_step_spec_def res_simps dict_simps dget_def add_to_def
      dest!: count_record_amount split: option.splits)

interpretation asanmm_records: keyed_sum "record_step_asanmm fs" map_of record_key_asanmm
    "\<lambda>rec. add_to (access_amount fs rec)" "access_amount fs" for fs
  by unfold_locales
    (auto simp: record_step_asanmm_def res_simps dict_simps dget_def add_to_def
      dest!: access_record_amount split: option.splits)

section \<open>All records of all files\<close>

definition file_records :: "machine \<Rightarrow> string \<Rightarrow> csv_dict list" where
  "file_records m path = (case m_files m (path_str (m_expand m path)) of
      Some (File t) \<Rightarrow> dict_reader (CHR 0x09) t | _ \<Rightarrow> [])"

definition all_records :: "machine \<Rightarrow> string list \<Rightarrow> csv_dict list" where
  "all_records m paths = concat (map (file_records m) paths)"

lemma fold_files:
  assumes "foldE (\<lambda>path rows. let p = m_expand m path in
     if \<not> path_exists (m_files m) p then Inr rows
     else bindE (read_text (m_files m) p) (\<lambda>text. foldE step (dict_reader (CHR 0x09) text) rows)) paths d = Inr d'"
  shows "foldE step (all_records m paths) d = Inr d'"
  using assms
proof (induction paths arbitrary: d)
  case (Cons path paths)
  then obtain u where u: "foldE step (file_records m path) d = Inr u"
    by (auto simp: Let_def file_records_def res_simps path_exists_def read_text_def
        split: if_splits option.splits fnode.splits)
  with Cons show ?case
    by (auto simp: all_records_def foldE_append file_records_def Let_def res_simps path_exists_def
        read_text_def split: if_splits option.splits fnode.splits)
qed (simp add: all_records_def)

lemma fold_files_counts:
  assumes "parse_records_spec m paths cores = Inr rows"
  shows "foldE (record_step_spec (\<lambda>l. parse_pass_log_spec (m_files m) l cores)) (all_records m paths) [] = Inr rows"
  using assms unfolding parse_records_spec_def by (rule fold_files)

lemma fold_files_access:
  assumes "parse_records_asanmm m paths = Inr rows"
  shows "foldE (record_step_asanmm (m_files m)) (all_records m paths) [] = Inr rows"
  using assms unfolding parse_records_asanmm_def by (rule fold_files)

section \<open>What the loops can raise\<close>

lemma pass_log_path_exn: "pass_log_path rec = Inl e \<Longrightarrow> e = TypeError"
  by (auto simp: pass_log_path_def split: option.splits)

lemma count_record_exn:
  "count_record readlog rec row = Inl e \<Longrightarrow> e = TypeError \<or> (\<exists>p. readlog p = Inl e)"
  by (auto simp: count_record_def Let_def res_simps dest: pass_log_path_exn split: if_splits)

lemma access_record_exn:
  "access_record fs rec row = Inl e \<Longrightarrow> e = TypeError \<or> e = IsADirectoryError \<or> e = IndexError"
  by (auto simp: access_record_def Let_def res_simps dest: pass_log_path_exn parse_check_log_exn)

lemma fold_files_exn:
  assumes "foldE (\<lambda>path rows. let p = m_expand m path in
     if \<not> path_exists (m_files m) p then Inr rows
     else bindE (read_text (m_files m) p) (\<lambda>text. foldE step (dict_reader (CHR 0x09) text) rows)) paths d = Inl e"
    and "\<And>rec rows. step rec rows = Inl e \<Longrightarrow> P e"
  shows "e = IsADirectoryError \<or> P e"
  using assms(1)
  by (auto simp: Let_def res_simps split: if_splits dest!: foldE_Inl_cases dest: read_text_cases assms(2))

lemma parse_records_spec_exn:
  assumes "parse_records_spec m paths cores = Inl e"
  shows "e \<in> {IsADirectoryError, IndexError, TypeError}"
proof -
  let ?P = "\<lambda>e. e \<in> {IsADirectoryError, IndexError, TypeError}"
  have "e = IsADirectoryError \<or> ?P e"
    using assms unfolding parse_records_spec_def
    by (rule fold_files_exn)
      (auto simp: record_step_spec_def res_simps dest!: count_record_exn parse_pass_log_spec_exn split: option.splits)
  then show ?thesis by blast
qed

lemma parse_records_asanmm_exn:
  assumes "parse_records_asanmm m paths = Inl e"
  shows "e \<in> {IsADirectoryError, IndexError, TypeError}"
proof -
  let ?P = "\<lambda>e. e \<in> {IsADirectoryError, IndexError, TypeError}"
  have "e = IsADirectoryError \<or> ?P e"
    using assms unfolding parse_records_asanmm_def
    by (rule fold_files_exn)
      (auto simp: record_step_asanmm_def res_simps dest!: access_record_exn split: option.splits)
  then show ?thesis by blast
qed

lemma parse_records_oss_exn:
  assumes "parse_records_oss fs path benchmark cores = Inl e"
  shows "e \<in> {IsADirectoryError, IndexError, TypeError, ValueError}"
  using assms
  by (auto simp: parse_records_oss_def res_simps split: if_splits
      dest!: foldE_Inl_cases count_record_exn parse_pass_log_oss_exn dest: read_text_cases)

lemma parse_records_oss_asanmm_exn:
  assumes "parse_records_oss_asanmm fs path benchmark = Inl e"
  shows "e \<in> {IsADirectoryError, IndexError, TypeError}"
  using assms
  by (auto simp: parse_records_oss_asanmm_def res_simps split: if_splits
      dest!: foldE_Inl_cases access_record_exn dest: read_text_cases)

section \<open>The fields of an amount\<close>

lemma sum_fields:
  "compile_units (\<Sum>r\<leftarrow>rs. f r) = (\<Sum>r\<leftarrow>rs. compile_units (f r))"
  "fallback_units (\<Sum>r\<leftarrow>rs. f r) = (\<Sum>r\<leftarrow>rs. fallback_units (f r))"
  "unit_removed (\<Sum>r\<leftarrow>rs. f r) = (\<Sum>r\<leftarrow>rs. unit_removed (f r))"
  by (induction rs; simp add: zero_unit_counts_ext_def plus_unit_counts_ext_def)+

lemma sum_access_fields:
  "acc_units (\<Sum>r\<leftarrow>rs. f r) = (\<Sum>r\<leftarrow>rs. acc_units (f r))"
  "acc_fallback (\<Sum>r\<leftarrow>rs. f r) = (\<Sum>r\<leftarrow>rs. acc_fallback (f r))"
  by (induction rs; simp add: zero_access_counts_ext_def plus_access_counts_ext_def)+

lemma record_amount_units:
  assumes "count_record readlog rec 0 = Inr x"
  shows "compile_units x = 1" "fallback_units x = (if row_get rec ''status'' = Some ''pass'' then 0 else 1)"
    "row_get rec ''status'' \<noteq> Some ''pass'' \<Longrightarrow> unit_removed x = 0"
  using assms
  by (auto simp: count_record_def Let_def res_simps zero_unit_counts_ext_def split: if_splits prod.splits)

lemma access_amount_units:
  assumes "access_record fs rec 0 = Inr x"
  shows "acc_units x = 1" "0 \<le> acc_fallback x" "acc_fallback x \<le> 1"
proof -
  from assms obtain p tot counts where "parse_check_log fs p = Inr (tot, counts)"
    "access_record fs rec 0 = bindE (Inr p) (\<lambda>p. bindE (Inr (tot, counts)) (\<lambda>(tot, counts).
      let row = (if counts = [] \<and> row_get rec ''status'' \<noteq> Some ''direct-ir''
        then (0 :: access_counts)\<lparr>acc_units := 1, acc_fallback := 1\<rparr> else 0\<lparr>acc_units := 1\<rparr>) in
      Inr (row\<lparr>acc_checks := acc_checks row + tot,
        acc_core := acc_core row + sum_prefix counts DEFAULT_CORE_PREFIXES,
        acc_read := acc_read row + sum_prefix counts READ_PREFIXES,
        acc_write := acc_write row + sum_prefix counts WRITE_PREFIXES\<rparr>)))"
    by (auto simp: access_record_def Let_def res_simps zero_access_counts_ext_def)
  with assms show "acc_units x = 1" "0 \<le> acc_fallback x" "acc_fallback x \<le> 1"
    by (auto simp: Let_def zero_access_counts_ext_def)
qed

lemma record_step_ran:
  assumes "foldE (record_step_spec readlog) rs d = Inr d'" "rec \<in> set rs" "record_key_spec rec = Some b"
  shows "\<exists>x. count_record readlog rec 0 = Inr x"
proof -
  have "\<exists>u v. record_step_spec readlog rec u = Inr v"
    using assms(1,2) by (induction rs arbitrary: d) (auto simp: res_simps)
  then obtain u v where "count_record readlog rec (dget u b zero_counts) = Inr v"
    using assms(3) by (auto simp: record_step_spec_def res_simps)
  then show ?thesis by (subst (asm) count_record_add) (auto simp: res_simps)
qed

lemma access_step_ran:
  assumes "foldE (record_step_asanmm fs) rs d = Inr d'" "rec \<in> set rs" "record_key_asanmm rec = Some b"
  shows "\<exists>x. access_record fs rec 0 = Inr x"
proof -
  have "\<exists>u v. record_step_asanmm fs rec u = Inr v"
    using assms(1,2) by (induction rs arbitrary: d) (auto simp: res_simps)
  then obtain u v where "access_record fs rec (dget u b zero_access) = Inr v"
    using assms(3) by (auto simp: record_step_asanmm_def res_simps)
  then show ?thesis by (subst (asm) access_record_add) (auto simp: res_simps)
qed

lemma sum_list_ones: "(\<And>r. r \<in> set rs \<Longrightarrow> f r = (1 :: int)) \<Longrightarrow> (\<Sum>r\<leftarrow>rs. f r) = int (length rs)"
  by (induction rs) auto

lemma sum_list_flags:
  "(\<And>r. r \<in> set rs \<Longrightarrow> f r = (if P r then 0 else 1 :: int)) \<Longrightarrow>
   (\<Sum>r\<leftarrow>rs. f r) = int (length (filter (\<lambda>r. \<not> P r) rs))"
  by (induction rs) auto

section \<open>Properties\<close>

text \<open>
  C5: when the SPEC script has read its record files, the row of a benchmark is the sum of
  what each of its records (wherever they stand in the files) contributes: it has one compile
  unit per record and one fallback unit per record that is not a plain pass, and a benchmark
  without records has no row.
\<close>

theorem spec_records_are_sums:
  assumes "parse_records_spec m paths cores = Inr rows"
    and "rs = filter (\<lambda>rec. record_key_spec rec = Some bench) (all_records m paths)"
  shows "map_of rows bench = (if rs = [] then None
      else Some (\<Sum>rec\<leftarrow>rs. record_amount (\<lambda>l. parse_pass_log_spec (m_files m) l cores) rec)) \<and>
    (\<forall>row. map_of rows bench = Some row \<longrightarrow> compile_units row = int (length rs) \<and>
      fallback_units row = int (length (filter (\<lambda>rec. row_get rec ''status'' \<noteq> Some ''pass'') rs)))"
proof -
  let ?readlog = "\<lambda>l. parse_pass_log_spec (m_files m) l cores"
  note f = fold_files_counts [OF assms(1)]
  have look: "map_of rows bench = (if rs = [] then None else Some (\<Sum>rec\<leftarrow>rs. record_amount ?readlog rec))"
    using spec_records.loop_sum [OF f, of bench] assms(2) by (auto simp: filter_empty_conv)
  have one: "compile_units (record_amount ?readlog rec) = 1 \<and> fallback_units (record_amount ?readlog rec) =
      (if row_get rec ''status'' = Some ''pass'' then 0 else 1)" if "rec \<in> set rs" for rec
    using record_step_ran [OF f, of rec bench] that assms(2) record_amount_units
    by (auto simp: record_amount_def)
  then have "compile_units (\<Sum>rec\<leftarrow>rs. record_amount ?readlog rec) = int (length rs)"
    "fallback_units (\<Sum>rec\<leftarrow>rs. record_amount ?readlog rec) =
      int (length (filter (\<lambda>rec. row_get rec ''status'' \<noteq> Some ''pass'') rs))"
    unfolding sum_fields by (intro sum_list_ones sum_list_flags; simp)+
  with look show ?thesis by auto
qed

text \<open>Two compile records of one benchmark: one passed (with the log above), one fell back.\<close>

definition demo_tsv :: string where
  "demo_tsv = join [NL] (map (join [CHR 0x09]) [[''status'', ''benchmark'', ''pass_log''],
     [''pass'', ''401.bzip2'', ''l''], [''direct'', ''401.bzip2'', '''']]) @ [NL]"

definition demo_machine :: machine where
  "demo_machine = \<lparr>m_files = (\<lambda>p. if p = ''r.tsv'' then Some (File demo_tsv)
       else if p = ''.'' then Some Dir else demo_log p),
     m_expand = (\<lambda>p. p), m_glob = (\<lambda>p. [])\<rparr>"

theorem spec_records_are_sums_witness:
  "\<exists>rows row. parse_records_spec demo_machine [''r.tsv''] [''__asan_load''] = Inr rows \<and>
     map_of rows ''401.bzip2'' = Some row \<and> compile_units row = 2 \<and> fallback_units row = 1"
proof -
  have p: "parse_records_spec demo_machine [''r.tsv''] [''__asan_load''] =
      Inr [(''401.bzip2'', \<lparr>compile_units = 2, fallback_units = 1, unit_checks = 1, unit_core = 1, unit_removed = 0\<rparr>)]"
    by code_simp
  note q = conjunct2 [OF spec_records_are_sums [OF p refl, of "''401.bzip2''"]]
  show ?thesis by (rule exI, rule exI, rule conjI [OF p]) (use q in auto)
qed

text \<open>
  likewise for the ASAN-- records: the row of a benchmark is the sum over its records, one
  compile unit each, and never more fallback units than compile units.
\<close>

theorem asanmm_records_are_sums:
  assumes "parse_records_asanmm m paths = Inr rows"
    and "rs = filter (\<lambda>rec. record_key_asanmm rec = Some bench) (all_records m paths)"
  shows "map_of rows bench = (if rs = [] then None else Some (\<Sum>rec\<leftarrow>rs. access_amount (m_files m) rec)) \<and>
    (\<forall>row. map_of rows bench = Some row \<longrightarrow> acc_units row = int (length rs) \<and>
      0 \<le> acc_fallback row \<and> acc_fallback row \<le> acc_units row)"
proof -
  note f = fold_files_access [OF assms(1)]
  have look: "map_of rows bench = (if rs = [] then None else Some (\<Sum>rec\<leftarrow>rs. access_amount (m_files m) rec))"
    using asanmm_records.loop_sum [OF f, of bench] assms(2) by (auto simp: filter_empty_conv)
  have one: "acc_units (access_amount (m_files m) rec) = 1 \<and> 0 \<le> acc_fallback (access_amount (m_files m) rec) \<and>
      acc_fallback (access_amount (m_files m) rec) \<le> 1" if "rec \<in> set rs" for rec
    using access_step_ran [OF f, of rec bench] that assms(2) access_amount_units
    by (auto simp: access_amount_def)
  then have "acc_units (\<Sum>rec\<leftarrow>rs. access_amount (m_files m) rec) = int (length rs)"
    unfolding sum_access_fields by (intro sum_list_ones) simp
  moreover have "0 \<le> acc_fallback (\<Sum>rec\<leftarrow>rs. access_amount (m_files m) rec)"
    unfolding sum_access_fields using one by (intro sum_list_nonneg) auto
  moreover have "acc_fallback (\<Sum>rec\<leftarrow>rs. access_amount (m_files m) rec) \<le>
      acc_units (\<Sum>rec\<leftarrow>rs. access_amount (m_files m) rec)"
    unfolding sum_access_fields using one by (intro sum_list_mono) auto
  ultimately show ?thesis using look by auto
qed

definition demo_tsv_ir :: string where
  "demo_tsv_ir = join [NL] (map (join [CHR 0x09]) [[''status'', ''benchmark'', ''pass_log''],
     [''direct-ir'', ''401.bzip2 (base)'', ''l''], [''direct-ir'', ''401.bzip2'', ''missing'']]) @ [NL]"

definition demo_machine_ir :: machine where
  "demo_machine_ir = \<lparr>m_files = (\<lambda>p. if p = ''r.tsv'' then Some (File demo_tsv_ir) else demo_log p),
     m_expand = (\<lambda>p. p), m_glob = (\<lambda>p. [])\<rparr>"

theorem asanmm_records_are_sums_witness:
  "\<exists>rows row. parse_records_asanmm demo_machine_ir [''r.tsv''] = Inr rows \<and>
     map_of rows ''401.bzip2'' = Some row \<and> acc_units row = 2 \<and> acc_read row = 1"
proof -
  have p: "parse_records_asanmm demo_machine_ir [''r.tsv''] =
      Inr [(''401.bzip2'', \<lparr>acc_units = 2, acc_fallback = 0, acc_checks = 1, acc_core = 1, acc_read = 1, acc_write = 0\<rparr>)]"
    by code_simp
  note q = conjunct2 [OF asanmm_records_are_sums [OF p refl, of "''401.bzip2''"]]
  show ?thesis by (rule exI, rule exI, rule conjI [OF p]) (use q in auto)
qed

text \<open>
  A compile record without a log (the field is empty, as the wrapper writes it for units
  it compiled directly) makes the ASAN-- script fail: the empty path is the current
  directory, which exists and cannot be read.
\<close>

theorem asanmm_record_without_log:
  assumes "has_cwd (m_files m)" "rec \<in> set (all_records m paths)"
    and "record_key_asanmm rec \<noteq> None" "row_get_or rec ''pass_log'' '''' = Some ''''"
  shows "\<exists>e. parse_records_asanmm m paths = Inl e"
proof (cases "parse_records_asanmm m paths")
  case (Inr rows)
  from assms(3) obtain b where "record_key_asanmm rec = Some b" by auto
  with access_step_ran [OF fold_files_access [OF Inr] assms(2)]
  obtain x where "access_record (m_files m) rec 0 = Inr x" by blast
  moreover have "access_record (m_files m) rec 0 = Inl IsADirectoryError"
    using read_empty_path [OF assms(1)] assms(4)
    by (simp add: access_record_def Let_def pass_log_path_def parse_check_log_def)
  ultimately show ?thesis by simp
qed auto

theorem asanmm_record_without_log_witness:
  "\<exists>e. parse_records_asanmm demo_machine [''r.tsv''] = Inl e"
proof -
  have "\<exists>rec\<in>set (all_records demo_machine [''r.tsv'']).
      record_key_asanmm rec \<noteq> None \<and> row_get_or rec ''pass_log'' '''' = Some ''''" by code_simp
  moreover have "has_cwd (m_files demo_machine)" by code_simp
  ultimately show ?thesis using asanmm_record_without_log by blast
qed

end
