(* ===== verification/SpecRuntime.thy ===== *)
theory SpecRuntime
  imports Overhead Records
begin

text \<open>
  The run times of the SPEC suites: \<open>parse_runtime_csv\<close> of \<open>scripts/spec_asan_summary.py\<close>,
  of \<open>scripts/spec_asanmm_summary.py\<close> and of \<open>scripts/spec_sanrazor_summary.py\<close>, and
  \<open>parse_runtime_rsf\<close> of the last one. The three CSV readers are one loop with three
  differences: how a benchmark is named, and whether \<open>.rsf\<close> files are read another way.

  A CSV file is a report with a table somewhere inside: the loop remembers the header last
  seen and merges each measured row into the results. The merge is an instance of
  \<open>keyed_loop\<close>; its specification is \<open>pick_run\<close>, which says which of the rows of a
  benchmark is reported.
\<close>

section \<open>Merging runs\<close>

record run_entry =
  run_time :: "pyfloat option"
  run_status :: string

type_synonym runtimes = "(string, run_entry) dict"

text \<open>
  \<open>old is None or (old["time"] is None and run_time is not None) or selected == "1"\<close>:
  whether a row replaces the entry of its benchmark.
\<close>

definition replaces :: "run_entry option \<Rightarrow> run_entry \<Rightarrow> string \<Rightarrow> bool" where
  "replaces old new selected = (case old of
      None \<Rightarrow> True
    | Some o1 \<Rightarrow> (run_time o1 = None \<and> run_time new \<noteq> None) \<or> selected = ''1'')"

definition merge_run :: "string \<times> run_entry \<times> string \<Rightarrow> runtimes \<Rightarrow> runtimes" where
  "merge_run = (\<lambda>(bench, new, selected) results.
     if replaces (map_of results bench) new selected then dset bench new results else results)"

section \<open>The CSV reports\<close>

type_synonym header = "(string, nat) dict"

text \<open>\<open>{name: i for i, name in enumerate(row)}\<close>\<close>

definition header_of :: "string list \<Rightarrow> header" where
  "header_of row = fold (\<lambda>(i, name). dset name i) (enumerate 0 row) []"

text \<open>\<open>row[i] if i is not None and i < len(row)\<close>\<close>

definition column :: "header \<Rightarrow> string list \<Rightarrow> string \<Rightarrow> string option" where
  "column hdr row name = (case map_of hdr name of
      None \<Rightarrow> None
    | Some i \<Rightarrow> if i < length row then Some (row ! i) else None)"

text \<open>\<open>^\d{3}\.\<close>\<close>

definition BENCH_RE :: rx where
  "BENCH_RE = Seqs [Bol, One is_digit, One is_digit, One is_digit, Chr (CHR ''.'')]"

definition stripped_or_empty :: "string option \<Rightarrow> string" where
  "stripped_or_empty v = (case v of None \<Rightarrow> '''' | Some s \<Rightarrow> strip s)"

definition measured_row :: "header \<Rightarrow> string \<Rightarrow> string list \<Rightarrow> string \<times> run_entry \<times> string" where
  "measured_row hdr bench row =
     (let status = stripped_or_empty (column hdr row ''Base Status'');
          selected = stripped_or_empty (column hdr row ''Base Selected'') in
      (bench,
       \<lparr>run_time = numeric (column hdr row ''Est. Base Run Time''),
        run_status = (if status = '''' then ''NR'' else status)\<rparr>,
       selected))"

text \<open>One row of a report; the state is the header last seen and the results so far.\<close>

definition csv_row_step ::
  "(string \<Rightarrow> string) \<Rightarrow> string list \<Rightarrow> header option \<times> runtimes \<Rightarrow> header option \<times> runtimes" where
  "csv_row_step bench_of row = (\<lambda>(header, results).
     if row = [] then (header, results)
     else if hd row = ''Benchmark'' then (Some (header_of row), results)
     else (case header of
         None \<Rightarrow> (header, results)
       | Some hdr \<Rightarrow>
           if startswith (hd row) [CHR 0x22] then (header, results)
           else (let bench = bench_of (hd row) in
             if \<not> re_test BENCH_RE bench then (header, results)
             else (header, merge_run (measured_row hdr bench row) results))))"

definition read_report :: "(string \<Rightarrow> string) \<Rightarrow> string \<Rightarrow> runtimes \<Rightarrow> runtimes" where
  "read_report bench_of text results =
     snd (fold (csv_row_step bench_of) (csv_reader (CHR '','') text) (None, results))"

text \<open>The files a path of the command line stands for: \<open>glob.glob(...) or [path]\<close>, expanded.\<close>

definition expanded_paths :: "machine \<Rightarrow> string \<Rightarrow> string list" where
  "expanded_paths m path =
     (let found = m_glob m (m_expand m path) in
      map (m_expand m) (if found = [] then [path] else found))"

definition runtime_file ::
  "machine \<Rightarrow> (string \<Rightarrow> string \<Rightarrow> runtimes \<Rightarrow> runtimes) \<Rightarrow> string \<Rightarrow> runtimes \<Rightarrow> runtimes res" where
  "runtime_file m reader p results =
     (if \<not> path_exists (m_files m) p then Inr results
      else bindE (read_text (m_files m) p) (\<lambda>text. Inr (reader p text results)))"

definition parse_runtime_csv_spec :: "machine \<Rightarrow> string list \<Rightarrow> runtimes res" where
  "parse_runtime_csv_spec m paths =
     foldE (\<lambda>path. foldE (runtime_file m (\<lambda>_. read_report strip)) (expanded_paths m path)) paths []"

definition parse_runtime_csv_asanmm :: "machine \<Rightarrow> string list \<Rightarrow> runtimes res" where
  "parse_runtime_csv_asanmm m paths =
     foldE (\<lambda>path. foldE (runtime_file m (\<lambda>_. read_report (\<lambda>n. normalize_benchmark_name (Some n))))
       (expanded_paths m path)) paths []"

section \<open>The raw files\<close>

text \<open>\<open>^spec\.cpu2006\.results\.([^.]+)\.(base|peak)\.(\d+)\.([^:]+):\s*(.*)$\<close>\<close>

definition RSF_RE :: rx where
  "RSF_RE = Seqs [Bol, Lit ''spec.cpu2006.results.'', Group 1 (Plus (One (\<lambda>c. c \<noteq> CHR ''.''))), Chr (CHR ''.''),
     Group 2 (Alt (Lit ''base'') (Lit ''peak'')), Chr (CHR ''.''), Group 3 (Plus (One is_digit)), Chr (CHR ''.''),
     Group 4 (Plus (One (\<lambda>c. c \<noteq> CHR '':''))), Chr (CHR '':''), Star (One is_space), Group 5 (Star Dot), Eol]"

definition group_or_empty :: "nat \<Rightarrow> rstate \<Rightarrow> string" where
  "group_or_empty i t = (case group i t of None \<Rightarrow> '''' | Some s \<Rightarrow> s)"

definition rstrip_nl :: "string \<Rightarrow> string" where
  "rstrip_nl s = rev (dropWhile (\<lambda>c. c = NL) (rev s))"

type_synonym raw_rows = "(string, (string, string) dict) dict"

definition rsf_line_step :: "string \<Rightarrow> raw_rows \<Rightarrow> raw_rows" where
  "rsf_line_step line raw = (case re_match RSF_RE (rstrip_nl line) of
      None \<Rightarrow> raw
    | Some t \<Rightarrow>
        (let key = join ''.'' [group_or_empty 1 t, group_or_empty 2 t, group_or_empty 3 t];
             field = group_or_empty 4 t; v = strip (group_or_empty 5 t) in
         dset key (dset field v (dget raw key [])) raw))"

definition rsf_row_step :: "(string, string) dict \<Rightarrow> runtimes \<Rightarrow> runtimes" where
  "rsf_row_step row results =
     (let bench = normalize_benchmark_name (Some (dget row ''benchmark'' '''')) in
      if \<not> re_test BENCH_RE bench then results
      else
        (let status = strip (dget row ''valid'' ''NR'') in
         merge_run (bench,
           \<lparr>run_time = numeric (map_of row ''reported_time''),
            run_status = (if status = '''' then ''NR'' else status)\<rparr>,
           strip (dget row ''selected'' '''')) results))"

definition parse_runtime_rsf :: "string \<Rightarrow> runtimes" where
  "parse_runtime_rsf text =
     fold rsf_row_step (dvalues (fold rsf_line_step (text_lines text) [])) []"

text \<open>\<open>Path.suffix\<close>\<close>

definition path_suffix :: "string \<Rightarrow> string" where
  "path_suffix p =
     (let n = path_name p; ext = takeWhile (\<lambda>c. c \<noteq> CHR ''.'') (rev n); k = length n - length ext - 1 in
      if CHR ''.'' \<in> set n \<and> 0 < k \<and> ext \<noteq> [] then CHR ''.'' # rev ext else '''')"

definition runtime_reader_sanrazor :: "string \<Rightarrow> string \<Rightarrow> runtimes \<Rightarrow> runtimes" where
  "runtime_reader_sanrazor p text results =
     (if path_suffix p = ''.rsf'' then fold (\<lambda>(k, v). dset k v) (parse_runtime_rsf text) results
      else read_report (\<lambda>n. normalize_benchmark_name (Some n)) text results)"

definition parse_runtime_csv_sanrazor :: "machine \<Rightarrow> string list \<Rightarrow> runtimes res" where
  "parse_runtime_csv_sanrazor m paths =
     foldE (\<lambda>path. foldE (runtime_file m runtime_reader_sanrazor) (expanded_paths m path)) paths []"

section \<open>Which run is reported\<close>

text \<open>
  Of the rows of a benchmark, in file order: those from the last selected one on (all of them
  when none is selected); of these the first that has a time, or the first at all.
\<close>

fun from_last_selected :: "(run_entry \<times> string) list \<Rightarrow> (run_entry \<times> string) list" where
  "from_last_selected [] = []"
| "from_last_selected (r # rs) = (if \<exists>q\<in>set rs. snd q = ''1'' then from_last_selected rs else r # rs)"

definition pick_run :: "(run_entry \<times> string) list \<Rightarrow> run_entry option" where
  "pick_run rs = (let candidates = map fst (from_last_selected rs) in
     case find (\<lambda>e. run_time e \<noteq> None) candidates of
       Some e \<Rightarrow> Some e
     | None \<Rightarrow> (case candidates of [] \<Rightarrow> None | e # _ \<Rightarrow> Some e))"

definition keep_or_replace :: "run_entry \<times> string \<Rightarrow> run_entry option \<Rightarrow> run_entry" where
  "keep_or_replace r old = (if replaces old (fst r) (snd r) then fst r else the old)"

lemma from_last_selected_snoc:
  "rs \<noteq> [] \<Longrightarrow> from_last_selected (rs @ [r]) = (if snd r = ''1'' then [r] else from_last_selected rs @ [r])"
proof (induction rs)
  case (Cons q rs)
  then show ?case by (cases "rs = []") auto
qed simp

lemma from_last_selected_nonempty: "rs \<noteq> [] \<Longrightarrow> from_last_selected rs \<noteq> []"
proof (induction rs)
  case (Cons q rs)
  then show ?case by (cases "rs = []") auto
qed simp

lemma pick_run_snoc: "pick_run (rs @ [r]) = Some (keep_or_replace r (pick_run rs))"
proof (cases "rs = []")
  case True
  then show ?thesis by (simp add: pick_run_def keep_or_replace_def replaces_def)
next
  case False
  let ?c = "map fst (from_last_selected rs)"
  from from_last_selected_nonempty [OF False] obtain e es where c: "?c = e # es" by (cases ?c) auto
  have find_snoc: "find P (xs @ [x]) = (case find P xs of Some y \<Rightarrow> Some y | None \<Rightarrow> if P x then Some x else None)"
    for P x and xs :: "run_entry list"
    by (induction xs) auto
  show ?thesis
  proof (cases "find (\<lambda>e. run_time e \<noteq> None) ?c")
    case None
    then have "run_time e = None" unfolding c by (auto split: if_splits)
    with None c False show ?thesis
      by (auto simp: pick_run_def Let_def from_last_selected_snoc find_snoc keep_or_replace_def replaces_def)
  next
    case (Some f)
    then have "run_time f \<noteq> None" by (auto simp: find_Some_iff)
    with Some False show ?thesis
      by (auto simp: pick_run_def Let_def from_last_selected_snoc find_snoc keep_or_replace_def replaces_def)
  qed
qed

lemma fold_keep_or_replace:
  "fold (\<lambda>r v. Some (keep_or_replace r v)) rs None = pick_run rs"
proof (induction rs rule: rev_induct)
  case (snoc r rs)
  then show ?case by (simp add: pick_run_snoc)
qed (simp add: pick_run_def)

interpretation runs: keyed_loop "\<lambda>r d. Inr (merge_run r d)" map_of "\<lambda>r. Some (fst r)"
    "\<lambda>r. keep_or_replace (snd r)"
  by unfold_locales
    (auto simp: merge_run_def keep_or_replace_def dict_simps replaces_def split: prod.splits option.splits if_splits)

section \<open>The runs of a report\<close>

text \<open>The measured rows of a report, without the results they are merged into.\<close>

fun report_runs ::
  "(string \<Rightarrow> string) \<Rightarrow> header option \<Rightarrow> string list list \<Rightarrow> (string \<times> run_entry \<times> string) list" where
  "report_runs bench_of header [] = []"
| "report_runs bench_of header (row # rows) =
     (if row = [] then report_runs bench_of header rows
      else if hd row = ''Benchmark'' then report_runs bench_of (Some (header_of row)) rows
      else (case header of
          None \<Rightarrow> report_runs bench_of header rows
        | Some hdr \<Rightarrow>
            if startswith (hd row) [CHR 0x22] \<or> \<not> re_test BENCH_RE (bench_of (hd row))
            then report_runs bench_of header rows
            else measured_row hdr (bench_of (hd row)) row # report_runs bench_of header rows))"

lemma read_report_runs:
  "snd (fold (csv_row_step bench_of) rows (header, results)) =
   fold merge_run (report_runs bench_of header rows) results"
  by (induction rows arbitrary: header results)
    (auto simp: csv_row_step_def Let_def split: option.splits)

definition text_runs :: "(string \<Rightarrow> string) \<Rightarrow> string \<Rightarrow> (string \<times> run_entry \<times> string) list" where
  "text_runs bench_of text = report_runs bench_of None (csv_reader (CHR '','') text)"

definition file_runs :: "machine \<Rightarrow> (string \<Rightarrow> string) \<Rightarrow> string \<Rightarrow> (string \<times> run_entry \<times> string) list" where
  "file_runs m bench_of p = (case m_files m (path_str p) of
      Some (File t) \<Rightarrow> text_runs bench_of t | _ \<Rightarrow> [])"

definition all_runs :: "machine \<Rightarrow> (string \<Rightarrow> string) \<Rightarrow> string list \<Rightarrow> (string \<times> run_entry \<times> string) list" where
  "all_runs m bench_of paths = concat (map (file_runs m bench_of) (concat (map (expanded_paths m) paths)))"

lemma foldE_concat: "foldE (\<lambda>x. foldE f (g x)) xs s = foldE f (concat (map g xs)) s"
proof (induction xs arbitrary: s)
  case (Cons x xs)
  then have "foldE (\<lambda>x. foldE f (g x)) xs = foldE f (concat (map g xs))" by (rule ext)
  then show ?case by (simp add: foldE_append)
qed simp

lemma runtime_files_runs:
  "foldE (runtime_file m (\<lambda>_. read_report bench_of)) ps d = Inr d' \<Longrightarrow>
   foldE (\<lambda>r d. Inr (merge_run r d)) (concat (map (file_runs m bench_of) ps)) d = Inr d'"
proof (induction ps arbitrary: d)
  case (Cons p ps)
  have pure: "foldE (\<lambda>r d. Inr (merge_run r d)) rs d = Inr (fold merge_run rs d)" for rs d
    by (rule foldE_total) simp
  from Cons show ?case
    by (auto simp: runtime_file_def file_runs_def res_simps pure foldE_append path_exists_def read_text_def
        read_report_def read_report_runs text_runs_def
        split: if_splits option.splits fnode.splits)
qed simp

lemma reported_run:
  assumes "foldE (\<lambda>path. foldE (runtime_file m (\<lambda>_. read_report bench_of)) (expanded_paths m path)) paths [] = Inr results"
  shows "map_of results bench = pick_run (map snd (filter (\<lambda>r. fst r = bench) (all_runs m bench_of paths)))"
proof -
  from assms have "foldE (\<lambda>r d. Inr (merge_run r d)) (all_runs m bench_of paths) [] = Inr results"
    unfolding foldE_concat all_runs_def by (rule runtime_files_runs)
  from runs.loop_look [OF this, of bench] show ?thesis
    by (simp add: fold_map comp_def flip: fold_keep_or_replace)
qed

section \<open>Every time is a binary64 value\<close>

definition times_ok :: "runtimes \<Rightarrow> bool" where
  "times_ok results \<longleftrightarrow> (\<forall>(b, e)\<in>set results. \<forall>x\<in>set_option (run_time e). binary64 x)"

lemma times_ok_empty [simp]: "times_ok []"
  by (simp add: times_ok_def)

lemma times_ok_dset: "times_ok d \<Longrightarrow> \<forall>x\<in>set_option (run_time e). binary64 x \<Longrightarrow> times_ok (dset b e d)"
  by (auto simp: times_ok_def dest: update_elem)

lemma times_ok_merge:
  "times_ok d \<Longrightarrow> \<forall>x\<in>set_option (run_time (fst (snd r))). binary64 x \<Longrightarrow> times_ok (merge_run r d)"
  by (auto simp: merge_run_def times_ok_dset split: prod.splits)

lemma numeric_ok: "\<forall>x\<in>set_option (numeric v). binary64 x"
  by (cases "numeric v") (auto dest: numeric_binary64)

lemma report_runs_ok:
  "r \<in> set (report_runs f h rows) \<Longrightarrow> \<forall>x\<in>set_option (run_time (fst (snd r))). binary64 x"
  by (induction f h rows rule: report_runs.induct)
    (auto simp: measured_row_def Let_def dest: numeric_binary64 split: if_splits option.splits)

lemma fold_merge_ok:
  "times_ok d \<Longrightarrow> \<forall>r\<in>set rs. \<forall>x\<in>set_option (run_time (fst (snd r))). binary64 x \<Longrightarrow>
   times_ok (fold merge_run rs d)"
proof (induction rs arbitrary: d)
  case (Cons r rs)
  then have "times_ok (merge_run r d)" by (intro times_ok_merge) simp_all
  with Cons show ?case by simp
qed simp

lemma read_report_ok: "times_ok d \<Longrightarrow> times_ok (read_report f text d)"
  unfolding read_report_def read_report_runs by (intro fold_merge_ok ballI) (auto dest: report_runs_ok)

lemma rsf_ok: "times_ok (parse_runtime_rsf text)"
proof -
  have "times_ok (rsf_row_step row d)" if "times_ok d" for row d
    using that numeric_ok by (auto simp: rsf_row_step_def Let_def intro!: times_ok_merge)
  then have "times_ok (fold rsf_row_step rows d)" if "times_ok d" for rows d
    using that by (induction rows arbitrary: d) auto
  then show ?thesis by (simp add: parse_runtime_rsf_def)
qed

lemma times_ok_update: "times_ok d \<Longrightarrow> times_ok e \<Longrightarrow> times_ok (fold (\<lambda>(k, v). dset k v) e d)"
proof (induction e arbitrary: d)
  case (Cons p e)
  obtain k v where p: "p = (k, v)" by force
  with Cons.prems(2) have "\<forall>x\<in>set_option (run_time v). binary64 x" "times_ok e"
    by (simp_all add: times_ok_def)
  moreover from this Cons.prems(1) have "times_ok (dset k v d)" by (intro times_ok_dset)
  ultimately show ?case using Cons.IH by (simp add: p)
qed simp

lemma reader_sanrazor_ok: "times_ok d \<Longrightarrow> times_ok (runtime_reader_sanrazor p text d)"
  by (simp add: runtime_reader_sanrazor_def times_ok_update rsf_ok read_report_ok)

lemma runtime_files_ok:
  assumes "foldE (\<lambda>path. foldE (runtime_file m reader) (expanded_paths m path)) paths [] = Inr results"
    and "\<And>p text d. times_ok d \<Longrightarrow> times_ok (reader p text d)"
  shows "times_ok results"
  using assms(1) unfolding foldE_concat
  by (rule foldE_invariant) (auto simp: runtime_file_def res_simps assms(2) split: if_splits)

lemma runtime_files_errors:
  assumes "foldE (\<lambda>path. foldE (runtime_file m reader) (expanded_paths m path)) paths d = Inl e"
  shows "e = IsADirectoryError"
  using assms unfolding foldE_concat
  by (auto dest!: foldE_Inl_cases dest: read_text_cases simp: runtime_file_def res_simps split: if_splits)

lemma times_ok_get: "times_ok d \<Longrightarrow> map_of d b = Some e \<Longrightarrow> \<forall>x\<in>set_option (run_time e). binary64 x"
  by (auto simp: times_ok_def dest: map_of_SomeD)

section \<open>Properties\<close>

text \<open>
  C6: of all measured rows of a benchmark, over all report files in order, the script reports
  the run that \<open>pick_run\<close> describes: the rows before the last selected one do not count, and
  of the others it is the first with a time, or the first at all. This holds of the SPEC
  reader of the DESAN script and of the one of the ASAN-- script.
\<close>

theorem spec_reported_run:
  assumes "parse_runtime_csv_spec m paths = Inr results" "parse_runtime_csv_asanmm m paths = Inr results'"
  shows "map_of results bench =
      pick_run (map snd (filter (\<lambda>r. fst r = bench) (all_runs m strip paths))) \<and>
    map_of results' bench = pick_run (map snd (filter (\<lambda>r. fst r = bench)
      (all_runs m (\<lambda>n. normalize_benchmark_name (Some n)) paths)))"
  using assms reported_run unfolding parse_runtime_csv_spec_def parse_runtime_csv_asanmm_def by blast

definition demo_report :: string where
  "demo_report = join [NL] (map (join '','') [[''Benchmark'', ''Est. Base Run Time'', ''Base Status'', ''Base Selected''],
     [''401.bzip2'', ''12.5'', ''S'', ''0''], [''401.bzip2'', ''12.25'', ''S'', ''1''], [''401.bzip2'', ''13'', ''S'', ''0'']]) @ [NL]"

definition demo_runs_machine :: machine where
  "demo_runs_machine = \<lparr>m_files = (\<lambda>p. if p = ''t.csv'' then Some (File demo_report) else None),
     m_expand = (\<lambda>p. p), m_glob = (\<lambda>p. [])\<rparr>"

theorem spec_reported_run_witness:
  "map_of [(''401.bzip2'', \<lparr>run_time = Some (Fin (49 / 4)), run_status = ''S''\<rparr>)] ''401.bzip2'' =
     pick_run (map snd (filter (\<lambda>r. fst r = ''401.bzip2'') (all_runs demo_runs_machine strip [''t.csv''])))"
proof -
  have "parse_runtime_csv_spec demo_runs_machine [''t.csv''] =
      Inr [(''401.bzip2'', \<lparr>run_time = Some (Fin (49 / 4)), run_status = ''S''\<rparr>)]"
    "parse_runtime_csv_asanmm demo_runs_machine [''t.csv''] =
      Inr [(''401.bzip2'', \<lparr>run_time = Some (Fin (49 / 4)), run_status = ''S''\<rparr>)]"
    by code_simp+
  from spec_reported_run [OF this, of "''401.bzip2''"] show ?thesis by blast
qed

end
