(* ===== verification/OssRuntime.thy ===== *)
theory OssRuntime
  imports Overhead PyCsv
begin

text \<open>
  The run times of the open-source projects: \<open>parse_runtime_csv\<close> and \<open>summarize_runtime\<close> of
  \<open>scripts/opensource_summary.py\<close> (\<open>scripts/opensource_asanmm_summary.py\<close> has the same text)
  with the \<open>statistics.mean\<close> they call. Every run of a variant is kept; the time of a
  variant is the mean of its successful runs, computed exactly and rounded once.
\<close>

section \<open>statistics.mean\<close>

text \<open>
  Finite values are added as exact fractions and the quotient is rounded once; as soon as an
  infinity or a NaN is among them, only those are added (as floats).
\<close>

definition py_mean :: "pyfloat list \<Rightarrow> pyfloat res" where
  "py_mean xs =
     (if xs = [] then Inl ValueError
      else (let specials = filter (\<lambda>x. \<not> is_finite x) xs in
        if specials \<noteq> [] then fdiv (foldl (+) (Fin 0) specials) (Fin (of_nat (length xs)))
        else (let q = of_exact False ((\<Sum>x\<leftarrow>xs. fval x) / of_nat (length xs)) in
          if is_finite q then Inr q else Inl OverflowError)))"

section \<open>The runs\<close>

type_synonym variant_runs = "(string option, (string option \<times> pyfloat option) list) dict"

definition add_run :: "csv_dict \<Rightarrow> variant_runs \<Rightarrow> variant_runs" where
  "add_run row runs =
     (let variant = row_get_or row ''Variant'' ''''; status = row_get_or row ''Status'' '''';
          seconds = numeric (row_get row ''Seconds'') in
      dset variant (dget runs variant [] @ [(status, seconds)]) runs)"

definition parse_runtime_csv_oss :: "files \<Rightarrow> string \<Rightarrow> variant_runs res" where
  "parse_runtime_csv_oss fs path =
     (if \<not> path_exists fs path then Inr []
      else bindE (read_text fs path) (\<lambda>text. Inr (fold add_run (dict_reader (CHR '','') text) [])))"

definition good_times :: "variant_runs \<Rightarrow> string \<Rightarrow> pyfloat list" where
  "good_times runs variant =
     concat (map (\<lambda>(status, seconds). case seconds of
         None \<Rightarrow> [] | Some x \<Rightarrow> if status = Some ''S'' then [x] else [])
       (dget runs (Some variant) []))"

definition summarize_runtime :: "variant_runs \<Rightarrow> string \<Rightarrow> (pyfloat option \<times> string) res" where
  "summarize_runtime runs variant =
     (let xs = good_times runs variant in
      if xs = [] then Inr (None, ''NR'')
      else bindE (py_mean xs) (\<lambda>mean. Inr (Some mean, ''S'')))"

section \<open>The mean lies between its arguments\<close>

lemma mean_between:
  fixes lo hi :: rat
  assumes "xs \<noteq> []" "\<And>x. x \<in> set xs \<Longrightarrow> lo \<le> x \<and> x \<le> hi"
  shows "lo \<le> sum_list xs / of_nat (length xs)" "sum_list xs / of_nat (length xs) \<le> hi"
proof -
  have "of_nat (length xs) * lo \<le> sum_list xs \<and> sum_list xs \<le> of_nat (length xs) * hi"
    using assms(2) by (induction xs) (force simp: algebra_simps)+
  moreover have "0 < (of_nat (length xs) :: rat)" using assms(1) by simp
  ultimately show "lo \<le> sum_list xs / of_nat (length xs)" "sum_list xs / of_nat (length xs) \<le> hi"
    by (simp_all add: field_simps)
qed

lemma py_mean_bounds:
  assumes "xs \<noteq> []" "\<And>x. x \<in> set xs \<Longrightarrow> is_finite x \<and> lo \<le> x \<and> x \<le> hi"
    and "is_finite lo" "is_finite hi" "binary64 lo" "binary64 hi"
  shows "\<exists>q. py_mean xs = Inr q \<and> is_finite q \<and> lo \<le> q \<and> q \<le> hi"
proof -
  let ?m = "(\<Sum>x\<leftarrow>xs. fval x) / of_nat (length xs)"
  have b: "fval lo \<le> ?m" "?m \<le> fval hi"
  proof -
    have "fval lo \<le> fval x \<and> fval x \<le> fval hi" if "x \<in> set xs" for x
      using assms(2) [OF that] assms(3,4) by (metis finite_less_eq_iff)
    then have "fval lo \<le> y \<and> y \<le> fval hi" if "y \<in> set (map fval xs)" for y
      using that by auto
    with assms(1) mean_between [of "map fval xs" "fval lo" "fval hi"]
    show "fval lo \<le> ?m" "?m \<le> fval hi" by simp_all
  qed
  have rl: "rnd (fval lo) = fval lo" "rnd (fval hi) = fval hi"
    using assms(3-6) by (simp_all add: binary64_rnd)
  have "\<bar>fval lo\<bar> < two_pow 1024" "\<bar>fval hi\<bar> < two_pow 1024"
    using assms(3-6) by (cases lo; cases hi; simp)+
  then have bd: "\<bar>rnd ?m\<bar> < two_pow 1024"
    using rnd_mono [OF b(1)] rnd_mono [OF b(2)] rl by linarith
  from of_exact_finite [OF bd, of False] have q: "is_finite (of_exact False ?m)" "fval (of_exact False ?m) = rnd ?m"
    by auto
  have "filter (\<lambda>x. \<not> is_finite x) xs = []" using assms(2) by (auto simp: filter_empty_conv)
  then have "py_mean xs = Inr (of_exact False ?m)" using assms(1) q(1) by (simp add: py_mean_def Let_def)
  moreover have "lo \<le> of_exact False ?m" "of_exact False ?m \<le> hi"
    using rnd_mono [OF b(1)] rnd_mono [OF b(2)] rl q assms(3,4) by (simp_all add: float_simps)
  ultimately show ?thesis using q(1) by blast
qed

lemma py_mean_finite:
  assumes "xs \<noteq> []" "\<forall>x\<in>set xs. is_finite x \<and> binary64 x"
  obtains q where "py_mean xs = Inr q" "is_finite q" "binary64 q"
proof -
  have "\<exists>lo hi. lo \<in> set xs \<and> hi \<in> set xs \<and> (\<forall>x\<in>set xs. fval lo \<le> fval x \<and> fval x \<le> fval hi)"
    using assms(1)
  proof (induction xs rule: list_nonempty_induct)
    case (single x)
    then show ?case by auto
  next
    case (cons x xs)
    then obtain lo hi where h: "lo \<in> set xs" "hi \<in> set xs" "\<forall>y\<in>set xs. fval lo \<le> fval y \<and> fval y \<le> fval hi"
      by blast
    then show ?case
      by (intro exI [of _ "if fval x \<le> fval lo then x else lo"] exI [of _ "if fval hi \<le> fval x then x else hi"])
        force
  qed
  then obtain lo hi where h: "lo \<in> set xs" "hi \<in> set xs" "\<forall>x\<in>set xs. fval lo \<le> fval x \<and> fval x \<le> fval hi"
    by blast
  with assms py_mean_bounds [of xs lo hi] obtain q where q: "py_mean xs = Inr q" "is_finite q"
    by (auto simp: float_simps)
  moreover have "binary64 q"
    using q assms(2) of_exact_binary64
    by (auto simp: py_mean_def Let_def filter_empty_conv split: if_splits)
  ultimately show ?thesis by (rule that)
qed

lemma py_mean_special:
  assumes "xs \<noteq> []" "\<forall>x\<in>set xs. binary64 x" "\<exists>x\<in>set xs. \<not> is_finite x"
  shows "\<exists>q. py_mean xs = Inr q \<and> binary64 q"
proof -
  have "\<not> is_zero (Fin (of_nat (length xs)))" using assms(1) by (simp add: is_zero_def)
  then obtain q where "fdiv (foldl (+) (Fin 0) (filter (\<lambda>x. \<not> is_finite x) xs)) (Fin (of_nat (length xs))) = Inr q"
    by (auto simp: fdiv_def)
  then show ?thesis
    using assms by (auto simp: py_mean_def Let_def filter_empty_conv intro: binary64_fdiv)
qed

lemma py_mean_total:
  assumes "xs \<noteq> []" "\<forall>x\<in>set xs. binary64 x"
  obtains q where "py_mean xs = Inr q" "binary64 q"
  using assms py_mean_finite [OF assms(1)] py_mean_special [OF assms] by blast

section \<open>The runs of a variant\<close>

lemma add_run_look:
  "dget (add_run row runs) v [] = dget runs v [] @
     (if row_get_or row ''Variant'' '''' = v
      then [(row_get_or row ''Status'' '''', numeric (row_get row ''Seconds''))] else [])"
  by (auto simp: add_run_def Let_def dget_def dict_simps)

lemma add_runs_look:
  "dget (fold add_run rows runs) v [] = dget runs v [] @
     map (\<lambda>row. (row_get_or row ''Status'' '''', numeric (row_get row ''Seconds'')))
       (filter (\<lambda>row. row_get_or row ''Variant'' '''' = v) rows)"
  by (induction rows arbitrary: runs) (auto simp: add_run_look)

lemma good_times_binary64:
  assumes "parse_runtime_csv_oss fs path = Inr runs"
  shows "\<forall>x\<in>set (good_times runs variant). binary64 x"
proof -
  have "\<forall>x\<in>set (good_times (fold add_run rows []) variant). binary64 x" for rows
    unfolding good_times_def add_runs_look
    by (auto simp: dget_def dest: numeric_binary64 [OF sym] split: option.splits if_splits)
  moreover have "good_times [] variant = []" by (simp add: good_times_def dget_def)
  ultimately show ?thesis
    using assms by (auto simp: parse_runtime_csv_oss_def res_simps split: if_splits)
qed

lemma summarize_total:
  assumes "parse_runtime_csv_oss fs path = Inr runs"
  obtains t s where "summarize_runtime runs variant = Inr (t, s)" "\<forall>x\<in>set_option t. binary64 x"
    "t = None \<longleftrightarrow> s = ''NR''" "s = ''S'' \<or> s = ''NR''"
proof (cases "good_times runs variant = []")
  case True
  then show ?thesis by (intro that [of None "''NR''"]) (simp_all add: summarize_runtime_def Let_def)
next
  case False
  from py_mean_total [OF False good_times_binary64 [OF assms]] obtain q
    where "py_mean (good_times runs variant) = Inr q" "binary64 q" .
  with False show ?thesis by (intro that [of "Some q" "''S''"]) (simp_all add: summarize_runtime_def Let_def)
qed

lemma good_times_rows:
  "good_times (fold add_run rows []) variant =
     List.map_filter (\<lambda>row. if row_get_or row ''Variant'' '''' = Some variant \<and> row_get_or row ''Status'' '''' = Some ''S''
        then numeric (row_get row ''Seconds'') else None) rows"
  unfolding good_times_def add_runs_look
  by (induction rows) (auto simp: dget_def map_filter_simps split: option.splits)

section \<open>Properties\<close>


definition demo_runtimes :: string where
  "demo_runtimes = join [NL] (map (join '','') [[''Variant'', ''Run'', ''Seconds'', ''Status''],
     [''native'', ''1'', ''1.5'', ''S''], [''native'', ''2'', ''2.5'', ''S''], [''native'', ''3'', ''9'', ''F''],
     [''desan'', ''1'', ''x'', ''S'']]) @ [NL]"


end
