(* ===== verification/DesanSummary.thy ===== *)
theory DesanSummary
  imports SpecRuntime OssRuntime
begin

text \<open>
  The \<open>main\<close> of \<open>scripts/spec_asan_summary.py\<close> (one table row per SPEC benchmark) and of
  \<open>scripts/opensource_summary.py\<close> (one row for one project): counts and times joined by
  benchmark, the derived ratios, the rows of the CSV file and the lines of the Markdown table.
  The model of a script returns its rows, what it writes to the CSV file (nothing without
  \<open>--csv-out\<close>) and the lines it prints.
\<close>

section \<open>Rows\<close>

record summary_row =
  sr_suite :: string
  sr_bench :: string
  sr_units :: int
  sr_fallback :: int
  sr_checks :: int
  sr_core :: int
  sr_core_ratio :: "pyfloat option"
  sr_removed :: int
  sr_removed_ratio :: "pyfloat option"
  sr_removed_core_ratio :: "pyfloat option"
  sr_native :: "pyfloat option"
  sr_before :: "pyfloat option"
  sr_after :: "pyfloat option"
  sr_sanitizer_overhead :: "pyfloat option"
  sr_desan_overhead :: "pyfloat option"
  sr_reduction :: "pyfloat option"
  sr_native_status :: string
  sr_before_status :: string
  sr_after_status :: string

text \<open>The cells of a CSV row: what the \<open>dict\<close> of the script holds under each column.\<close>

datatype cell = IntCell int | FloatCell "pyfloat option" | StrCell string

definition summary_cells :: "summary_row \<Rightarrow> (string, cell) dict" where
  "summary_cells r =
    [(''Suite'', StrCell (sr_suite r)),
     (''Benchmark'', StrCell (sr_bench r)),
     (''Compile Units'', IntCell (sr_units r)),
     (''Fallback Units'', IntCell (sr_fallback r)),
     (''Original Checks'', IntCell (sr_checks r)),
     (''Core Checks'', IntCell (sr_core r)),
     (''Core / All'', FloatCell (sr_core_ratio r)),
     (''Removed Checks'', IntCell (sr_removed r)),
     (''Removed / All'', FloatCell (sr_removed_ratio r)),
     (''Removed / Core'', FloatCell (sr_removed_core_ratio r)),
     (''Runtime Native'', FloatCell (sr_native r)),
     (''Runtime Before'', FloatCell (sr_before r)),
     (''Runtime After'', FloatCell (sr_after r)),
     (''Sanitizer Overhead %'', FloatCell (sr_sanitizer_overhead r)),
     (''DESAN Overhead %'', FloatCell (sr_desan_overhead r)),
     (''Overhead Reduction %'', FloatCell (sr_reduction r)),
     (''Native Status'', StrCell (sr_native_status r)),
     (''Before Status'', StrCell (sr_before_status r)),
     (''After Status'', StrCell (sr_after_status r))]"

definition summary_headers :: "string list" where
  "summary_headers = [''Benchmark'', ''Orig Checks'', ''Core'', ''Core/All'', ''Removed'', ''Removed/All'',
     ''Removed/Core'', ''Native(s)'', ''Before(s)'', ''After(s)'', ''Sanitizer Overhead'', ''DESAN Overhead'',
     ''Overhead Reduction'', ''Status'']"

definition summary_line :: "summary_row \<Rightarrow> string" where
  "summary_line r = table_line
    [sr_bench r, fmt_int (sr_checks r), fmt_int (sr_core r), fmt_pct (sr_core_ratio r), fmt_int (sr_removed r),
     fmt_pct (sr_removed_ratio r), fmt_pct (sr_removed_core_ratio r), fmt_float (sr_native r),
     fmt_float (sr_before r), fmt_float (sr_after r), fmt_pct (sr_sanitizer_overhead r),
     fmt_pct (sr_desan_overhead r), fmt_pct (sr_reduction r),
     sr_native_status r @ ''->'' @ sr_before_status r @ ''->'' @ sr_after_status r]"

definition summary_table :: "summary_row list \<Rightarrow> string list" where
  "summary_table rows =
     table_line summary_headers # table_rule (length summary_headers) # map summary_line rows"

record 'a report =
  rp_rows :: "'a list"
  rp_csv :: "(string, cell) dict list option"
  rp_lines :: "string list"

section \<open>spec_asan_summary.py\<close>

record spec_args =
  sa_records :: "string list"
  sa_native_csv :: "string list"
  sa_before_csv :: "string list"
  sa_after_csv :: "string list"
  sa_suite :: string
  sa_csv_out :: string
  sa_core_prefix :: "string list"

text \<open>\<open>d.get(bench, {}).get("time")\<close> and \<open>d.get(bench, {}).get("status", "NR")\<close>\<close>

definition time_of :: "runtimes \<Rightarrow> string \<Rightarrow> pyfloat option" where
  "time_of d bench = (case map_of d bench of None \<Rightarrow> None | Some e \<Rightarrow> run_time e)"

definition status_of :: "runtimes \<Rightarrow> string \<Rightarrow> string" where
  "status_of d bench = (case map_of d bench of None \<Rightarrow> ''NR'' | Some e \<Rightarrow> run_status e)"

text \<open>The row of a benchmark, from its counts and its three times and statuses.\<close>

definition spec_row ::
  "string \<Rightarrow> string \<Rightarrow> unit_counts \<Rightarrow> pyfloat option \<times> string \<Rightarrow> pyfloat option \<times> string \<Rightarrow>
   pyfloat option \<times> string \<Rightarrow> summary_row res" where
  "spec_row suite bench c native before after =
     (let (native_time, native_status) = native; (before_time, before_status) = before;
          (after_time, after_status) = after;
          total_ck = unit_checks c; core_ck = unit_core c; removed = unit_removed c in
      bindE (compute_overhead_metrics native_status before_status after_status native_time before_time after_time)
        (\<lambda>(sanitizer_overhead, desan_overhead, overhead_reduction).
      bindE (ratio_or_none core_ck total_ck) (\<lambda>core_ratio.
      bindE (ratio_or_none removed total_ck) (\<lambda>removal_ratio.
      bindE (ratio_or_none removed core_ck) (\<lambda>core_removal_ratio.
      Inr \<lparr>sr_suite = suite, sr_bench = bench, sr_units = compile_units c, sr_fallback = fallback_units c,
        sr_checks = total_ck, sr_core = core_ck, sr_core_ratio = core_ratio, sr_removed = removed,
        sr_removed_ratio = removal_ratio, sr_removed_core_ratio = core_removal_ratio,
        sr_native = native_time, sr_before = before_time, sr_after = after_time,
        sr_sanitizer_overhead = sanitizer_overhead, sr_desan_overhead = desan_overhead,
        sr_reduction = overhead_reduction, sr_native_status = native_status,
        sr_before_status = before_status, sr_after_status = after_status\<rparr>)))))"

definition spec_benches :: "(string, unit_counts) dict \<Rightarrow> runtimes \<Rightarrow> runtimes \<Rightarrow> runtimes \<Rightarrow> string list" where
  "spec_benches counts native before after =
     sort (remdups (dkeys counts @ dkeys native @ dkeys before @ dkeys after))"

definition spec_bench_rows ::
  "string \<Rightarrow> (string, unit_counts) dict \<Rightarrow> runtimes \<Rightarrow> runtimes \<Rightarrow> runtimes \<Rightarrow> string \<Rightarrow> summary_row list res" where
  "spec_bench_rows suite counts native before after bench =
     (let c = dget counts bench zero_counts in
      if compile_units c = 0 \<and> status_of native bench = ''NR'' \<and> status_of before bench = ''NR'' \<and>
         status_of after bench = ''NR''
      then Inr []
      else bindE (spec_row suite bench c (time_of native bench, status_of native bench)
             (time_of before bench, status_of before bench) (time_of after bench, status_of after bench))
           (\<lambda>r. Inr [r]))"

definition spec_main :: "machine \<Rightarrow> spec_args \<Rightarrow> summary_row report res" where
  "spec_main m args =
     (let core_prefixes = (if sa_core_prefix args = [] then DEFAULT_CORE_PREFIXES else sa_core_prefix args) in
      bindE (parse_records_spec m (sa_records args) core_prefixes) (\<lambda>counts.
      bindE (parse_runtime_csv_spec m (sa_native_csv args)) (\<lambda>native.
      bindE (parse_runtime_csv_spec m (sa_before_csv args)) (\<lambda>before.
      bindE (parse_runtime_csv_spec m (sa_after_csv args)) (\<lambda>after.
      bindE (mapE (spec_bench_rows (sa_suite args) counts native before after)
               (spec_benches counts native before after)) (\<lambda>rowss.
      let rows = concat rowss in
      Inr \<lparr>rp_rows = rows,
           rp_csv = (if sa_csv_out args = '''' then None else Some (map summary_cells rows)),
           rp_lines = summary_table rows\<rparr>))))))"

section \<open>opensource_summary.py\<close>

record oss_args =
  oa_suite :: string
  oa_benchmark :: string
  oa_records :: string
  oa_runtime_csv :: string
  oa_csv_out :: string
  oa_core_prefix :: "string list"
  oa_before_variant :: string
  oa_after_variant :: string

text \<open>The same row, computed in the order of this script: the ratios first.\<close>

definition oss_row ::
  "string \<Rightarrow> string \<Rightarrow> unit_counts \<Rightarrow> pyfloat option \<times> string \<Rightarrow> pyfloat option \<times> string \<Rightarrow>
   pyfloat option \<times> string \<Rightarrow> summary_row res" where
  "oss_row suite bench counts native before after =
     (let (native_time, native_status) = native; (before_time, before_status) = before;
          (after_time, after_status) = after;
          tot = unit_checks counts; cor = unit_core counts; removed = unit_removed counts in
      bindE (ratio_or_none cor tot) (\<lambda>core_ratio.
      bindE (ratio_or_none removed tot) (\<lambda>removed_ratio.
      bindE (ratio_or_none removed cor) (\<lambda>removed_core_ratio.
      bindE (compute_overhead_metrics native_status before_status after_status native_time before_time after_time)
        (\<lambda>(sanitizer_overhead, desan_overhead, overhead_reduction).
      Inr \<lparr>sr_suite = suite, sr_bench = bench, sr_units = compile_units counts,
        sr_fallback = fallback_units counts, sr_checks = tot, sr_core = cor, sr_core_ratio = core_ratio,
        sr_removed = removed, sr_removed_ratio = removed_ratio, sr_removed_core_ratio = removed_core_ratio,
        sr_native = native_time, sr_before = before_time, sr_after = after_time,
        sr_sanitizer_overhead = sanitizer_overhead, sr_desan_overhead = desan_overhead,
        sr_reduction = overhead_reduction, sr_native_status = native_status,
        sr_before_status = before_status, sr_after_status = after_status\<rparr>)))))"

definition oss_main :: "files \<Rightarrow> oss_args \<Rightarrow> summary_row report res" where
  "oss_main fs args =
     (let core_prefixes = (if oa_core_prefix args = [] then DEFAULT_CORE_PREFIXES else oa_core_prefix args) in
      bindE (parse_records_oss fs (oa_records args) (oa_benchmark args) core_prefixes) (\<lambda>counts.
      bindE (parse_runtime_csv_oss fs (oa_runtime_csv args)) (\<lambda>runtimes.
      bindE (summarize_runtime runtimes ''native'') (\<lambda>native.
      bindE (summarize_runtime runtimes (oa_before_variant args)) (\<lambda>before.
      bindE (summarize_runtime runtimes (oa_after_variant args)) (\<lambda>after.
      bindE (oss_row (oa_suite args) (oa_benchmark args) counts native before after) (\<lambda>row.
      Inr \<lparr>rp_rows = [row],
           rp_csv = (if oa_csv_out args = '''' then None else Some [summary_cells row]),
           rp_lines = summary_table [row]\<rparr>)))))))"

section \<open>Rows\<close>

lemma spec_row_cases:
  assumes "spec_row suite bench c (nt, ns) (bt, bs) (ta, as) = Inr r"
  obtains s d q x y z where
    "compute_overhead_metrics ns bs as nt bt ta = Inr (s, d, q)"
    "ratio_or_none (unit_core c) (unit_checks c) = Inr x"
    "ratio_or_none (unit_removed c) (unit_checks c) = Inr y"
    "ratio_or_none (unit_removed c) (unit_core c) = Inr z"
    "r = \<lparr>sr_suite = suite, sr_bench = bench, sr_units = compile_units c, sr_fallback = fallback_units c,
        sr_checks = unit_checks c, sr_core = unit_core c, sr_core_ratio = x, sr_removed = unit_removed c,
        sr_removed_ratio = y, sr_removed_core_ratio = z, sr_native = nt, sr_before = bt, sr_after = ta,
        sr_sanitizer_overhead = s, sr_desan_overhead = d, sr_reduction = q, sr_native_status = ns,
        sr_before_status = bs, sr_after_status = as\<rparr>"
  using assms by (auto simp: spec_row_def Let_def res_simps)

lemma spec_row_exn:
  assumes "spec_row suite bench c (nt, ns) (bt, bs) (ta, as) = Inl e"
    and "\<forall>x\<in>set_option nt. binary64 x" "\<forall>x\<in>set_option bt. binary64 x"
  shows "e = OverflowError"
  using assms(1) desan.metrics_total [OF assms(2,3), of ns bs as ta]
  by (auto simp: spec_row_def Let_def res_simps dest: ratio_or_none_exn)

lemma oss_row_exn:
  assumes "oss_row suite bench c (nt, ns) (bt, bs) (ta, as) = Inl e"
    and "\<forall>x\<in>set_option nt. binary64 x" "\<forall>x\<in>set_option bt. binary64 x"
  shows "e = OverflowError"
  using assms(1) desan.metrics_total [OF assms(2,3), of ns bs as ta]
  by (auto simp: oss_row_def Let_def res_simps dest: ratio_or_none_exn)

lemma time_of_binary64: "times_ok d \<Longrightarrow> \<forall>x\<in>set_option (time_of d b). binary64 x"
  by (auto simp: time_of_def dest: times_ok_get split: option.splits)

lemma parse_spec_ok: "parse_runtime_csv_spec m paths = Inr d \<Longrightarrow> times_ok d"
  unfolding parse_runtime_csv_spec_def by (erule runtime_files_ok) (rule read_report_ok)

lemma parse_spec_exn: "parse_runtime_csv_spec m paths = Inl e \<Longrightarrow> e = IsADirectoryError"
  unfolding parse_runtime_csv_spec_def by (rule runtime_files_errors)

section \<open>The loop over the benchmarks\<close>

definition spec_reported :: "(string, unit_counts) dict \<Rightarrow> runtimes \<Rightarrow> runtimes \<Rightarrow> runtimes \<Rightarrow> string \<Rightarrow> bool" where
  "spec_reported counts native before after b \<longleftrightarrow>
     compile_units (dget counts b zero_counts) \<noteq> 0 \<or> status_of native b \<noteq> ''NR'' \<or>
     status_of before b \<noteq> ''NR'' \<or> status_of after b \<noteq> ''NR''"

lemma spec_bench_rows_cases:
  assumes "spec_bench_rows suite counts native before after b = Inr rs"
  shows "if spec_reported counts native before after b
    then \<exists>r. rs = [r] \<and> spec_row suite b (dget counts b zero_counts) (time_of native b, status_of native b)
      (time_of before b, status_of before b) (time_of after b, status_of after b) = Inr r
    else rs = []"
  using assms by (auto simp: spec_bench_rows_def spec_reported_def Let_def res_simps split: if_splits)

lemma spec_rows_benches:
  assumes "mapE (spec_bench_rows suite counts native before after) bs = Inr rss"
  shows "map sr_bench (concat rss) = filter (spec_reported counts native before after) bs"
  using assms
proof (induction bs arbitrary: rss)
  case (Cons b bs)
  then obtain rs rss' where h: "spec_bench_rows suite counts native before after b = Inr rs"
    "mapE (spec_bench_rows suite counts native before after) bs = Inr rss'" "rss = rs # rss'"
    by (auto simp: res_simps)
  have "map sr_bench rs = filter (spec_reported counts native before after) [b]"
    using spec_bench_rows_cases [OF h(1)] by (auto elim!: spec_row_cases split: if_splits)
  with Cons.IH [OF h(2)] h(3) show ?case by simp
qed simp

lemma reported_listed:
  assumes "spec_reported counts native before after b"
  shows "b \<in> set (spec_benches counts native before after)"
proof (rule ccontr)
  assume "b \<notin> set (spec_benches counts native before after)"
  then have n: "map_of counts b = None" "map_of native b = None" "map_of before b = None" "map_of after b = None"
    by (auto simp: spec_benches_def map_of_eq_None_iff)
  then have "compile_units (dget counts b zero_counts) = 0"
    by (simp add: dget_def zero_unit_counts_ext_def)
  with n assms show False by (simp add: spec_reported_def status_of_def)
qed

section \<open>Properties\<close>

text \<open>
  C4: the SPEC summary has exactly one row for every benchmark that was compiled or run (one
  with a compile unit or a status other than NR in some report), in strictly increasing order of
  the names, one table line per row after the two header lines, and the same rows in the CSV
  file when one is asked for.
\<close>

theorem spec_main_rows:
  assumes "spec_main m args = Inr rp"
    and "parse_records_spec m (sa_records args)
      (if sa_core_prefix args = [] then DEFAULT_CORE_PREFIXES else sa_core_prefix args) = Inr counts"
    and "parse_runtime_csv_spec m (sa_native_csv args) = Inr native"
    and "parse_runtime_csv_spec m (sa_before_csv args) = Inr before"
    and "parse_runtime_csv_spec m (sa_after_csv args) = Inr after"
  shows "sorted_wrt (<) (map sr_bench (rp_rows rp)) \<and>
    set (map sr_bench (rp_rows rp)) = {b. spec_reported counts native before after b} \<and>
    length (rp_lines rp) = 2 + length (rp_rows rp) \<and>
    (sa_csv_out args \<noteq> '''' \<longrightarrow> rp_csv rp = Some (map summary_cells (rp_rows rp)))"
proof -
  let ?bs = "spec_benches counts native before after"
  from assms obtain rss where m: "mapE (spec_bench_rows (sa_suite args) counts native before after) ?bs = Inr rss"
    and rp: "rp = \<lparr>rp_rows = concat rss, rp_csv = (if sa_csv_out args = '''' then None
        else Some (map summary_cells (concat rss))), rp_lines = summary_table (concat rss)\<rparr>"
    by (auto simp: spec_main_def Let_def res_simps)
  have b: "map sr_bench (rp_rows rp) = filter (spec_reported counts native before after) ?bs"
    using spec_rows_benches [OF m] by (simp add: rp)
  have "sorted_wrt (<) ?bs" by (simp add: spec_benches_def strict_sorted_iff)
  then have "sorted_wrt (<) (map sr_bench (rp_rows rp))" by (simp only: b sorted_wrt_filter)
  moreover have "set (map sr_bench (rp_rows rp)) = {b. spec_reported counts native before after b}"
    unfolding b using reported_listed by auto
  ultimately show ?thesis by (simp add: rp summary_table_def)
qed

text \<open>The files of the witnesses: compile records, a log and a report.\<close>

definition demo_spec_machine :: machine where
  "demo_spec_machine = \<lparr>m_files = (\<lambda>p. if p = ''t.csv'' then Some (File demo_report) else m_files demo_machine p),
     m_expand = (\<lambda>p. p), m_glob = (\<lambda>p. [])\<rparr>"

definition demo_spec_args :: spec_args where
  "demo_spec_args = \<lparr>sa_records = [''r.tsv''], sa_native_csv = [''t.csv''], sa_before_csv = [], sa_after_csv = [],
     sa_suite = ''CPU2006'', sa_csv_out = ''o.csv'', sa_core_prefix = []\<rparr>"

definition demo_counts :: "(string, unit_counts) dict" where
  "demo_counts = [(''401.bzip2'', \<lparr>compile_units = 2, fallback_units = 1, unit_checks = 1, unit_core = 1, unit_removed = 0\<rparr>)]"

definition demo_native :: runtimes where
  "demo_native = [(''401.bzip2'', \<lparr>run_time = Some (Fin (49 / 4)), run_status = ''S''\<rparr>)]"

lemma demo_spec_parsed:
  "parse_records_spec demo_spec_machine (sa_records demo_spec_args)
     (if sa_core_prefix demo_spec_args = [] then DEFAULT_CORE_PREFIXES else sa_core_prefix demo_spec_args) = Inr demo_counts"
  "parse_runtime_csv_spec demo_spec_machine (sa_native_csv demo_spec_args) = Inr demo_native"
  "parse_runtime_csv_spec demo_spec_machine (sa_before_csv demo_spec_args) = Inr []"
  "parse_runtime_csv_spec demo_spec_machine (sa_after_csv demo_spec_args) = Inr []"
  by code_simp+

theorem spec_main_rows_witness:
  "\<exists>rp. spec_main demo_spec_machine demo_spec_args = Inr rp \<and>
     set (map sr_bench (rp_rows rp)) = {b. spec_reported demo_counts demo_native [] [] b} \<and>
     length (rp_lines rp) = 2 + length (rp_rows rp)"
proof -
  have "case spec_main demo_spec_machine demo_spec_args of Inl e \<Rightarrow> False | Inr rp \<Rightarrow> True" by code_simp
  then obtain rp where rp: "spec_main demo_spec_machine demo_spec_args = Inr rp" by (auto split: sum.splits)
  from spec_main_rows [OF rp demo_spec_parsed] rp show ?thesis by blast
qed



text \<open>
  the two DESAN summaries derive the same row from the same counts and times, although
  they compute it in different orders.
\<close>

theorem desan_rows_agree:
  "oss_row suite bench c native before after = Inr r \<longleftrightarrow> spec_row suite bench c native before after = Inr r"
  by (auto simp: oss_row_def spec_row_def Let_def res_simps split: prod.splits)

text \<open>
  C38: when the removed checks are among the core checks, and those among all checks, every
  printed ratio is a percentage, missing exactly when its denominator is 0, and the share of
  removed checks among all checks is not larger than the one among the core checks.
\<close>

theorem spec_row_ratios:
  assumes "spec_row suite bench c native before after = Inr r"
    and "0 \<le> unit_removed c" "unit_removed c \<le> unit_core c" "unit_core c \<le> unit_checks c"
  shows "(sr_removed_ratio r = None \<longleftrightarrow> unit_checks c = 0) \<and> (sr_core_ratio r = None \<longleftrightarrow> unit_checks c = 0) \<and>
    (sr_removed_core_ratio r = None \<longleftrightarrow> unit_core c = 0) \<and>
    (\<forall>q\<in>set_option (sr_core_ratio r) \<union> set_option (sr_removed_ratio r) \<union> set_option (sr_removed_core_ratio r).
       Fin 0 \<le> q \<and> q \<le> hundred) \<and>
    (\<forall>p q. sr_removed_ratio r = Some p \<and> sr_removed_core_ratio r = Some q \<longrightarrow> p \<le> q)"
proof -
  obtain nt ns bt bs ta as where t: "native = (nt, ns)" "before = (bt, bs)" "after = (ta, as)"
    by (metis surj_pair)
  from assms(1) show ?thesis unfolding t
  proof (cases rule: spec_row_cases)
    case (1 s d q x y z)
    have "p \<le> q" if "y = Some p" "z = Some q" for p q
      using 1(3,4) that assms(2-4)
      by (auto simp: ratio_or_none_def res_simps split: if_splits intro: int_percent_antimono)
    with ratio_or_none_bounds [OF 1(2)] ratio_or_none_bounds [OF 1(3)] ratio_or_none_bounds [OF 1(4)]
      assms(2-4) 1(5) show ?thesis by auto
  qed
qed

theorem spec_row_ratios_witness:
  "\<exists>r. spec_row ''s'' ''b'' \<lparr>compile_units = 1, fallback_units = 0, unit_checks = 4, unit_core = 2, unit_removed = 1\<rparr>
     (None, ''NR'') (None, ''NR'') (None, ''NR'') = Inr r \<and> (\<forall>p q. sr_removed_ratio r = Some p \<and>
       sr_removed_core_ratio r = Some q \<longrightarrow> p \<le> q) \<and> sr_removed_ratio r \<noteq> None"
proof -
  let ?c = "\<lparr>compile_units = 1, fallback_units = 0, unit_checks = 4, unit_core = 2, unit_removed = 1\<rparr>"
  have "case spec_row ''s'' ''b'' ?c (None, ''NR'') (None, ''NR'') (None, ''NR'') of Inl e \<Rightarrow> False | Inr r \<Rightarrow> True"
    by code_simp
  then obtain r where r: "spec_row ''s'' ''b'' ?c (None, ''NR'') (None, ''NR'') (None, ''NR'') = Inr r"
    by (auto split: sum.splits)
  from spec_row_ratios [OF r] r show ?thesis by auto
qed

end
