(* ===== verification/AsanmmSummary.thy ===== *)
theory AsanmmSummary
  imports DesanSummary
begin

text \<open>
  The \<open>main\<close> of \<open>scripts/spec_asanmm_summary.py\<close> and of
  \<open>scripts/opensource_asanmm_summary.py\<close>: the checks and run times of plain ASan against
  those of ASAN--. What ASAN-- removed is the difference of two counts, so the two sets of
  compile records are joined here, and the run times as in the DESAN summaries.
\<close>

section \<open>Rows\<close>

record asanmm_row =
  ar_suite :: string
  ar_bench :: string
  ar_units_base :: int
  ar_units_tool :: int
  ar_fallback_base :: int
  ar_fallback_tool :: int
  ar_original :: int
  ar_after :: int
  ar_removed :: int
  ar_removed_ratio :: "pyfloat option"
  ar_core_original :: int
  ar_core_after :: int
  ar_core_ratio :: "pyfloat option"
  ar_read_removed :: int
  ar_write_removed :: int
  ar_native :: "pyfloat option"
  ar_base :: "pyfloat option"
  ar_tool :: "pyfloat option"
  ar_sanitizer_overhead :: "pyfloat option"
  ar_tool_overhead :: "pyfloat option"
  ar_overhead_reduction :: "pyfloat option"
  ar_runtime_reduction :: "pyfloat option"
  ar_native_status :: string
  ar_base_status :: string
  ar_tool_status :: string

definition asanmm_cells :: "asanmm_row \<Rightarrow> (string, cell) dict" where
  "asanmm_cells r =
    [(''Suite'', StrCell (ar_suite r)),
     (''Benchmark'', StrCell (ar_bench r)),
     (''Compile Units Base'', IntCell (ar_units_base r)),
     (''Compile Units ASAN--'', IntCell (ar_units_tool r)),
     (''Fallback Units Base'', IntCell (ar_fallback_base r)),
     (''Fallback Units ASAN--'', IntCell (ar_fallback_tool r)),
     (''Original Checks'', IntCell (ar_original r)),
     (''ASAN-- Checks'', IntCell (ar_after r)),
     (''Removed Checks'', IntCell (ar_removed r)),
     (''Removed / Original'', FloatCell (ar_removed_ratio r)),
     (''Original Core Checks'', IntCell (ar_core_original r)),
     (''ASAN-- Core Checks'', IntCell (ar_core_after r)),
     (''Core / All Original'', FloatCell (ar_core_ratio r)),
     (''Removed Read Checks'', IntCell (ar_read_removed r)),
     (''Removed Store Checks'', IntCell (ar_write_removed r)),
     (''Runtime Native'', FloatCell (ar_native r)),
     (''Runtime ASan'', FloatCell (ar_base r)),
     (''Runtime ASAN--'', FloatCell (ar_tool r)),
     (''Sanitizer Overhead %'', FloatCell (ar_sanitizer_overhead r)),
     (''ASAN-- Overhead %'', FloatCell (ar_tool_overhead r)),
     (''Overhead Reduction %'', FloatCell (ar_overhead_reduction r)),
     (''Runtime Reduction vs ASan %'', FloatCell (ar_runtime_reduction r)),
     (''Native Status'', StrCell (ar_native_status r)),
     (''ASan Status'', StrCell (ar_base_status r)),
     (''ASAN-- Status'', StrCell (ar_tool_status r))]"

definition asanmm_headers :: "string list" where
  "asanmm_headers = [''Benchmark'', ''Original'', ''ASAN--'', ''Removed'', ''Removed/Orig'', ''Core/All'',
     ''Read Removed'', ''Store Removed'', ''Native(s)'', ''ASan(s)'', ''ASAN--(s)'', ''ASan Overhead'',
     ''ASAN-- Overhead'', ''Overhead Reduction'', ''Runtime Reduction'', ''Status'']"

definition asanmm_line :: "asanmm_row \<Rightarrow> string" where
  "asanmm_line r = table_line
    [ar_bench r, fmt_int (ar_original r), fmt_int (ar_after r), fmt_int (ar_removed r),
     fmt_pct (ar_removed_ratio r), fmt_pct (ar_core_ratio r), fmt_int (ar_read_removed r),
     fmt_int (ar_write_removed r), fmt_float (ar_native r), fmt_float (ar_base r), fmt_float (ar_tool r),
     fmt_pct (ar_sanitizer_overhead r), fmt_pct (ar_tool_overhead r), fmt_pct (ar_overhead_reduction r),
     fmt_pct (ar_runtime_reduction r),
     ar_native_status r @ ''->'' @ ar_base_status r @ ''->'' @ ar_tool_status r]"

definition asanmm_table :: "asanmm_row list \<Rightarrow> string list" where
  "asanmm_table rows = table_line asanmm_headers # table_rule (length asanmm_headers) # map asanmm_line rows"

text \<open>The row of a benchmark; both scripts build it in this order.\<close>

definition build_asanmm_row ::
  "string \<Rightarrow> string \<Rightarrow> access_counts \<Rightarrow> access_counts \<Rightarrow> pyfloat option \<times> string \<Rightarrow>
   pyfloat option \<times> string \<Rightarrow> pyfloat option \<times> string \<Rightarrow> asanmm_row res" where
  "build_asanmm_row suite bench b a native base asanmm =
     (let (native_time, native_status) = native; (base_time, base_status) = base;
          (asanmm_time, asanmm_status) = asanmm;
          original = acc_checks b; after = acc_checks a;
          removed = (if original \<noteq> 0 \<or> after \<noteq> 0 then original - after else 0);
          core_original = acc_core b; core_after = acc_core a;
          read_removed = acc_read b - acc_read a; write_removed = acc_write b - acc_write a in
      bindE (overhead_metrics native_status base_status asanmm_status native_time base_time asanmm_time)
        (\<lambda>(sanitizer_overhead, asanmm_overhead, overhead_reduction, runtime_reduction).
      bindE (ratio_or_none removed original) (\<lambda>removed_ratio.
      bindE (ratio_or_none core_original original) (\<lambda>core_ratio.
      Inr \<lparr>ar_suite = suite, ar_bench = bench, ar_units_base = acc_units b, ar_units_tool = acc_units a,
        ar_fallback_base = acc_fallback b, ar_fallback_tool = acc_fallback a,
        ar_original = original, ar_after = after, ar_removed = removed, ar_removed_ratio = removed_ratio,
        ar_core_original = core_original, ar_core_after = core_after, ar_core_ratio = core_ratio,
        ar_read_removed = read_removed, ar_write_removed = write_removed,
        ar_native = native_time, ar_base = base_time, ar_tool = asanmm_time,
        ar_sanitizer_overhead = sanitizer_overhead, ar_tool_overhead = asanmm_overhead,
        ar_overhead_reduction = overhead_reduction, ar_runtime_reduction = runtime_reduction,
        ar_native_status = native_status, ar_base_status = base_status, ar_tool_status = asanmm_status\<rparr>))))"

section \<open>spec_asanmm_summary.py\<close>

record asanmm_args =
  ma_base_records :: "string list"
  ma_asanmm_records :: "string list"
  ma_native_csv :: "string list"
  ma_base_csv :: "string list"
  ma_asanmm_csv :: "string list"
  ma_suite :: string
  ma_csv_out :: string

definition asanmm_benches ::
  "(string, access_counts) dict \<Rightarrow> (string, access_counts) dict \<Rightarrow> runtimes \<Rightarrow> runtimes \<Rightarrow> runtimes \<Rightarrow> string list" where
  "asanmm_benches base_counts asanmm_counts native base asanmm =
     sort (remdups (dkeys base_counts @ dkeys asanmm_counts @ dkeys native @ dkeys base @ dkeys asanmm))"

definition asanmm_main :: "machine \<Rightarrow> asanmm_args \<Rightarrow> asanmm_row report res" where
  "asanmm_main m args =
     bindE (parse_records_asanmm m (ma_base_records args)) (\<lambda>base_counts.
     bindE (parse_records_asanmm m (ma_asanmm_records args)) (\<lambda>asanmm_counts.
     bindE (parse_runtime_csv_asanmm m (ma_native_csv args)) (\<lambda>native.
     bindE (parse_runtime_csv_asanmm m (ma_base_csv args)) (\<lambda>base.
     bindE (parse_runtime_csv_asanmm m (ma_asanmm_csv args)) (\<lambda>asanmm.
     bindE (mapE (\<lambda>bench. build_asanmm_row (ma_suite args) bench
              (dget base_counts bench zero_access) (dget asanmm_counts bench zero_access)
              (time_of native bench, status_of native bench) (time_of base bench, status_of base bench)
              (time_of asanmm bench, status_of asanmm bench))
            (asanmm_benches base_counts asanmm_counts native base asanmm)) (\<lambda>rows.
     Inr \<lparr>rp_rows = rows,
          rp_csv = (if ma_csv_out args = '''' \<or> rows = [] then None else Some (map asanmm_cells rows)),
          rp_lines = asanmm_table rows\<rparr>))))))"

section \<open>opensource_asanmm_summary.py\<close>

record oss_asanmm_args =
  na_suite :: string
  na_benchmark :: string
  na_base_records :: string
  na_asanmm_records :: string
  na_runtime_csv :: string
  na_csv_out :: string

definition oss_asanmm_main :: "files \<Rightarrow> oss_asanmm_args \<Rightarrow> asanmm_row report res" where
  "oss_asanmm_main fs args =
     bindE (parse_records_oss_asanmm fs (na_base_records args) (na_benchmark args)) (\<lambda>base.
     bindE (parse_records_oss_asanmm fs (na_asanmm_records args) (na_benchmark args)) (\<lambda>asanmm.
     bindE (parse_runtime_csv_oss fs (na_runtime_csv args)) (\<lambda>runtimes.
     bindE (summarize_runtime runtimes ''native'') (\<lambda>native.
     bindE (summarize_runtime runtimes ''asan-base'') (\<lambda>base_run.
     bindE (summarize_runtime runtimes ''asanmm'') (\<lambda>asanmm_run.
     bindE (build_asanmm_row (na_suite args) (na_benchmark args) base asanmm native base_run asanmm_run) (\<lambda>row.
     Inr \<lparr>rp_rows = [row],
          rp_csv = (if na_csv_out args = '''' then None else Some [asanmm_cells row]),
          rp_lines = asanmm_table [row]\<rparr>)))))))"

section \<open>Lemmas\<close>

lemma build_asanmm_row_cases:
  assumes "build_asanmm_row suite bench b a (nt, ns) (bt, bs) (ta, sa) = Inr r"
  obtains s d q t x y where
    "overhead_metrics ns bs sa nt bt ta = Inr (s, d, q, t)"
    "ratio_or_none (acc_checks b - acc_checks a) (acc_checks b) = Inr x"
    "ratio_or_none (acc_core b) (acc_checks b) = Inr y"
    "ar_bench r = bench" "ar_original r = acc_checks b" "ar_after r = acc_checks a"
    "ar_removed r = acc_checks b - acc_checks a" "ar_removed_ratio r = x" "ar_core_ratio r = y"
    "ar_sanitizer_overhead r = s" "ar_tool_overhead r = d" "ar_overhead_reduction r = q"
    "ar_runtime_reduction r = t"
  using assms by (auto simp: build_asanmm_row_def Let_def res_simps split: if_splits)

lemma build_asanmm_row_exn:
  assumes "build_asanmm_row suite bench b a (nt, ns) (bt, bs) (ta, sa) = Inl e"
    and "\<forall>x\<in>set_option nt. binary64 x" "\<forall>x\<in>set_option bt. binary64 x"
  shows "e = OverflowError"
  using assms(1) overhead_metrics_total [OF assms(2,3), of ns bs sa ta]
  by (auto simp: build_asanmm_row_def Let_def res_simps dest: ratio_or_none_exn)

lemma parse_asanmm_ok: "parse_runtime_csv_asanmm m paths = Inr d \<Longrightarrow> times_ok d"
  unfolding parse_runtime_csv_asanmm_def by (erule runtime_files_ok) (rule read_report_ok)

lemma parse_asanmm_exn: "parse_runtime_csv_asanmm m paths = Inl e \<Longrightarrow> e = IsADirectoryError"
  unfolding parse_runtime_csv_asanmm_def by (rule runtime_files_errors)

lemma mapE_build_benches:
  assumes "mapE (\<lambda>b. build_asanmm_row suite b (f b) (g b) (nt b, ns b) (bt b, bs b) (ta b, sa b)) benches = Inr rows"
  shows "map ar_bench rows = benches"
  using assms
  by (induction benches arbitrary: rows) (auto simp: res_simps elim: build_asanmm_row_cases)

lemma runtime_reduction_cases:
  assumes "overhead_metrics ns bs sa (Some n) (Some b) (Some a) = Inr (s, d, q, Some t)"
  shows "Fin 0 < b \<and> percent (b - a) b = Inr t"
  using assms by (auto simp: overhead_metrics_def res_simps split: if_splits)

section \<open>Properties\<close>

text \<open>
  C35: the ASAN-- summary has one row for every benchmark named by any compile record or report,
  in strictly increasing order; the removed checks of a row are the difference of the two
  totals, and the CSV file has the same rows.
\<close>

theorem asanmm_main_rows:
  assumes "asanmm_main m args = Inr rp"
    and "parse_records_asanmm m (ma_base_records args) = Inr base_counts"
    and "parse_records_asanmm m (ma_asanmm_records args) = Inr asanmm_counts"
    and "parse_runtime_csv_asanmm m (ma_native_csv args) = Inr native"
    and "parse_runtime_csv_asanmm m (ma_base_csv args) = Inr base"
    and "parse_runtime_csv_asanmm m (ma_asanmm_csv args) = Inr tool"
  shows "sorted_wrt (<) (map ar_bench (rp_rows rp)) \<and>
    set (map ar_bench (rp_rows rp)) = set (dkeys base_counts) \<union> set (dkeys asanmm_counts) \<union>
      set (dkeys native) \<union> set (dkeys base) \<union> set (dkeys tool) \<and>
    (\<forall>r\<in>set (rp_rows rp). ar_removed r = ar_original r - ar_after r \<and>
      ar_original r = acc_checks (dget base_counts (ar_bench r) 0) \<and>
      ar_after r = acc_checks (dget asanmm_counts (ar_bench r) 0)) \<and>
    (rp_rows rp \<noteq> [] \<and> ma_csv_out args \<noteq> '''' \<longrightarrow> rp_csv rp = Some (map asanmm_cells (rp_rows rp)))"
proof -
  let ?bs = "asanmm_benches base_counts asanmm_counts native base tool"
  let ?build = "\<lambda>bench. build_asanmm_row (ma_suite args) bench
      (dget base_counts bench zero_access) (dget asanmm_counts bench zero_access)
      (time_of native bench, status_of native bench) (time_of base bench, status_of base bench)
      (time_of tool bench, status_of tool bench)"
  from assms obtain rows where m: "mapE ?build ?bs = Inr rows" and rp: "rp = \<lparr>rp_rows = rows,
      rp_csv = (if ma_csv_out args = '''' \<or> rows = [] then None else Some (map asanmm_cells rows)),
      rp_lines = asanmm_table rows\<rparr>"
    by (auto simp: asanmm_main_def res_simps)
  have b: "map ar_bench rows = ?bs" using m by (rule mapE_build_benches)
  have "sorted_wrt (<) ?bs" "set ?bs = set (dkeys base_counts) \<union> set (dkeys asanmm_counts) \<union>
      set (dkeys native) \<union> set (dkeys base) \<union> set (dkeys tool)"
    by (auto simp: asanmm_benches_def strict_sorted_iff)
  moreover have "ar_removed r = ar_original r - ar_after r \<and>
      ar_original r = acc_checks (dget base_counts (ar_bench r) 0) \<and>
      ar_after r = acc_checks (dget asanmm_counts (ar_bench r) 0)" if "r \<in> set rows" for r
  proof -
    from m that obtain bench where "?build bench = Inr r"
      by (auto simp: mapE_Inr_iff list_all2_conv_all_nth in_set_conv_nth)
    then show ?thesis by (auto elim!: build_asanmm_row_cases)
  qed
  ultimately show ?thesis using b by (simp add: rp)
qed

definition demo_asanmm_machine :: machine where
  "demo_asanmm_machine = \<lparr>m_files = (\<lambda>p. if p = ''t.csv'' then Some (File demo_report) else m_files demo_machine_ir p),
     m_expand = (\<lambda>p. p), m_glob = (\<lambda>p. [])\<rparr>"

definition demo_asanmm_args :: asanmm_args where
  "demo_asanmm_args = \<lparr>ma_base_records = [''r.tsv''], ma_asanmm_records = [], ma_native_csv = [''t.csv''],
     ma_base_csv = [], ma_asanmm_csv = [], ma_suite = ''CPU2006'', ma_csv_out = ''o.csv''\<rparr>"

theorem asanmm_main_rows_witness:
  "\<exists>rp. asanmm_main demo_asanmm_machine demo_asanmm_args = Inr rp \<and> set (map ar_bench (rp_rows rp)) = {''401.bzip2''}"
proof -
  have p: "parse_records_asanmm demo_asanmm_machine (ma_base_records demo_asanmm_args) =
      Inr [(''401.bzip2'', \<lparr>acc_units = 2, acc_fallback = 0, acc_checks = 1, acc_core = 1, acc_read = 1, acc_write = 0\<rparr>)]"
    "parse_records_asanmm demo_asanmm_machine (ma_asanmm_records demo_asanmm_args) = Inr []"
    "parse_runtime_csv_asanmm demo_asanmm_machine (ma_native_csv demo_asanmm_args) = Inr demo_native"
    "parse_runtime_csv_asanmm demo_asanmm_machine (ma_base_csv demo_asanmm_args) = Inr []"
    "parse_runtime_csv_asanmm demo_asanmm_machine (ma_asanmm_csv demo_asanmm_args) = Inr []"
    by code_simp+
  have "case asanmm_main demo_asanmm_machine demo_asanmm_args of Inl e \<Rightarrow> False | Inr rp \<Rightarrow> True" by code_simp
  then obtain rp where rp: "asanmm_main demo_asanmm_machine demo_asanmm_args = Inr rp" by (auto split: sum.splits)
  from asanmm_main_rows [OF rp p] rp show ?thesis by (auto simp: demo_native_def)
qed

text \<open>
  Whatever the input files hold, the two ASAN-- summaries can only fail on a directory in
  place of a file, on a count line without a space, on a record row that is too short for its
  log or on counts too large for a float: no malformed number and no division stops them.
\<close>

theorem asanmm_summaries_errors:
  "(\<forall>e. asanmm_main m args = Inl e \<longrightarrow> e \<in> {IsADirectoryError, IndexError, TypeError, OverflowError}) \<and>
   (\<forall>e. oss_asanmm_main fs nargs = Inl e \<longrightarrow> e \<in> {IsADirectoryError, IndexError, TypeError, OverflowError})"
proof (intro conjI allI impI)
  fix e assume e: "asanmm_main m args = Inl e"
  show "e \<in> {IsADirectoryError, IndexError, TypeError, OverflowError}"
  proof (rule ccontr)
    assume n: "e \<notin> {IsADirectoryError, IndexError, TypeError, OverflowError}"
    from e n obtain bc ac native base tool where d:
      "parse_runtime_csv_asanmm m (ma_native_csv args) = Inr native"
      "parse_runtime_csv_asanmm m (ma_base_csv args) = Inr base"
      "mapE (\<lambda>bench. build_asanmm_row (ma_suite args) bench (dget bc bench zero_access) (dget ac bench zero_access)
              (time_of native bench, status_of native bench) (time_of base bench, status_of base bench)
              (time_of tool bench, status_of tool bench))
            (asanmm_benches bc ac native base tool) = Inl e"
      by (auto simp: asanmm_main_def res_simps dest: parse_records_asanmm_exn parse_asanmm_exn)
    from mapE_Inl_cases [OF d(3)] obtain b where
      "build_asanmm_row (ma_suite args) b (dget bc b zero_access) (dget ac b zero_access)
         (time_of native b, status_of native b) (time_of base b, status_of base b)
         (time_of tool b, status_of tool b) = Inl e" by blast
    then have "e = OverflowError"
      by (rule build_asanmm_row_exn) (intro time_of_binary64 parse_asanmm_ok [OF d(1)] parse_asanmm_ok [OF d(2)])+
    with n show False by simp
  qed
next
  fix e assume e: "oss_asanmm_main fs nargs = Inl e"
  show "e \<in> {IsADirectoryError, IndexError, TypeError, OverflowError}"
  proof (cases "parse_runtime_csv_oss fs (na_runtime_csv nargs)")
    case (Inl e')
    then have "e' = IsADirectoryError"
      by (auto simp: parse_runtime_csv_oss_def res_simps dest: read_text_cases split: if_splits)
    with e Inl show ?thesis
      by (auto simp: oss_asanmm_main_def Let_def res_simps dest: parse_records_oss_asanmm_exn)
  next
    case (Inr runs)
    obtain nt ns where n: "summarize_runtime runs ''native'' = Inr (nt, ns)" "\<forall>x\<in>set_option nt. binary64 x"
      using summarize_total [OF Inr] .
    obtain bt bs where b: "summarize_runtime runs ''asan-base'' = Inr (bt, bs)" "\<forall>x\<in>set_option bt. binary64 x"
      using summarize_total [OF Inr] .
    obtain ta sa where a: "summarize_runtime runs ''asanmm'' = Inr (ta, sa)"
      using summarize_total [OF Inr] .
    from e Inr n(1) b(1) a show ?thesis
      by (auto simp: oss_asanmm_main_def Let_def res_simps dest: parse_records_oss_asanmm_exn
          build_asanmm_row_exn [OF _ n(2) b(2)])
  qed
qed

theorem asanmm_summaries_errors_witness:
  "asanmm_main demo_machine (demo_asanmm_args\<lparr>ma_native_csv := []\<rparr>) = Inl IsADirectoryError \<and>
   IsADirectoryError \<in> {IsADirectoryError, IndexError, TypeError, OverflowError}"
proof -
  have "asanmm_main demo_machine (demo_asanmm_args\<lparr>ma_native_csv := []\<rparr>) = Inl IsADirectoryError" by code_simp
  with asanmm_summaries_errors show ?thesis by blast
qed

text \<open>
  when ASAN-- leaves no more checks than there were, the removed share is a percentage; when
  its finite run time lies between 0 and that of plain ASan, so is the reduction of the run time.
\<close>

theorem asanmm_row_percentages:
  assumes "build_asanmm_row suite bench b a (Some n, ns) (Some bt, bs) (Some ta, sa) = Inr r"
    and "0 \<le> acc_checks a" "acc_checks a \<le> acc_checks b"
    and "is_finite bt" "is_finite ta" "Fin 0 \<le> ta" "ta \<le> bt" "binary64 bt"
  shows "(\<forall>q\<in>set_option (ar_removed_ratio r). Fin 0 \<le> q \<and> q \<le> hundred) \<and>
    (\<forall>t\<in>set_option (ar_runtime_reduction r). Fin 0 \<le> t \<and> t \<le> hundred)"
  using assms(1)
proof (cases rule: build_asanmm_row_cases)
  case (1 s d q t x y)
  have "Fin 0 \<le> u \<and> u \<le> hundred" if t: "t = Some u" for u
  proof -
    from runtime_reduction_cases 1(1) t have h: "Fin 0 < bt" "percent (bt - ta) bt = Inr u" by blast+
    then have pos: "0 < fval bt" using assms(4) by (cases bt) (auto simp: less_pyfloat_def)
    have "bt - ta \<le> bt" using assms(4-6,8) by (rule minus_nonneg_le)
    with h pos assms(4-7) show ?thesis
      using percent_nonneg [OF diff_nonneg [OF assms(4,5,7)]] percent_le_hundred by blast
  qed
  with ratio_or_none_bounds [OF 1(2)] assms(2,3) 1(8,13) show ?thesis by auto
qed

theorem asanmm_row_percentages_witness:
  "\<exists>r. build_asanmm_row ''s'' ''b'' \<lparr>acc_units = 1, acc_fallback = 0, acc_checks = 4, acc_core = 4, acc_read = 2, acc_write = 2\<rparr>
     \<lparr>acc_units = 1, acc_fallback = 0, acc_checks = 1, acc_core = 1, acc_read = 1, acc_write = 0\<rparr>
     (Some (Fin 1), ''S'') (Some (Fin 4), ''S'') (Some (Fin 3), ''S'') = Inr r \<and>
     ar_runtime_reduction r = Some (Fin 25) \<and> (\<forall>t\<in>set_option (ar_runtime_reduction r). Fin 0 \<le> t \<and> t \<le> hundred)"
proof -
  let ?b = "\<lparr>acc_units = 1, acc_fallback = 0, acc_checks = 4, acc_core = 4, acc_read = 2, acc_write = 2\<rparr>"
  let ?a = "\<lparr>acc_units = 1, acc_fallback = 0, acc_checks = 1, acc_core = 1, acc_read = 1, acc_write = 0\<rparr>"
  have "case build_asanmm_row ''s'' ''b'' ?b ?a (Some (Fin 1), ''S'') (Some (Fin 4), ''S'') (Some (Fin 3), ''S'') of
      Inl e \<Rightarrow> False | Inr r \<Rightarrow> ar_runtime_reduction r = Some (Fin 25)" by code_simp
  then obtain r where r: "build_asanmm_row ''s'' ''b'' ?b ?a (Some (Fin 1), ''S'') (Some (Fin 4), ''S'') (Some (Fin 3), ''S'') = Inr r"
    "ar_runtime_reduction r = Some (Fin 25)" by (auto split: sum.splits)
  have "binary64 (Fin 4)" by code_simp
  with asanmm_row_percentages [OF r(1)] r show ?thesis by simp
qed

end
