(* ===== verification/SanrazorSummary.thy ===== *)
theory SanrazorSummary
  imports DesanSummary
begin

text \<open>
  \<open>scripts/spec_sanrazor_summary.py\<close>: the check files that SanRazor leaves per benchmark
  (\<open>parse_check_file\<close>, \<open>parse_checks\<close>), joined with the run times. SanRazor writes a line of
  numbers on every other line and repeats lines it has written before, so a check file is a
  sum over the distinct number lines.
\<close>

section \<open>Check files\<close>

record check_sums =
  ck_original :: int
  ck_remaining :: int
  ck_original_cost :: int
  ck_remaining_cost :: int

instantiation check_sums_ext :: (comm_monoid_add) comm_monoid_add
begin
definition zero_check_sums_ext :: "'a check_sums_ext" where
  "zero_check_sums_ext = \<lparr>ck_original = 0, ck_remaining = 0, ck_original_cost = 0, ck_remaining_cost = 0, \<dots> = 0\<rparr>"
definition plus_check_sums_ext :: "'a check_sums_ext \<Rightarrow> 'a check_sums_ext \<Rightarrow> 'a check_sums_ext" where
  "plus_check_sums_ext x y = \<lparr>ck_original = ck_original x + ck_original y,
     ck_remaining = ck_remaining x + ck_remaining y,
     ck_original_cost = ck_original_cost x + ck_original_cost y,
     ck_remaining_cost = ck_remaining_cost x + ck_remaining_cost y,
     \<dots> = check_sums.more x + check_sums.more y\<rparr>"
instance
  by standard (simp_all add: zero_check_sums_ext_def plus_check_sums_ext_def ac_simps)
end

definition zero_sums :: check_sums where
  "zero_sums = \<lparr>ck_original = 0, ck_remaining = 0, ck_original_cost = 0, ck_remaining_cost = 0\<rparr>"

text \<open>The four numbers of a line of at least nine words; \<open>None\<close> where the script skips the line.\<close>

definition check_numbers :: "string list \<Rightarrow> check_sums option" where
  "check_numbers parts =
     (case (py_int (parts ! 1), py_int (parts ! 3), py_int (parts ! 7), py_int (parts ! 8)) of
        (Inr original, Inr remaining, Inr original_cost, Inr remaining_cost) \<Rightarrow>
          Some \<lparr>ck_original = original, ck_remaining = remaining, ck_original_cost = original_cost,
                ck_remaining_cost = remaining_cost\<rparr>
      | _ \<Rightarrow> None)"

record check_file_state =
  cf_seen :: "string list list"
  cf_totals :: "check_sums option"

definition check_file_step :: "nat \<times> string \<Rightarrow> check_file_state \<Rightarrow> check_file_state" where
  "check_file_step = (\<lambda>(line_no, line) st.
     if line_no mod 2 \<noteq> 0 then st
     else (let parts = split_ws line in
       if length parts < 9 then st
       else (case check_numbers parts of
           None \<Rightarrow> st
         | Some n \<Rightarrow>
             (let key = take 9 parts in
              if key \<in> set (cf_seen st) then st
              else (let row = (case cf_totals st of None \<Rightarrow> zero_sums | Some r \<Rightarrow> r) in
                st\<lparr>cf_seen := key # cf_seen st,
                   cf_totals := Some (row
                     \<lparr>ck_original := ck_original row + ck_original n,
                      ck_remaining := ck_remaining row + ck_remaining n,
                      ck_original_cost := ck_original_cost row + ck_original_cost n,
                      ck_remaining_cost := ck_remaining_cost row + ck_remaining_cost n\<rparr>)\<rparr>)))))"

definition parse_check_file :: "files \<Rightarrow> string \<Rightarrow> check_sums res" where
  "parse_check_file fs path =
     (if \<not> path_exists fs path then Inr zero_sums
      else bindE (read_text fs path) (\<lambda>text.
        let st = fold check_file_step (enumerate 0 (text_lines text)) \<lparr>cf_seen = [], cf_totals = None\<rparr> in
        Inr (case cf_totals st of None \<Rightarrow> zero_sums | Some r \<Rightarrow> r)))"

definition benchmark_from_check_path :: "string \<Rightarrow> string option" where
  "benchmark_from_check_path path = find (\<lambda>part. re_test BENCH_RE part) (path_parts path)"

definition check_path_step :: "files \<Rightarrow> string \<Rightarrow> (string, check_sums) dict \<Rightarrow> (string, check_sums) dict res" where
  "check_path_step fs path checks = (case benchmark_from_check_path path of
      None \<Rightarrow> Inr checks
    | Some bench \<Rightarrow> bindE (parse_check_file fs path) (\<lambda>counts.
        let row = dget checks bench zero_sums in
        Inr (dset bench
          \<lparr>ck_original = ck_original row + ck_original counts,
           ck_remaining = ck_remaining row + ck_remaining counts,
           ck_original_cost = ck_original_cost row + ck_original_cost counts,
           ck_remaining_cost = ck_remaining_cost row + ck_remaining_cost counts\<rparr> checks)))"

definition parse_checks :: "machine \<Rightarrow> string list \<Rightarrow> (string, check_sums) dict res" where
  "parse_checks m globs =
     foldE (\<lambda>pattern. foldE (check_path_step (m_files m)) (m_glob m (m_expand m pattern))) globs []"

section \<open>main\<close>

record sanrazor_row =
  zr_suite :: string
  zr_bench :: string
  zr_level :: string
  zr_original :: int
  zr_remaining :: int
  zr_removed :: int
  zr_removed_ratio :: "pyfloat option"
  zr_original_cost :: int
  zr_remaining_cost :: int
  zr_removed_cost :: int
  zr_cost_ratio :: "pyfloat option"
  zr_native :: "pyfloat option"
  zr_base :: "pyfloat option"
  zr_tool :: "pyfloat option"
  zr_sanitizer_overhead :: "pyfloat option"
  zr_tool_overhead :: "pyfloat option"
  zr_overhead_reduction :: "pyfloat option"
  zr_runtime_reduction :: "pyfloat option"
  zr_native_status :: string
  zr_base_status :: string
  zr_tool_status :: string

definition sanrazor_cells :: "sanrazor_row \<Rightarrow> (string, cell) dict" where
  "sanrazor_cells r =
    [(''Suite'', StrCell (zr_suite r)),
     (''Benchmark'', StrCell (zr_bench r)),
     (''SanRazor Level'', StrCell (zr_level r)),
     (''Original Checks'', IntCell (zr_original r)),
     (''SanRazor Checks'', IntCell (zr_remaining r)),
     (''Removed Checks'', IntCell (zr_removed r)),
     (''Removed / Original'', FloatCell (zr_removed_ratio r)),
     (''Original Check Cost'', IntCell (zr_original_cost r)),
     (''SanRazor Check Cost'', IntCell (zr_remaining_cost r)),
     (''Removed Check Cost'', IntCell (zr_removed_cost r)),
     (''Check Cost Reduction %'', FloatCell (zr_cost_ratio r)),
     (''Runtime Native'', FloatCell (zr_native r)),
     (''Runtime UBSan'', FloatCell (zr_base r)),
     (''Runtime SanRazor'', FloatCell (zr_tool r)),
     (''Sanitizer Overhead %'', FloatCell (zr_sanitizer_overhead r)),
     (''SanRazor Overhead %'', FloatCell (zr_tool_overhead r)),
     (''Overhead Reduction %'', FloatCell (zr_overhead_reduction r)),
     (''Runtime Reduction vs UBSan %'', FloatCell (zr_runtime_reduction r)),
     (''Native Status'', StrCell (zr_native_status r)),
     (''UBSan Status'', StrCell (zr_base_status r)),
     (''SanRazor Status'', StrCell (zr_tool_status r))]"

definition sanrazor_headers :: "string list" where
  "sanrazor_headers = [''Benchmark'', ''Original'', ''SanRazor'', ''Removed'', ''Removed/Orig'', ''Cost Reduction'',
     ''Native(s)'', ''UBSan(s)'', ''SanRazor(s)'', ''UBSan Overhead'', ''SanRazor Overhead'',
     ''Overhead Reduction'', ''Runtime Reduction'', ''Status'']"

definition sanrazor_line :: "sanrazor_row \<Rightarrow> string" where
  "sanrazor_line r = table_line
    [zr_bench r, fmt_int (zr_original r), fmt_int (zr_remaining r), fmt_int (zr_removed r),
     fmt_pct (zr_removed_ratio r), fmt_pct (zr_cost_ratio r), fmt_float (zr_native r), fmt_float (zr_base r),
     fmt_float (zr_tool r), fmt_pct (zr_sanitizer_overhead r), fmt_pct (zr_tool_overhead r),
     fmt_pct (zr_overhead_reduction r), fmt_pct (zr_runtime_reduction r),
     zr_native_status r @ ''->'' @ zr_base_status r @ ''->'' @ zr_tool_status r]"

definition sanrazor_table :: "sanrazor_row list \<Rightarrow> string list" where
  "sanrazor_table rows = table_line sanrazor_headers # table_rule (length sanrazor_headers) # map sanrazor_line rows"

definition build_sanrazor_row ::
  "string \<Rightarrow> string \<Rightarrow> string \<Rightarrow> check_sums \<Rightarrow> pyfloat option \<times> string \<Rightarrow> pyfloat option \<times> string \<Rightarrow>
   pyfloat option \<times> string \<Rightarrow> sanrazor_row res" where
  "build_sanrazor_row suite level bench c native base sanrazor =
     (let (native_time, native_status) = native; (base_time, base_status) = base;
          (sanrazor_time, sanrazor_status) = sanrazor;
          original = ck_original c; remaining = ck_remaining c; removed = max 0 (original - remaining);
          original_cost = ck_original_cost c; remaining_cost = ck_remaining_cost c;
          removed_cost = max 0 (original_cost - remaining_cost) in
      bindE (overhead_metrics native_status base_status sanrazor_status native_time base_time sanrazor_time)
        (\<lambda>(sanitizer_overhead, sanrazor_overhead, overhead_reduction, runtime_reduction).
      bindE (ratio_or_none removed original) (\<lambda>removed_ratio.
      bindE (ratio_or_none removed_cost original_cost) (\<lambda>cost_ratio.
      Inr \<lparr>zr_suite = suite, zr_bench = bench, zr_level = level, zr_original = original,
        zr_remaining = remaining, zr_removed = removed, zr_removed_ratio = removed_ratio,
        zr_original_cost = original_cost, zr_remaining_cost = remaining_cost, zr_removed_cost = removed_cost,
        zr_cost_ratio = cost_ratio, zr_native = native_time, zr_base = base_time, zr_tool = sanrazor_time,
        zr_sanitizer_overhead = sanitizer_overhead, zr_tool_overhead = sanrazor_overhead,
        zr_overhead_reduction = overhead_reduction, zr_runtime_reduction = runtime_reduction,
        zr_native_status = native_status, zr_base_status = base_status, zr_tool_status = sanrazor_status\<rparr>))))"

record sanrazor_args =
  za_suite :: string
  za_level :: string
  za_check_glob :: "string list"
  za_native_csv :: "string list"
  za_base_csv :: "string list"
  za_sanrazor_csv :: "string list"
  za_csv_out :: string

definition sanrazor_benches ::
  "(string, check_sums) dict \<Rightarrow> runtimes \<Rightarrow> runtimes \<Rightarrow> runtimes \<Rightarrow> string list" where
  "sanrazor_benches checks native base sanrazor =
     sort (remdups (dkeys checks @ dkeys native @ dkeys base @ dkeys sanrazor))"

definition sanrazor_main :: "machine \<Rightarrow> sanrazor_args \<Rightarrow> sanrazor_row report res" where
  "sanrazor_main m args =
     bindE (parse_checks m (za_check_glob args)) (\<lambda>checks.
     bindE (parse_runtime_csv_sanrazor m (za_native_csv args)) (\<lambda>native.
     bindE (parse_runtime_csv_sanrazor m (za_base_csv args)) (\<lambda>base.
     bindE (parse_runtime_csv_sanrazor m (za_sanrazor_csv args)) (\<lambda>sanrazor.
     bindE (mapE (\<lambda>bench. build_sanrazor_row (za_suite args) (za_level args) bench (dget checks bench zero_sums)
              (time_of native bench, status_of native bench) (time_of base bench, status_of base bench)
              (time_of sanrazor bench, status_of sanrazor bench))
            (sanrazor_benches checks native base sanrazor)) (\<lambda>rows.
     Inr \<lparr>rp_rows = rows,
          rp_csv = (if za_csv_out args = '''' \<or> rows = [] then None else Some (map sanrazor_cells rows)),
          rp_lines = sanrazor_table rows\<rparr>)))))"

section \<open>A check file is a sum over its distinct lines\<close>

lemma zero_sums_0 [simp]: "zero_sums = 0"
  by (simp add: zero_sums_def zero_check_sums_ext_def zero_unit_def)

lemma case_zero_sums [simp]: "(case v of None \<Rightarrow> zero_sums | Some r \<Rightarrow> r) = (case v of None \<Rightarrow> 0 | Some r \<Rightarrow> r)"
  by (cases v) simp_all

definition line_key :: "nat \<times> string \<Rightarrow> string list option" where
  "line_key = (\<lambda>(line_no, line). let parts = split_ws line in
     if line_no mod 2 = 0 \<and> 9 \<le> length parts \<and> check_numbers parts \<noteq> None then Some (take 9 parts) else None)"

definition check_keys :: "string \<Rightarrow> string list list" where
  "check_keys text = List.map_filter line_key (enumerate 0 (text_lines text))"

definition key_amount :: "string list \<Rightarrow> check_sums" where
  "key_amount key = (case check_numbers key of None \<Rightarrow> 0 | Some n \<Rightarrow> n)"

lemma check_numbers_take: "9 \<le> length parts \<Longrightarrow> check_numbers (take 9 parts) = check_numbers parts"
  by (simp add: check_numbers_def)

definition cf_ok :: "check_file_state \<Rightarrow> bool" where
  "cf_ok st \<longleftrightarrow> (case cf_totals st of None \<Rightarrow> 0 | Some r \<Rightarrow> r) = (\<Sum>k\<in>set (cf_seen st). key_amount k)"

lemma add_sums: "row\<lparr>ck_original := ck_original row + ck_original n, ck_remaining := ck_remaining row + ck_remaining n,
    ck_original_cost := ck_original_cost row + ck_original_cost n,
    ck_remaining_cost := ck_remaining_cost row + ck_remaining_cost n\<rparr> = row + (n :: check_sums)"
  by (simp add: plus_check_sums_ext_def plus_unit_def)

lemma check_file_step_sum:
  assumes "cf_ok st"
  shows "cf_ok (check_file_step l st) \<and>
    set (cf_seen (check_file_step l st)) = set (cf_seen st) \<union> set_option (line_key l)"
proof -
  obtain n line where l: "l = (n, line)" by force
  let ?parts = "split_ws line"
  show ?thesis
  proof (cases "line_key l")
    case None
    then have "check_file_step l st = st"
      by (auto simp: l line_key_def check_file_step_def Let_def split: if_splits option.splits)
    with None assms show ?thesis by simp
  next
    case (Some key)
    then obtain num where h: "n mod 2 = 0" "9 \<le> length ?parts" "check_numbers ?parts = Some num" "key = take 9 ?parts"
      by (auto simp: l line_key_def Let_def split: if_splits)
    then have num: "key_amount key = num" by (simp add: key_amount_def check_numbers_take)
    show ?thesis
    proof (cases "key \<in> set (cf_seen st)")
      case True
      with h have "check_file_step l st = st" by (simp add: l check_file_step_def Let_def)
      with True Some assms show ?thesis by auto
    next
      case False
      with h have "check_file_step l st = st\<lparr>cf_seen := key # cf_seen st,
          cf_totals := Some ((case cf_totals st of None \<Rightarrow> 0 | Some r \<Rightarrow> r) + num)\<rparr>"
        by (simp add: l check_file_step_def Let_def add_sums)
      with False Some assms num show ?thesis by (auto simp: cf_ok_def ac_simps)
    qed
  qed
qed

lemma check_file_fold_sum:
  "cf_ok st \<Longrightarrow> cf_ok (fold check_file_step ls st) \<and>
   set (cf_seen (fold check_file_step ls st)) = set (cf_seen st) \<union> set (List.map_filter line_key ls)"
proof (induction ls arbitrary: st)
  case (Cons l ls)
  with check_file_step_sum [OF Cons.prems, of l] show ?case
    by (auto simp: map_filter_simps split: option.splits)
qed (simp add: map_filter_simps)

lemma check_file_sum_set:
  assumes "read_text fs path = Inr text"
  shows "parse_check_file fs path = Inr (\<Sum>k\<in>set (check_keys text). key_amount k)"
proof -
  let ?st = "fold check_file_step (enumerate 0 (text_lines text)) \<lparr>cf_seen = [], cf_totals = None\<rparr>"
  have "cf_ok \<lparr>cf_seen = [], cf_totals = None\<rparr>" by (simp add: cf_ok_def)
  from check_file_fold_sum [OF this] have "cf_ok ?st" "set (cf_seen ?st) = set (check_keys text)"
    by (simp_all add: check_keys_def)
  then show ?thesis
    using assms read_text_exists [OF assms] by (simp add: parse_check_file_def Let_def cf_ok_def)
qed

section \<open>The files of a benchmark\<close>

definition file_amount :: "files \<Rightarrow> string \<Rightarrow> check_sums" where
  "file_amount fs path = (case parse_check_file fs path of Inl _ \<Rightarrow> 0 | Inr x \<Rightarrow> x)"

lemma add_sums_record: "\<lparr>ck_original = ck_original row + ck_original n, ck_remaining = ck_remaining row + ck_remaining n,
    ck_original_cost = ck_original_cost row + ck_original_cost n,
    ck_remaining_cost = ck_remaining_cost row + ck_remaining_cost n\<rparr> = row + (n :: check_sums)"
  by (simp add: plus_check_sums_ext_def plus_unit_def)

interpretation check_files: keyed_sum "check_path_step fs" map_of benchmark_from_check_path
    "\<lambda>path. add_to (file_amount fs path)" "file_amount fs" for fs
  by unfold_locales
    (auto simp: check_path_step_def Let_def add_sums_record res_simps dict_simps dget_def add_to_def file_amount_def
      split: option.splits)

lemma parse_sanrazor_ok: "parse_runtime_csv_sanrazor m paths = Inr d \<Longrightarrow> times_ok d"
  unfolding parse_runtime_csv_sanrazor_def by (erule runtime_files_ok) (rule reader_sanrazor_ok)

lemma parse_sanrazor_exn: "parse_runtime_csv_sanrazor m paths = Inl e \<Longrightarrow> e = IsADirectoryError"
  unfolding parse_runtime_csv_sanrazor_def by (rule runtime_files_errors)

lemma parse_checks_exn: "parse_checks m globs = Inl e \<Longrightarrow> e = IsADirectoryError"
  unfolding parse_checks_def foldE_concat
  by (auto simp: check_path_step_def parse_check_file_def Let_def res_simps
      dest!: foldE_Inl_cases dest: read_text_cases split: option.splits if_splits)

lemma build_sanrazor_row_cases:
  assumes "build_sanrazor_row suite level bench c (nt, ns) (bt, bs) (ta, sa) = Inr r"
  obtains x y where
    "ratio_or_none (max 0 (ck_original c - ck_remaining c)) (ck_original c) = Inr x"
    "ratio_or_none (max 0 (ck_original_cost c - ck_remaining_cost c)) (ck_original_cost c) = Inr y"
    "zr_bench r = bench" "zr_original r = ck_original c" "zr_remaining r = ck_remaining c"
    "zr_removed r = max 0 (ck_original c - ck_remaining c)" "zr_removed_ratio r = x" "zr_cost_ratio r = y"
  using assms by (auto simp: build_sanrazor_row_def Let_def res_simps)

lemma build_sanrazor_row_exn:
  assumes "build_sanrazor_row suite level bench c (nt, ns) (bt, bs) (ta, sa) = Inl e"
    and "\<forall>x\<in>set_option nt. binary64 x" "\<forall>x\<in>set_option bt. binary64 x"
  shows "e = OverflowError"
  using assms(1) overhead_metrics_total [OF assms(2,3), of ns bs sa ta]
  by (auto simp: build_sanrazor_row_def Let_def res_simps dest: ratio_or_none_exn)

section \<open>Properties\<close>

text \<open>
  C17: the counts of a SanRazor check file are the sum over its distinct number lines: the lines
  at even positions whose first nine words contain the four numbers count once each, however
  often and in whatever order the file repeats them.
\<close>

theorem check_file_is_set_sum:
  assumes "read_text fs path = Inr text"
  shows "parse_check_file fs path = Inr (\<Sum>k\<in>set (check_keys text). key_amount k)"
  using assms by (rule check_file_sum_set)

definition demo_check_line :: string where
  "demo_check_line = ''x 10 y 4 z a b 100 30''"

theorem check_file_is_set_sum_witness:
  "parse_check_file (\<lambda>p. Some (File (printed [demo_check_line, ''#'', demo_check_line, ''#'']))) ''check.txt'' =
     Inr \<lparr>ck_original = 10, ck_remaining = 4, ck_original_cost = 100, ck_remaining_cost = 30\<rparr>"
proof -
  let ?text = "printed [demo_check_line, ''#'', demo_check_line, ''#'']"
  have r: "read_text (\<lambda>p. Some (File ?text)) ''check.txt'' = Inr ?text" by (simp add: read_text_def)
  have "set (check_keys ?text) = {split_ws demo_check_line}" by code_simp
  moreover have "key_amount (split_ws demo_check_line) =
      \<lparr>ck_original = 10, ck_remaining = 4, ck_original_cost = 100, ck_remaining_cost = 30\<rparr>" by code_simp
  ultimately show ?thesis using check_file_is_set_sum [OF r] by simp
qed

text \<open>
  the SanRazor summary sums the check files of a benchmark (those whose path has the
  benchmark as a component), and a benchmark without check files has no counts.
\<close>

theorem parse_checks_are_sums:
  assumes "parse_checks m globs = Inr checks"
    and "paths = filter (\<lambda>p. benchmark_from_check_path p = Some bench)
      (concat (map (\<lambda>g. m_glob m (m_expand m g)) globs))"
  shows "map_of checks bench = (if paths = [] then None else Some (\<Sum>p\<leftarrow>paths. file_amount (m_files m) p))"
proof -
  have "foldE (check_path_step (m_files m)) (concat (map (\<lambda>g. m_glob m (m_expand m g)) globs)) [] = Inr checks"
    using assms(1) by (simp add: parse_checks_def foldE_concat)
  from check_files.loop_sum [OF this, of bench] assms(2) show ?thesis
    by (auto simp: filter_empty_conv)
qed

theorem parse_checks_are_sums_witness:
  "\<exists>m checks. parse_checks m [''*''] = Inr checks \<and>
     map_of checks ''401.bzip2'' = Some (\<Sum>p\<leftarrow>[''r/401.bzip2/a'', ''r/401.bzip2/b'']. file_amount (m_files m) p)"
proof -
  define m where "m = \<lparr>m_files = (\<lambda>p. if p = ''r/401.bzip2/a'' then Some (File demo_check_line) else None),
    m_expand = (\<lambda>p. p), m_glob = (\<lambda>p. [''r/401.bzip2/a'', ''notes'', ''r/401.bzip2/b''])\<rparr>"
  have "case parse_checks m [''*''] of Inl e \<Rightarrow> False | Inr c \<Rightarrow> True" unfolding m_def by code_simp
  then obtain c where c: "parse_checks m [''*''] = Inr c" by (auto split: sum.splits)
  have p: "filter (\<lambda>p. benchmark_from_check_path p = Some ''401.bzip2'')
      (concat (map (\<lambda>g. m_glob m (m_expand m g)) [''*''])) = [''r/401.bzip2/a'', ''r/401.bzip2/b'']"
    unfolding m_def by code_simp
  from parse_checks_are_sums [OF c p [symmetric]] c show ?thesis by auto
qed


definition demo_sanrazor_machine :: machine where
  "demo_sanrazor_machine = \<lparr>m_files = (\<lambda>p. if p = ''401.bzip2/c'' then Some (File demo_check_line) else None),
     m_expand = (\<lambda>p. p), m_glob = (\<lambda>p. if p = ''*'' then [''401.bzip2/c''] else [])\<rparr>"

definition demo_sanrazor_args :: sanrazor_args where
  "demo_sanrazor_args = \<lparr>za_suite = ''CPU2006'', za_level = ''L2'', za_check_glob = [''*''], za_native_csv = [],
     za_base_csv = [], za_sanrazor_csv = [], za_csv_out = ''''\<rparr>"


text \<open>
  whatever the check files and reports hold, the SanRazor summary can only fail on a
  directory in place of a file or on counts too large for a float: malformed lines are skipped
  and no division stops it.
\<close>

theorem sanrazor_main_errors:
  assumes "sanrazor_main m args = Inl e"
  shows "e = IsADirectoryError \<or> e = OverflowError"
proof (rule ccontr)
  assume n: "\<not> (e = IsADirectoryError \<or> e = OverflowError)"
  from assms n obtain checks native base tool where d:
    "parse_runtime_csv_sanrazor m (za_native_csv args) = Inr native"
    "parse_runtime_csv_sanrazor m (za_base_csv args) = Inr base"
    "mapE (\<lambda>bench. build_sanrazor_row (za_suite args) (za_level args) bench (dget checks bench zero_sums)
              (time_of native bench, status_of native bench) (time_of base bench, status_of base bench)
              (time_of tool bench, status_of tool bench))
            (sanrazor_benches checks native base tool) = Inl e"
    by (auto simp: sanrazor_main_def res_simps dest: parse_sanrazor_exn parse_checks_exn)
  from mapE_Inl_cases [OF d(3)] obtain b where
    "build_sanrazor_row (za_suite args) (za_level args) b (dget checks b zero_sums)
       (time_of native b, status_of native b) (time_of base b, status_of base b)
       (time_of tool b, status_of tool b) = Inl e" by blast
  then have "e = OverflowError"
    by (rule build_sanrazor_row_exn) (intro time_of_binary64 parse_sanrazor_ok [OF d(1)] parse_sanrazor_ok [OF d(2)])+
  with n show False by simp
qed

theorem sanrazor_main_errors_witness:
  "sanrazor_main \<lparr>m_files = (\<lambda>p. Some Dir), m_expand = (\<lambda>p. p), m_glob = (\<lambda>p. [''401.bzip2''])\<rparr> demo_sanrazor_args =
     Inl IsADirectoryError \<and> (IsADirectoryError = IsADirectoryError \<or> IsADirectoryError = OverflowError)"
proof -
  have e: "sanrazor_main \<lparr>m_files = (\<lambda>p. Some Dir), m_expand = (\<lambda>p. p), m_glob = (\<lambda>p. [''401.bzip2''])\<rparr>
      demo_sanrazor_args = Inl IsADirectoryError" by code_simp
  from sanrazor_main_errors [OF e] e show ?thesis by blast
qed

end
