(* ===== verification/CollectAll.thy ===== *)
theory CollectAll
  imports Overhead PyCsv PyRegex "HOL-Library.List_Lexorder" "HOL-Library.Product_Lexorder"
    "HOL-Library.Char_ord" "HOL-Library.Multiset"
begin

text \<open>
  \<open>scripts/collect_all_results.py\<close>: every summary CSV of the output directory is read, its
  rows are completed with the group and the sanitizer, filtered one by one, then filtered
  project by project (two or more negative overhead reductions; a single sanitizer), sorted
  and written. A row is the dictionary of the script: its values are strings, or \<open>None\<close> where
  a summary row was too short.
\<close>

section \<open>Names\<close>

text \<open>\<open>(?P<name>.+)-(?P<sanitizer>asan|ubsan|msan)-after-read-check-elimination-summary\.csv$\<close>\<close>

definition SUMMARY_RE :: rx where
  "SUMMARY_RE = Seqs [Group 1 (Plus Dot), Chr (CHR ''-''),
     Group 2 (Alt (Lit ''asan'') (Alt (Lit ''ubsan'') (Lit ''msan''))),
     Lit ''-after-read-check-elimination-summary.csv'', Eol]"

definition FIELDNAMES :: "string list" where
  "FIELDNAMES = [''Result Group'', ''Suite'', ''Benchmark'', ''Sanitizer'', ''Compile Units'', ''Fallback Units'',
     ''Original Checks'', ''Core Checks'', ''Core / All'', ''Removed Checks'', ''Removed / All'',
     ''Removed / Core'', ''Runtime Native'', ''Runtime Before'', ''Runtime After'', ''Sanitizer Overhead %'',
     ''DESAN Overhead %'', ''Overhead Reduction %'', ''Native Status'', ''Before Status'', ''After Status'',
     ''Source Summary'']"

definition EXCLUDED_BENCHMARKS :: "string list" where
  "EXCLUDED_BENCHMARKS = [''findutils'', ''gawk'', ''json-c'', ''pigz'', ''sqlite'']"

definition SANITIZERS :: "string list" where
  "SANITIZERS = [''asan'', ''ubsan'', ''msan'']"

definition result_group :: "string \<Rightarrow> string option \<Rightarrow> string" where
  "result_group stem suite =
     (if startswith stem ''spec-cpu2006'' then ''spec-cpu2006''
      else if startswith stem ''spec-cpu2017'' then ''spec-cpu2017''
      else if stem = ''openssl'' \<or> stem = ''git'' then stem
      else if suite = Some ''OpenSource'' then ''opensource''
      else or_else suite stem)"

text \<open>
  The sort key. Every row that is sorted has a benchmark name (a row with \<open>None\<close> there has
  raised in \<open>is_excluded_project\<close>), so the names are compared as strings.
\<close>

definition group_order :: "string option \<Rightarrow> int" where
  "group_order g =
     (if g = Some ''spec-cpu2006'' then 0 else if g = Some ''spec-cpu2017'' then 1
      else if g = Some ''openssl'' then 2 else if g = Some ''git'' then 3
      else if g = Some ''opensource'' then 4 else 99)"

definition sanitizer_order :: "string option \<Rightarrow> int" where
  "sanitizer_order s =
     (if s = Some ''asan'' then 0 else if s = Some ''ubsan'' then 1 else if s = Some ''msan'' then 2 else 99)"

definition row_order :: "csv_dict \<Rightarrow> int \<times> string \<times> int" where
  "row_order row = (group_order (row_get row ''Result Group''), or_else (row_get row ''Benchmark'') '''',
     sanitizer_order (row_get row ''Sanitizer''))"

section \<open>Filters of one row\<close>

text \<open>\<open>float(str(value).strip())\<close> or \<open>None\<close>; \<open>str(None)\<close> is no number.\<close>

definition numeric_cell :: "string option \<Rightarrow> pyfloat option" where
  "numeric_cell value = (case value of
      None \<Rightarrow> None
    | Some s \<Rightarrow> (case py_float (strip s) of Inl e \<Rightarrow> None | Inr x \<Rightarrow> Some x))"

text \<open>\<open>row.get(field, "").strip()\<close>\<close>

definition stripped :: "csv_dict \<Rightarrow> string \<Rightarrow> string res" where
  "stripped row field = (case row_get_or row field '''' of None \<Rightarrow> Inl AttributeError | Some s \<Rightarrow> Inr (strip s))"

fun all_stripped :: "csv_dict \<Rightarrow> string list \<Rightarrow> string \<Rightarrow> bool res" where
  "all_stripped row [] v = Inr True"
| "all_stripped row (f # fs) v =
     bindE (stripped row f) (\<lambda>s. if s = v then all_stripped row fs v else Inr False)"

definition is_successful_runtime :: "csv_dict \<Rightarrow> bool res" where
  "is_successful_runtime row = all_stripped row [''Native Status'', ''Before Status'', ''After Status''] ''S''"

definition has_inserted_checks :: "csv_dict \<Rightarrow> bool" where
  "has_inserted_checks row = (case numeric_cell (row_get row ''Original Checks'') of
      None \<Rightarrow> False | Some x \<Rightarrow> Fin 0 < x)"

definition is_excluded_project :: "csv_dict \<Rightarrow> bool res" where
  "is_excluded_project row = bindE (stripped row ''Benchmark'') (\<lambda>b. Inr (lower b \<in> set EXCLUDED_BENCHMARKS))"

definition has_negative_overhead_reduction :: "csv_dict \<Rightarrow> bool" where
  "has_negative_overhead_reduction row = (case numeric_cell (row_get row ''Overhead Reduction %'') of
      None \<Rightarrow> False | Some x \<Rightarrow> x < Fin 0)"

section \<open>Filters of projects\<close>

type_synonym project = "string option \<times> string option"

definition project_key :: "csv_dict \<Rightarrow> project" where
  "project_key row = (row_get row ''Result Group'', row_get row ''Benchmark'')"

definition known_sanitizer :: "csv_dict \<Rightarrow> bool" where
  "known_sanitizer row = (case row_get row ''Sanitizer'' of None \<Rightarrow> False | Some s \<Rightarrow> s \<in> set SANITIZERS)"

definition count_negative :: "csv_dict \<Rightarrow> (project, int) dict \<Rightarrow> (project, int) dict" where
  "count_negative row counts =
     (if \<not> known_sanitizer row then counts
      else if \<not> has_negative_overhead_reduction row then counts
      else (let key = project_key row in dset key (dget counts key 0 + 1) counts))"

definition filter_projects_with_multiple_negative_reductions ::
  "csv_dict list \<Rightarrow> csv_dict list \<times> project list" where
  "filter_projects_with_multiple_negative_reductions rows =
     (let negative_counts = fold count_negative rows [];
          removed_projects = map fst (filter (\<lambda>(key, n). 2 \<le> n) negative_counts) in
      (filter (\<lambda>row. project_key row \<notin> set removed_projects) rows, removed_projects))"

definition add_sanitizer :: "csv_dict \<Rightarrow> (project, string option set) dict \<Rightarrow> (project, string option set) dict" where
  "add_sanitizer row sanitizers =
     (if \<not> known_sanitizer row then sanitizers
      else (let key = project_key row in
        dset key (insert (row_get row ''Sanitizer'') (dget sanitizers key {})) sanitizers))"

definition filter_projects_with_single_sanitizer :: "csv_dict list \<Rightarrow> csv_dict list \<times> project list" where
  "filter_projects_with_single_sanitizer rows =
     (let project_sanitizers = fold add_sanitizer rows [];
          removed_projects = map fst (filter (\<lambda>(key, s). card s = 1) project_sanitizers) in
      (filter (\<lambda>row. project_key row \<notin> set removed_projects) rows, removed_projects))"

section \<open>main\<close>

text \<open>The row made of a summary row; columns of the summary override what the file name says.\<close>

definition complete_row :: "string \<Rightarrow> string \<Rightarrow> string \<Rightarrow> csv_dict \<Rightarrow> csv_dict" where
  "complete_row stem sanitizer source summary =
     (let suite = row_get_or summary ''Suite'' '''';
          row0 = map (\<lambda>name. (name, Some '''')) FIELDNAMES;
          row1 = dset ''Source Summary'' (Some source)
            (dset ''Sanitizer'' (Some sanitizer)
              (dset ''Benchmark'' (row_get_or summary ''Benchmark'' '''')
                (dset ''Suite'' suite
                  (dset ''Result Group'' (Some (result_group stem suite)) row0)))) in
      fold (\<lambda>field row. case map_of summary field of None \<Rightarrow> row | Some v \<Rightarrow> dset field v row) FIELDNAMES row1)"

definition keep_row :: "csv_dict \<Rightarrow> bool res" where
  "keep_row row =
     bindE (is_excluded_project row) (\<lambda>excluded. if excluded then Inr False
     else bindE (is_successful_runtime row) (\<lambda>ok. Inr (ok \<and> has_inserted_checks row)))"

definition add_rows :: "string \<Rightarrow> string \<Rightarrow> string \<Rightarrow> csv_dict \<Rightarrow> csv_dict list \<Rightarrow> csv_dict list res" where
  "add_rows stem sanitizer source summary rows =
     (let row = complete_row stem sanitizer source summary in
      bindE (keep_row row) (\<lambda>keep. Inr (if keep then rows @ [row] else rows)))"

definition read_summary_file :: "files \<Rightarrow> string \<Rightarrow> csv_dict list \<Rightarrow> csv_dict list res" where
  "read_summary_file fs path rows = (case re_match SUMMARY_RE (path_name path) of
      None \<Rightarrow> Inr rows
    | Some t \<Rightarrow> bindE (read_text fs path) (\<lambda>text.
        foldE (add_rows (the (group 1 t)) (the (group 2 t)) (path_name path)) (dict_reader (CHR '','') text) rows))"

record collected =
  col_rows :: "csv_dict list"
  col_lines :: "string list"

text \<open>The glob finds the files of one directory, which are sorted by name.\<close>

definition collect_all_main :: "machine \<Rightarrow> string \<Rightarrow> string \<Rightarrow> collected res" where
  "collect_all_main m out_dir csv_out =
     bindE (foldE (read_summary_file (m_files m))
         (sort_key path_name (m_glob m (path_div out_dir ''*-summary.csv''))) []) (\<lambda>rows0.
     let (rows1, removed_projects) = filter_projects_with_multiple_negative_reductions rows0;
         (rows2, single_sanitizer_projects) = filter_projects_with_single_sanitizer rows1;
         rows = sort_key row_order rows2 in
     Inr \<lparr>col_rows = rows,
          col_lines = [path_str csv_out, ''rows='' @ show_int (int (length rows)),
            ''removed_projects='' @ show_int (int (length removed_projects)),
            ''single_sanitizer_projects='' @ show_int (int (length single_sanitizer_projects))]\<rparr>)"

section \<open>What the project filters count\<close>

definition negative_row :: "csv_dict \<Rightarrow> bool" where
  "negative_row row \<longleftrightarrow> known_sanitizer row \<and> has_negative_overhead_reduction row"

interpretation negatives: keyed_sum "\<lambda>row counts. Inr (count_negative row counts)" map_of
    "\<lambda>row. if negative_row row then Some (project_key row) else None"
    "\<lambda>_ v. (case v of None \<Rightarrow> 0 | Some n \<Rightarrow> n) + (1 :: int)" "\<lambda>_. 1"
  by unfold_locales (auto simp: count_negative_def negative_row_def Let_def dict_simps dget_def)

interpretation sanitizers: keyed_loop "\<lambda>row d. Inr (add_sanitizer row d)" map_of
    "\<lambda>row. if known_sanitizer row then Some (project_key row) else None"
    "\<lambda>row v. insert (row_get row ''Sanitizer'') (case v of None \<Rightarrow> {} | Some s \<Rightarrow> s)"
  by unfold_locales (auto simp: add_sanitizer_def Let_def dict_simps dget_def)

lemma fold_as_foldE: "foldE (\<lambda>r d. Inr (f r d)) rs d = Inr (fold f rs d)"
  by (rule foldE_total) simp

lemma distinct_fold: "(\<And>r d. distinct (dkeys d) \<Longrightarrow> distinct (dkeys (f r d))) \<Longrightarrow> distinct (dkeys d) \<Longrightarrow>
  distinct (dkeys (fold f rs d))"
  by (induction rs arbitrary: d) auto

lemma distinct_negatives: "distinct (dkeys (fold count_negative rows []))"
  by (rule distinct_fold) (auto simp: count_negative_def Let_def)

lemma distinct_sanitizers: "distinct (dkeys (fold add_sanitizer rows []))"
  by (rule distinct_fold) (auto simp: add_sanitizer_def Let_def)

lemma removed_keys: "distinct (dkeys d) \<Longrightarrow>
  p \<in> set (map fst (filter (\<lambda>(k, v). P v) d)) \<longleftrightarrow> (\<exists>v. map_of d p = Some v \<and> P v)"
  by (auto simp: image_iff)

definition project_negatives :: "csv_dict list \<Rightarrow> project \<Rightarrow> nat" where
  "project_negatives rows p = length (filter (\<lambda>row. negative_row row \<and> project_key row = p) rows)"

definition project_sanitizer_set :: "csv_dict list \<Rightarrow> project \<Rightarrow> string option set" where
  "project_sanitizer_set rows p =
     (\<lambda>row. row_get row ''Sanitizer'') ` set (filter (\<lambda>row. known_sanitizer row \<and> project_key row = p) rows)"

lemma negatives_removed:
  "p \<in> set (snd (filter_projects_with_multiple_negative_reductions rows)) \<longleftrightarrow> 2 \<le> project_negatives rows p"
proof -
  let ?d = "fold count_negative rows []"
  have eq: "filter (\<lambda>r. (if negative_row r then Some (project_key r) else None) = Some p) rows =
      filter (\<lambda>row. negative_row row \<and> project_key row = p) rows"
    by (rule filter_cong) auto
  have "(case map_of ?d p of None \<Rightarrow> 0 | Some v \<Rightarrow> v) = int (project_negatives rows p)"
    using negatives.loop_sum_default [OF fold_as_foldE [of count_negative rows "[]"], of p]
    by (simp add: eq project_negatives_def sum_list_triv)
  then have "(\<exists>v. map_of ?d p = Some v \<and> 2 \<le> v) \<longleftrightarrow> 2 \<le> project_negatives rows p"
    by (auto split: option.splits)
  then show ?thesis
    unfolding filter_projects_with_multiple_negative_reductions_def Let_def snd_conv
    by (subst removed_keys [OF distinct_negatives]) simp
qed

lemma fold_insert_set: "fold (\<lambda>r v. Some (insert (f r) (case v of None \<Rightarrow> {} | Some s \<Rightarrow> s))) rs v =
  (if rs = [] then v else Some (f ` set rs \<union> (case v of None \<Rightarrow> {} | Some s \<Rightarrow> s)))"
  by (induction rs arbitrary: v) auto

lemma single_removed:
  "p \<in> set (snd (filter_projects_with_single_sanitizer rows)) \<longleftrightarrow> card (project_sanitizer_set rows p) = 1"
proof -
  let ?d = "fold add_sanitizer rows []"
  let ?rs = "filter (\<lambda>r. (if known_sanitizer r then Some (project_key r) else None) = Some p) rows"
  have s: "project_sanitizer_set rows p = (\<lambda>r. row_get r ''Sanitizer'') ` set ?rs"
    by (auto simp: project_sanitizer_set_def split: if_splits)
  have "map_of ?d p = (if ?rs = [] then None else Some (project_sanitizer_set rows p))"
    using sanitizers.loop_look [OF fold_as_foldE [of add_sanitizer rows "[]"], of p]
    by (simp add: fold_insert_set s)
  moreover have "project_sanitizer_set rows p = {}" if "?rs = []" unfolding s that by simp
  ultimately have "(\<exists>v. map_of ?d p = Some v \<and> card v = 1) \<longleftrightarrow> card (project_sanitizer_set rows p) = 1"
    by (cases "?rs = []") (simp_all only: if_True if_False option.inject option.distinct, auto)
  then show ?thesis
    unfolding filter_projects_with_single_sanitizer_def Let_def snd_conv
    by (subst removed_keys [OF distinct_sanitizers]) simp
qed

lemma filters_fst:
  "fst (filter_projects_with_multiple_negative_reductions rows) =
     filter (\<lambda>row. project_negatives rows (project_key row) < 2) rows"
  "fst (filter_projects_with_single_sanitizer rows) =
     filter (\<lambda>row. card (project_sanitizer_set rows (project_key row)) \<noteq> 1) rows"
proof -
  have "fst (filter_projects_with_multiple_negative_reductions rows) = filter (\<lambda>row. project_key row \<notin>
      set (snd (filter_projects_with_multiple_negative_reductions rows))) rows"
    by (simp add: filter_projects_with_multiple_negative_reductions_def Let_def)
  then show "fst (filter_projects_with_multiple_negative_reductions rows) =
     filter (\<lambda>row. project_negatives rows (project_key row) < 2) rows"
    by (simp only: negatives_removed not_le)
  have "fst (filter_projects_with_single_sanitizer rows) = filter (\<lambda>row. project_key row \<notin>
      set (snd (filter_projects_with_single_sanitizer rows))) rows"
    by (simp add: filter_projects_with_single_sanitizer_def Let_def)
  then show "fst (filter_projects_with_single_sanitizer rows) =
     filter (\<lambda>row. card (project_sanitizer_set rows (project_key row)) \<noteq> 1) rows"
    by (simp only: single_removed)
qed

text \<open>The first filter keeps or drops a project as a whole, so the second one sees all of it.\<close>

lemma sanitizers_after_first:
  assumes "project_negatives rows p < 2"
  shows "project_sanitizer_set (filter (\<lambda>row. project_negatives rows (project_key row) < 2) rows) p =
    project_sanitizer_set rows p"
  using assms by (auto simp: project_sanitizer_set_def)

definition keep_project :: "csv_dict list \<Rightarrow> project \<Rightarrow> bool" where
  "keep_project rows p \<longleftrightarrow> project_negatives rows p < 2 \<and> card (project_sanitizer_set rows p) \<noteq> 1"

lemma both_filters:
  "fst (filter_projects_with_single_sanitizer (fst (filter_projects_with_multiple_negative_reductions rows))) =
   filter (\<lambda>row. keep_project rows (project_key row)) rows"
  unfolding filters_fst filter_filter
  by (rule filter_cong [OF refl]) (simp add: keep_project_def sanitizers_after_first cong: conj_cong)

lemma collect_all_rows:
  assumes "collect_all_main m out_dir csv_out = Inr col"
    and "foldE (read_summary_file (m_files m))
      (sort_key path_name (m_glob m (path_div out_dir ''*-summary.csv''))) [] = Inr rows"
  shows "col_rows col = sort_key row_order (filter (\<lambda>row. keep_project rows (project_key row)) rows)"
  using assms both_filters [of rows]
  by (auto simp: collect_all_main_def res_simps Let_def split: prod.splits)

section \<open>What the row filters let through\<close>

lemma all_stripped_True: "all_stripped row fs v = Inr True \<Longrightarrow> f \<in> set fs \<Longrightarrow> stripped row f = Inr v"
  by (induction fs) (auto simp: res_simps split: if_splits)

lemma keep_row_True:
  assumes "keep_row row = Inr True"
  shows "\<exists>b. row_get_or row ''Benchmark'' '''' = Some b \<and> lower (strip b) \<notin> set EXCLUDED_BENCHMARKS"
    "f \<in> {''Native Status'', ''Before Status'', ''After Status''} \<Longrightarrow> stripped row f = Inr ''S''"
    "\<exists>x. numeric_cell (row_get row ''Original Checks'') = Some x \<and> Fin 0 < x"
  using assms
  by (auto simp: keep_row_def is_excluded_project_def is_successful_runtime_def has_inserted_checks_def res_simps
      stripped_def split: if_splits option.splits)

lemma read_summary_file_keeps:
  assumes "read_summary_file fs path rows = Inr rows'" "\<forall>r\<in>set rows. keep_row r = Inr True"
  shows "\<forall>r\<in>set rows'. keep_row r = Inr True"
proof (cases "re_match SUMMARY_RE (path_name path)")
  case (Some t)
  with assms(1) obtain body where f: "foldE (add_rows (the (group 1 t)) (the (group 2 t)) (path_name path))
      (dict_reader (CHR '','') body) rows = Inr rows'"
    by (auto simp: read_summary_file_def res_simps)
  show ?thesis
    by (rule foldE_invariant [where P = "\<lambda>rows. \<forall>r\<in>set rows. keep_row r = Inr True", OF f assms(2)])
      (auto simp: add_rows_def Let_def res_simps split: if_splits)
qed (use assms in \<open>simp add: read_summary_file_def\<close>)

lemma all_rows_kept:
  assumes "foldE (read_summary_file fs) paths [] = Inr rows" "r \<in> set rows"
  shows "keep_row r = Inr True"
proof -
  have "\<forall>r\<in>set rows. keep_row r = Inr True"
    by (rule foldE_invariant [where P = "\<lambda>rows. \<forall>r\<in>set rows. keep_row r = Inr True", OF assms(1)])
      (auto dest: read_summary_file_keeps)
  with assms(2) show ?thesis by blast
qed

lemma stripped_exn: "stripped row f = Inl e \<Longrightarrow> e = AttributeError"
  by (auto simp: stripped_def split: option.splits)

lemma all_stripped_exn: "all_stripped row fs v = Inl e \<Longrightarrow> e = AttributeError"
  by (induction fs) (auto simp: res_simps dest: stripped_exn split: if_splits)

lemma keep_row_exn: "keep_row row = Inl e \<Longrightarrow> e = AttributeError"
  by (auto simp: keep_row_def is_excluded_project_def is_successful_runtime_def res_simps
      dest: stripped_exn all_stripped_exn split: if_splits)

lemma read_summary_file_exn:
  "read_summary_file fs path rows = Inl e \<Longrightarrow> e \<in> {AttributeError, FileNotFoundError, IsADirectoryError}"
  by (auto simp: read_summary_file_def add_rows_def Let_def res_simps read_text_def
      dest!: foldE_Inl_cases dest: keep_row_exn split: option.splits fnode.splits)

section \<open>Properties\<close>

text \<open>
  C18: a project (a result group and a benchmark) is kept or dropped as a whole: the output has
  all the candidate rows of a project with fewer than two negative overhead reductions and
  not exactly one sanitizer, and no row of any other project; whatever order the two
  filters run in, this is decided on the candidate rows alone.
\<close>

theorem collect_all_whole_projects:
  assumes "collect_all_main m out_dir csv_out = Inr col"
    and "foldE (read_summary_file (m_files m))
      (sort_key path_name (m_glob m (path_div out_dir ''*-summary.csv''))) [] = Inr rows"
  shows "mset (filter (\<lambda>row. project_key row = p) (col_rows col)) =
    (if project_negatives rows p < 2 \<and> card (project_sanitizer_set rows p) \<noteq> 1
     then mset (filter (\<lambda>row. project_key row = p) rows) else {#})"
proof -
  have "mset (filter (\<lambda>row. project_key row = p) (col_rows col)) =
      filter_mset (\<lambda>row. project_key row = p \<and> keep_project rows (project_key row)) (mset rows)"
    unfolding collect_all_rows [OF assms] mset_filter mset_sort filter_filter_mset
    by (rule filter_mset_cong) auto
  also have "\<dots> = (if keep_project rows p then filter_mset (\<lambda>row. project_key row = p) (mset rows) else {#})"
    by (auto intro!: filter_mset_cong)
  finally show ?thesis by (simp add: keep_project_def)
qed

text \<open>
  C36: every collected row passed the filters of one row (its three runs succeeded, it has
  inserted checks, its project is not excluded), and the rows are sorted by group, benchmark
  and sanitizer.
\<close>

theorem collect_all_rows_ok:
  assumes "collect_all_main m out_dir csv_out = Inr col"
  shows "sorted (map row_order (col_rows col)) \<and>
    (\<forall>row\<in>set (col_rows col).
      (\<forall>f\<in>{''Native Status'', ''Before Status'', ''After Status''}. stripped row f = Inr ''S'') \<and>
      (\<exists>x. numeric_cell (row_get row ''Original Checks'') = Some x \<and> Fin 0 < x) \<and>
      (\<exists>b. row_get_or row ''Benchmark'' '''' = Some b \<and> lower (strip b) \<notin> set EXCLUDED_BENCHMARKS))"
proof -
  from assms obtain rows where r: "foldE (read_summary_file (m_files m))
      (sort_key path_name (m_glob m (path_div out_dir ''*-summary.csv''))) [] = Inr rows"
    by (auto simp: collect_all_main_def res_simps)
  have "keep_row row = Inr True" if "row \<in> set (col_rows col)" for row
    using that all_rows_kept [OF r] by (auto simp: collect_all_rows [OF assms r])
  with keep_row_True show ?thesis by (simp add: collect_all_rows [OF assms r])
qed

text \<open>The summaries of one project under two sanitizers; nothing was removed.\<close>

definition demo_summary_csv :: string where
  "demo_summary_csv = join [NL] (map (join '','') [[''Suite'', ''Benchmark'', ''Original Checks'', ''Removed Checks'',
       ''Overhead Reduction %'', ''Native Status'', ''Before Status'', ''After Status''],
     [''OpenSource'', ''zlib'', ''12'', ''0'', ''1.5'', ''S'', ''S'', ''S'']]) @ [NL]"

definition demo_collect_machine :: machine where
  "demo_collect_machine = \<lparr>m_files = (\<lambda>p. Some (File demo_summary_csv)), m_expand = (\<lambda>p. p),
     m_glob = (\<lambda>p. [''out/zlib-ubsan-after-read-check-elimination-summary.csv'',
       ''out/zlib-asan-after-read-check-elimination-summary.csv'', ''out/other-summary.csv''])\<rparr>"

definition demo_collected :: "string list" where
  "demo_collected = [''all.csv'', ''rows=2'', ''removed_projects=0'', ''single_sanitizer_projects=0'']"

definition demo_row :: "string \<Rightarrow> csv_dict" where
  "demo_row sanitizer = complete_row ''zlib'' sanitizer
     (''zlib-'' @ sanitizer @ ''-after-read-check-elimination-summary.csv'') (hd (dict_reader (CHR '','') demo_summary_csv))"

lemma demo_candidates:
  "foldE (read_summary_file (m_files demo_collect_machine))
     (sort_key path_name (m_glob demo_collect_machine (path_div ''out'' ''*-summary.csv''))) [] =
   Inr [demo_row ''asan'', demo_row ''ubsan'']"
  by code_simp

lemma demo_filters:
  "filter_projects_with_multiple_negative_reductions [demo_row ''asan'', demo_row ''ubsan''] =
     ([demo_row ''asan'', demo_row ''ubsan''], [])"
  "filter_projects_with_single_sanitizer [demo_row ''asan'', demo_row ''ubsan''] =
     ([demo_row ''asan'', demo_row ''ubsan''], [])"
  "sort_key row_order [demo_row ''asan'', demo_row ''ubsan''] = [demo_row ''asan'', demo_row ''ubsan'']"
  by code_simp+

lemma demo_collect_runs:
  "collect_all_main demo_collect_machine ''out'' ''all.csv'' =
   Inr \<lparr>col_rows = [demo_row ''asan'', demo_row ''ubsan''], col_lines = demo_collected\<rparr>"
proof -
  have "show_int (int (length [demo_row ''asan'', demo_row ''ubsan''])) = ''2''"
    "show_int (int (length ([] :: project list))) = ''0''" "path_str ''all.csv'' = ''all.csv''"
    by code_simp+
  then show ?thesis
    by (simp only: collect_all_main_def demo_candidates bindE.simps demo_filters Let_def prod.case)
      (simp add: demo_collected_def)
qed

lemma demo_rows:
  "row_get (demo_row ''asan'') ''Removed Checks'' = Some ''0''" "row_get (demo_row ''ubsan'') ''Removed Checks'' = Some ''0''"
  "project_key (demo_row ''asan'') = (Some ''opensource'', Some ''zlib'')"
  "project_key (demo_row ''ubsan'') = (Some ''opensource'', Some ''zlib'')"
  "row_get (demo_row ''asan'') ''Sanitizer'' = Some ''asan''" "row_get (demo_row ''ubsan'') ''Sanitizer'' = Some ''ubsan''"
  "known_sanitizer (demo_row ''asan'')" "known_sanitizer (demo_row ''ubsan'')"
  "\<not> negative_row (demo_row ''asan'')" "\<not> negative_row (demo_row ''ubsan'')"
  by code_simp+

theorem collect_all_rows_ok_witness:
  "\<exists>col. collect_all_main demo_collect_machine ''out'' ''all.csv'' = Inr col \<and>
     (\<forall>row\<in>set (col_rows col). stripped row ''After Status'' = Inr ''S'') \<and> length (col_rows col) = 2"
  using collect_all_rows_ok [OF demo_collect_runs] demo_collect_runs by auto

theorem collect_all_whole_projects_witness:
  "\<exists>col. collect_all_main demo_collect_machine ''out'' ''all.csv'' = Inr col \<and>
     mset (filter (\<lambda>row. project_key row = (Some ''opensource'', Some ''zlib'')) (col_rows col)) =
       {#demo_row ''asan'', demo_row ''ubsan''#}"
proof -
  let ?p = "(Some ''opensource'', Some ''zlib'')" and ?rows = "[demo_row ''asan'', demo_row ''ubsan'']"
  have "project_sanitizer_set ?rows ?p = {Some ''asan'', Some ''ubsan''}"
    by (simp add: project_sanitizer_set_def demo_rows)
  then have "card (project_sanitizer_set ?rows ?p) = 2" by simp
  moreover have "project_negatives ?rows ?p = 0" by (simp add: project_negatives_def demo_rows)
  ultimately show ?thesis
    using collect_all_whole_projects [OF demo_collect_runs demo_candidates, of ?p] demo_collect_runs
    by (simp add: demo_rows)
qed


text \<open>
  The collection can only fail because a summary row is too short for a field that is
  stripped, or because a summary is not a readable file: unreadable numbers only drop rows.
\<close>

theorem collect_all_errors:
  assumes "collect_all_main m out_dir csv_out = Inl e"
  shows "e \<in> {AttributeError, FileNotFoundError, IsADirectoryError}"
  using assms
  by (auto simp: collect_all_main_def res_simps Let_def split_def
      dest!: foldE_Inl_cases dest: read_summary_file_exn)

theorem collect_all_errors_witness:
  "collect_all_main (demo_collect_machine\<lparr>m_files := \<lambda>p. Some (File ''Suite,Benchmark\<newline>OpenSource'')\<rparr>) ''out'' ''all.csv'' =
     Inl AttributeError \<and> AttributeError \<in> {AttributeError, FileNotFoundError, IsADirectoryError}"
proof -
  have e: "collect_all_main (demo_collect_machine\<lparr>m_files := \<lambda>p. Some (File ''Suite,Benchmark\<newline>OpenSource'')\<rparr>)
      ''out'' ''all.csv'' = Inl AttributeError" by code_simp
  from collect_all_errors [OF e] e show ?thesis by blast
qed

end
