(* ===== verification/CollectOss.thy ===== *)
theory CollectOss
  imports Overhead PyCsv "HOL-Library.List_Lexorder" "HOL-Library.Char_ord"
begin

text \<open>
  \<open>scripts/collect_oss_batch_results.py\<close>: one row per project and sanitizer, made of the
  status the batch runner recorded and of the project's summary, written as CSV and as a
  Markdown table. The values of a row are strings, or \<open>None\<close> where an input row was too short.
\<close>

section \<open>Reading\<close>

type_synonym statuses = "(string option \<times> string option, string option \<times> string option) dict"

definition add_status :: "csv_dict \<Rightarrow> statuses \<Rightarrow> statuses" where
  "add_status row statuses =
     dset (row_get_or row ''Project'' '''', row_get_or row ''Sanitizer'' '''')
       (row_get_or row ''Status'' '''', row_get_or row ''Message'' '''') statuses"

definition read_statuses :: "files \<Rightarrow> string \<Rightarrow> statuses res" where
  "read_statuses fs path =
     (if \<not> path_exists fs path then Inr []
      else bindE (read_text fs path) (\<lambda>text. Inr (fold add_status (dict_reader (CHR '','') text) [])))"

definition read_summary :: "files \<Rightarrow> string \<Rightarrow> csv_dict option res" where
  "read_summary fs path =
     (if \<not> path_exists fs path then Inr None
      else bindE (read_text fs path) (\<lambda>text.
        Inr (case dict_reader (CHR '','') text of [] \<Rightarrow> None | row # _ \<Rightarrow> Some row)))"

section \<open>Cells\<close>

text \<open>\<open>float(value)\<close>; \<open>None\<close> is a \<open>TypeError\<close>, which these formatters catch with \<open>ValueError\<close>.\<close>

definition float_of_cell :: "string option \<Rightarrow> pyfloat option" where
  "float_of_cell value = (case value of
      None \<Rightarrow> None
    | Some s \<Rightarrow> (case py_float s of Inl e \<Rightarrow> None | Inr x \<Rightarrow> Some x))"

text \<open>\<open>int\<close> of an infinity raises \<open>OverflowError\<close>, which is not caught.\<close>

definition cell_int :: "string option \<Rightarrow> string res" where
  "cell_int value = (case float_of_cell value of
      None \<Rightarrow> Inr ''--''
    | Some x \<Rightarrow> catch_ValueError (bindE (int_of_float x) (\<lambda>i. Inr (fmt_thousands i))) (Inr ''--''))"

definition cell_float :: "string option \<Rightarrow> string" where
  "cell_float value = (case float_of_cell value of None \<Rightarrow> ''--'' | Some x \<Rightarrow> fmt_fixed 3 x)"

definition cell_pct :: "string option \<Rightarrow> string" where
  "cell_pct value = (case float_of_cell value of None \<Rightarrow> ''--'' | Some x \<Rightarrow> fmt_fixed 2 x @ ''%'')"

section \<open>Rows\<close>

definition summary_fields :: "string list" where
  "summary_fields = [''Original Checks'', ''Core Checks'', ''Core / All'', ''Removed Checks'', ''Removed / All'',
     ''Removed / Core'', ''Runtime Native'', ''Runtime Before'', ''Runtime After'', ''Sanitizer Overhead %'',
     ''DESAN Overhead %'', ''Overhead Reduction %'']"

definition oss_fieldnames :: "string list" where
  "oss_fieldnames = [''Project'', ''Sanitizer'', ''Status'', ''Message''] @ summary_fields"

definition batch_row :: "statuses \<Rightarrow> csv_dict option \<Rightarrow> string \<Rightarrow> string \<Rightarrow> csv_dict" where
  "batch_row statuses summary project sanitizer =
     (let (status, message) = (case map_of statuses (Some project, Some sanitizer) of
            None \<Rightarrow> (Some '''', Some '''') | Some sm \<Rightarrow> sm);
          row0 = map (\<lambda>name. (name, Some '''')) oss_fieldnames;
          row1 = dset ''Message'' message (dset ''Status'' status
            (dset ''Sanitizer'' (Some sanitizer) (dset ''Project'' (Some project) row0))) in
      case summary of
        None \<Rightarrow> row1
      | Some s \<Rightarrow> if s = [] then row1
          else fold (\<lambda>field. dset field (row_get_or s field '''')) summary_fields row1)"

definition summary_path :: "string \<Rightarrow> string \<Rightarrow> string \<Rightarrow> string" where
  "summary_path out_dir project sanitizer =
     path_div out_dir (project @ ''-'' @ sanitizer @ ''-after-read-check-elimination-summary.csv'')"

definition batch_rows :: "files \<Rightarrow> string \<Rightarrow> statuses \<Rightarrow> string list \<Rightarrow> string list \<Rightarrow> csv_dict list res" where
  "batch_rows fs out_dir statuses projects sanitizers =
     foldE (\<lambda>project rows. foldE (\<lambda>sanitizer rows.
        bindE (read_summary fs (summary_path out_dir project sanitizer)) (\<lambda>summary.
          Inr (rows @ [batch_row statuses summary project sanitizer]))) sanitizers rows) projects []"

definition md_line :: "csv_dict \<Rightarrow> string res" where
  "md_line row =
     (let get = row_get row in
      bindE (cell_int (get ''Original Checks'')) (\<lambda>orig.
      bindE (cell_int (get ''Removed Checks'')) (\<lambda>removed.
      Inr (table_line [or_else (get ''Project'') '''', or_else (get ''Sanitizer'') '''', or_else (get ''Status'') ''--'',
        orig, cell_pct (get ''Core / All''), removed, cell_pct (get ''Removed / All''),
        cell_float (get ''Runtime Native''), cell_float (get ''Runtime Before''), cell_float (get ''Runtime After''),
        cell_pct (get ''Sanitizer Overhead %''), cell_pct (get ''DESAN Overhead %''),
        cell_pct (get ''Overhead Reduction %'')]))))"

definition md_header :: "string list" where
  "md_header = [''| Project | Sanitizer | Status | Orig Checks | Core/All | Removed | Removed/All | Native(s) | Before(s) | After(s) | Sanitizer Overhead | DESAN Overhead | Overhead Reduction |'',
     ''|---|---|---|---|---|---|---|---|---|---|---|---|---|'']"

section \<open>main\<close>

text \<open>\<open>[s.strip() for s in text.split(",") if s.strip()]\<close>\<close>

definition name_list :: "string \<Rightarrow> string list" where
  "name_list s = filter (\<lambda>w. w \<noteq> '''') (map strip (split_on (CHR '','') s))"

definition default_projects :: "machine \<Rightarrow> string \<Rightarrow> string list" where
  "default_projects m out_dir =
     sort (remdups (map (\<lambda>p. hd (split_on (CHR ''-'') (path_name p)))
       (m_glob m (path_div out_dir ''*-after-read-check-elimination-summary.csv''))))"

record batch_report =
  br_rows :: "csv_dict list"
  br_md :: "string list"

definition collect_oss_main :: "machine \<Rightarrow> string \<Rightarrow> string \<Rightarrow> string \<Rightarrow> batch_report res" where
  "collect_oss_main m out_dir projects_arg sanitizers_arg =
     (let sanitizers = name_list sanitizers_arg;
          projects = (if projects_arg \<noteq> '''' then name_list projects_arg else default_projects m out_dir) in
      bindE (read_statuses (m_files m) (path_div out_dir ''oss-batch-after-read-check-elimination-status.csv'')) (\<lambda>statuses.
      bindE (batch_rows (m_files m) out_dir statuses projects sanitizers) (\<lambda>rows.
      bindE (mapE md_line rows) (\<lambda>lines.
      Inr \<lparr>br_rows = rows, br_md = md_header @ lines\<rparr>))))"

section \<open>Lemmas\<close>

lemma summary_fields_names:
  "''Project'' \<notin> set summary_fields" "''Sanitizer'' \<notin> set summary_fields" "''Status'' \<notin> set summary_fields"
  by (simp_all add: summary_fields_def)

lemma row_get_dset: "row_get (dset k v d) k' = (if k' = k then v else row_get d k')"
  by (simp add: row_get_def dict_simps)

lemma fold_dset_fields:
  "k \<notin> set fs \<Longrightarrow> row_get (fold (\<lambda>f. dset f (g f)) fs d) k = row_get d k"
  by (induction fs arbitrary: d) (auto simp: row_get_dset)

lemma batch_row_fields:
  "row_get (batch_row statuses summary project sanitizer) ''Project'' = Some project"
  "row_get (batch_row statuses summary project sanitizer) ''Sanitizer'' = Some sanitizer"
  "row_get (batch_row statuses summary project sanitizer) ''Status'' =
     (case map_of statuses (Some project, Some sanitizer) of None \<Rightarrow> Some '''' | Some (s, _) \<Rightarrow> s)"
  by (auto simp: batch_row_def Let_def fold_dset_fields summary_fields_names row_get_dset
      split: prod.splits option.splits)

lemma batch_rows_inner:
  "foldE (\<lambda>sanitizer rows. bindE (read_summary fs (summary_path out_dir project sanitizer)) (\<lambda>summary.
      Inr (rows @ [batch_row statuses summary project sanitizer]))) sanitizers rows = Inr rows' \<Longrightarrow>
   map (\<lambda>r. (row_get r ''Project'', row_get r ''Sanitizer'')) rows' =
     map (\<lambda>r. (row_get r ''Project'', row_get r ''Sanitizer'')) rows @ map (\<lambda>s. (Some project, Some s)) sanitizers"
  by (induction sanitizers arbitrary: rows) (auto simp: res_simps batch_row_fields)

lemma batch_rows_keys:
  assumes "batch_rows fs out_dir statuses projects sanitizers = Inr rows"
  shows "map (\<lambda>r. (row_get r ''Project'', row_get r ''Sanitizer'')) rows =
    map (\<lambda>(p, s). (Some p, Some s)) (List.product projects sanitizers)"
proof -
  have "map (\<lambda>r. (row_get r ''Project'', row_get r ''Sanitizer'')) rows' =
      map (\<lambda>r. (row_get r ''Project'', row_get r ''Sanitizer'')) rows0 @
      map (\<lambda>(p, s). (Some p, Some s)) (List.product ps sanitizers)"
    if "foldE (\<lambda>project rows. foldE (\<lambda>sanitizer rows.
        bindE (read_summary fs (summary_path out_dir project sanitizer)) (\<lambda>summary.
          Inr (rows @ [batch_row statuses summary project sanitizer]))) sanitizers rows) ps rows0 = Inr rows'"
    for ps rows0 rows'
    using that
    by (induction ps arbitrary: rows0) (auto simp: res_simps comp_def dest!: batch_rows_inner)
  from this [OF assms [unfolded batch_rows_def]] show ?thesis by simp
qed

lemma cell_int_exn: "cell_int v = Inl e \<Longrightarrow> e = OverflowError"
proof -
  have "int_of_float x = Inl e \<Longrightarrow> e = ValueError \<or> e = OverflowError" for x e by (cases x) auto
  then show "cell_int v = Inl e \<Longrightarrow> e = OverflowError"
    by (auto simp: cell_int_def catch_ValueError_def res_simps split: option.splits if_splits)
qed

lemma md_line_exn: "md_line row = Inl e \<Longrightarrow> e = OverflowError"
  by (auto simp: md_line_def Let_def res_simps dest: cell_int_exn)

lemma read_summary_exn: "read_summary fs path = Inl e \<Longrightarrow> e = IsADirectoryError"
  by (auto simp: read_summary_def res_simps dest: read_text_cases split: if_splits)

lemma read_statuses_exn: "read_statuses fs path = Inl e \<Longrightarrow> e = IsADirectoryError"
  by (auto simp: read_statuses_def res_simps dest: read_text_cases split: if_splits)

lemma batch_rows_exn: "batch_rows fs out_dir statuses projects sanitizers = Inl e \<Longrightarrow> e = IsADirectoryError"
  unfolding batch_rows_def
  by (drule foldE_Inl_cases) (auto dest!: foldE_Inl_cases simp: res_simps dest: read_summary_exn)

section \<open>Properties\<close>

text \<open>
  C37: the batch report has exactly one row for every pair of a project and a sanitizer, in
  the order of the two lists, whether or not there is a summary or a status for it, and one
  Markdown line per row after the header.
\<close>

theorem collect_oss_one_row_each:
  assumes "collect_oss_main m out_dir projects_arg sanitizers_arg = Inr rep"
  shows "map (\<lambda>r. (row_get r ''Project'', row_get r ''Sanitizer'')) (br_rows rep) =
      map (\<lambda>(p, s). (Some p, Some s))
        (List.product (if projects_arg \<noteq> '''' then name_list projects_arg else default_projects m out_dir)
          (name_list sanitizers_arg)) \<and>
    length (br_md rep) = 2 + length (br_rows rep)"
  using assms
  by (auto simp: collect_oss_main_def Let_def res_simps md_header_def mapE_Inr_iff dest!: batch_rows_keys
      list_all2_lengthD)

definition demo_batch_machine :: machine where
  "demo_batch_machine = \<lparr>m_files = (\<lambda>p. if p = ''out/zlib-asan-after-read-check-elimination-summary.csv''
       then Some (File ''Original Checks,Core / All\<newline>1200,50.0\<newline>'') else None),
     m_expand = (\<lambda>p. p), m_glob = (\<lambda>p. [''out/zlib-asan-after-read-check-elimination-summary.csv'',
       ''out/c-ares-asan-after-read-check-elimination-summary.csv''])\<rparr>"

lemma demo_batch_runs:
  "case collect_oss_main demo_batch_machine ''out'' '''' ''asan, ubsan'' of Inl e \<Rightarrow> False
   | Inr rep \<Rightarrow> map (\<lambda>r. row_get r ''Project'') (br_rows rep) = [Some ''c'', Some ''c'', Some ''zlib'', Some ''zlib'']"
  by code_simp

theorem collect_oss_one_row_each_witness:
  "\<exists>rep. collect_oss_main demo_batch_machine ''out'' '''' ''asan, ubsan'' = Inr rep \<and>
     length (br_rows rep) = 4 \<and> length (br_md rep) = 6"
proof -
  from demo_batch_runs obtain rep where r: "collect_oss_main demo_batch_machine ''out'' '''' ''asan, ubsan'' = Inr rep"
    "map (\<lambda>r. row_get r ''Project'') (br_rows rep) = [Some ''c'', Some ''c'', Some ''zlib'', Some ''zlib'']"
    by (auto split: sum.splits)
  from arg_cong [OF r(2), of length] collect_oss_one_row_each [OF r(1)] r(1) show ?thesis by auto
qed

text \<open>
  C39: without \<open>--projects\<close> the names of the projects are cut at their first hyphen: no row of
  the report is for a project with a hyphen in its name, although such projects have summaries.
\<close>

theorem collect_oss_default_cuts_names:
  assumes "collect_oss_main m out_dir '''' sanitizers_arg = Inr rep" "row \<in> set (br_rows rep)"
  shows "\<exists>p. row_get row ''Project'' = Some p \<and> CHR ''-'' \<notin> set p"
proof -
  from assms(1) obtain statuses rows where "batch_rows (m_files m) out_dir statuses (default_projects m out_dir)
      (name_list sanitizers_arg) = Inr rows" "br_rows rep = rows"
    by (auto simp: collect_oss_main_def Let_def res_simps)
  then have "map (\<lambda>r. (row_get r ''Project'', row_get r ''Sanitizer'')) (br_rows rep) =
      map (\<lambda>(p, s). (Some p, Some s)) (List.product (default_projects m out_dir) (name_list sanitizers_arg))"
    using batch_rows_keys by blast
  then have "(row_get row ''Project'', row_get row ''Sanitizer'') \<in>
      set (map (\<lambda>(p, s). (Some p, Some s)) (List.product (default_projects m out_dir) (name_list sanitizers_arg)))"
    using assms(2) by (metis (mono_tags, lifting) image_eqI list.set_map)
  then obtain p where p: "row_get row ''Project'' = Some p" "p \<in> set (default_projects m out_dir)" by auto
  then obtain path where "p = hd (split_on (CHR ''-'') (path_name path))"
    by (auto simp: default_projects_def)
  then have "p \<in> set (split_by (\<lambda>x. x = CHR ''-'') (path_name path))"
    using hd_in_set [OF split_by_nonempty] by (simp add: split_on_def)
  from split_by_no_sep [OF this] have "CHR ''-'' \<notin> set p" by blast
  with p(1) show ?thesis by blast
qed

theorem collect_oss_default_cuts_names_witness:
  "\<exists>rep row p. collect_oss_main demo_batch_machine ''out'' '''' ''asan, ubsan'' = Inr rep \<and> row \<in> set (br_rows rep) \<and>
     row_get row ''Project'' = Some p \<and> CHR ''-'' \<notin> set p"
proof -
  from demo_batch_runs obtain rep where r: "collect_oss_main demo_batch_machine ''out'' '''' ''asan, ubsan'' = Inr rep"
    "br_rows rep \<noteq> []" by (auto split: sum.splits)
  then obtain row where "row \<in> set (br_rows rep)" by (cases "br_rows rep") auto
  with collect_oss_default_cuts_names [OF r(1)] r(1) show ?thesis by blast
qed

text \<open>
  The batch report can only fail on a directory in place of a CSV file, or because a count
  of a summary is infinite: every other unreadable value is shown as two dashes.
\<close>

theorem collect_oss_errors:
  assumes "collect_oss_main m out_dir projects_arg sanitizers_arg = Inl e"
  shows "e = IsADirectoryError \<or> e = OverflowError"
  using assms
  by (auto simp: collect_oss_main_def Let_def res_simps dest!: mapE_Inl_cases
      dest: read_statuses_exn batch_rows_exn md_line_exn)

theorem collect_oss_errors_witness:
  "collect_oss_main (demo_batch_machine\<lparr>m_files := \<lambda>p. if p = ''out/x-asan-after-read-check-elimination-summary.csv''
       then Some (File ''Original Checks\<newline>inf\<newline>'') else None\<rparr>) ''out'' ''x'' ''asan'' = Inl OverflowError \<and>
   (OverflowError = IsADirectoryError \<or> OverflowError = OverflowError)"
proof -
  have e: "collect_oss_main (demo_batch_machine\<lparr>m_files := \<lambda>p. if p = ''out/x-asan-after-read-check-elimination-summary.csv''
       then Some (File ''Original Checks\<newline>inf\<newline>'') else None\<rparr>) ''out'' ''x'' ''asan'' = Inl OverflowError"
    by code_simp
  from collect_oss_errors [OF e] e show ?thesis by blast
qed

end
