(* ===== verification/SanrazorAccess.thy ===== *)
theory SanrazorAccess
  imports CountChecks Overhead PyCsv
begin

text \<open>
  \<open>scripts/sanrazor_removed_access_summary.py\<close>: the UBSan checks that SanRazor disabled are
  found in the disassembled bitcode (a branch on a constant that skips a handler block),
  classified as reads, writes or unknown, and summed per level and benchmark. The
  disassembler is a parameter: the text it prints for a file, or its failure.
\<close>

section \<open>Patterns\<close>

definition handler_char :: "char \<Rightarrow> bool" where
  "handler_char c \<longleftrightarrow> is_ascii_alpha c \<or> is_digit c \<or> c = CHR ''_''"

text \<open>\<^verbatim>\<open>@(__ubsan_handle_[A-Za-z0-9_]+)\<close>\<close>

definition UBSAN_CALL_RE :: rx where
  "UBSAN_CALL_RE = Seqs [Chr (CHR ''@''), Group 1 (Cat (Lit ''__ubsan_handle_'') (Plus (One handler_char)))]"

definition label_start :: "char \<Rightarrow> bool" where
  "label_start c \<longleftrightarrow> is_ascii_alpha c \<or> c \<in> set ''$._-''"

definition label_char :: "char \<Rightarrow> bool" where
  "label_char c \<longleftrightarrow> is_word c \<or> c \<in> set ''$.-''"

text \<open>\<^verbatim>\<open>[A-Za-z$._-][\w$._-]*|\d+\<close>\<close>

definition LABEL :: rx where
  "LABEL = Alt (Cat (One label_start) (Star (One label_char))) (Plus (One is_digit))"

text \<open>\<^verbatim>\<open>^(LABEL):\s*(?:;.*)?$\<close>\<close>

definition BLOCK_RE :: rx where
  "BLOCK_RE = Seqs [Bol, Group 1 LABEL, Chr (CHR '':''), Star (One is_space),
     Opt (Cat (Chr (CHR '';'')) (Star Dot)), Eol]"

text \<open>\<^verbatim>\<open>\bbr\s+i1\s+(true|false),\s+label\s+%(LABEL),\s+label\s+%(LABEL)\<close>\<close>

definition CONST_BRANCH_RE :: rx where
  "CONST_BRANCH_RE = Seqs [WordB, Lit ''br'', Plus (One is_space), Lit ''i1'', Plus (One is_space),
     Group 1 (Alt (Lit ''true'') (Lit ''false'')), Chr (CHR '',''), Plus (One is_space),
     Lit ''label'', Plus (One is_space), Chr (CHR 0x25), Group 2 LABEL, Chr (CHR '',''), Plus (One is_space),
     Lit ''label'', Plus (One is_space), Chr (CHR 0x25), Group 3 LABEL]"

text \<open>\<^verbatim>\<open>^(@[^\s=]+)\s*=\<close>\<close>

definition GLOBAL_NAME_RE :: rx where
  "GLOBAL_NAME_RE = Seqs [Bol, Group 1 (Cat (Chr (CHR ''@'')) (Plus (One (\<lambda>c. \<not> is_space c \<and> c \<noteq> CHR ''='')))),
     Star (One is_space), Chr (CHR ''='')]"

text \<open>\<^verbatim>\<open>\bi8\s+(\d+)\b\<close>\<close>

definition I8_VALUE_RE :: rx where
  "I8_VALUE_RE = Seqs [WordB, Lit ''i8'', Plus (One is_space), Group 1 (Plus (One is_digit)), WordB]"

definition global_char :: "char \<Rightarrow> bool" where
  "global_char c \<longleftrightarrow> is_ascii_alpha c \<or> is_digit c \<or> c \<in> set ''_$.-''"

text \<open>\<^verbatim>\<open>@__ubsan_handle_type_mismatch_v1\(.*?\*\s+(@[A-Za-z0-9_$.\-]+)\s+to\s+i8\*\<close>\<close>

definition TYPE_MISMATCH_CALL_DATA_RE :: rx where
  "TYPE_MISMATCH_CALL_DATA_RE = Seqs [Lit ''@__ubsan_handle_type_mismatch_v1('', LazyStar Dot, Chr (CHR ''*''),
     Plus (One is_space), Group 1 (Cat (Chr (CHR ''@'')) (Plus (One global_char))), Plus (One is_space),
     Lit ''to'', Plus (One is_space), Lit ''i8*'']"

section \<open>Blocks of the module\<close>

text \<open>
  \<open>str.splitlines()\<close>: without the line ends; more characters than LF end a line, and a CR LF
  pair is one end, counted at the LF.
\<close>

definition ends_line :: "char \<Rightarrow> bool" where
  "ends_line c = (let n = (of_char c :: nat) in (10 \<le> n \<and> n \<le> 13) \<or> (28 \<le> n \<and> n \<le> 30) \<or> n = 133)"

fun splitlines :: "string \<Rightarrow> string list" where
  "splitlines [] = []"
| "splitlines (c # s) =
     (if c = CR \<and> s \<noteq> [] \<and> hd s = NL then splitlines s
      else if ends_line c then [] # splitlines s
      else (case splitlines s of [] \<Rightarrow> [[c]] | l # ls \<Rightarrow> (c # l) # ls))"

type_synonym blocks = "(string, string list) dict"

record block_state =
  bl_blocks :: blocks
  bl_order :: "string list"
  bl_current :: "string option"

definition block_label :: "string \<Rightarrow> string option" where
  "block_label line = (case re_match BLOCK_RE line of None \<Rightarrow> None | Some t \<Rightarrow> group 1 t)"

definition block_step :: "string \<Rightarrow> block_state \<Rightarrow> block_state" where
  "block_step line st = (case block_label line of
      Some l \<Rightarrow> st\<lparr>bl_current := Some l, bl_blocks := dset l [] (bl_blocks st), bl_order := bl_order st @ [l]\<rparr>
    | None \<Rightarrow> (case bl_current st of
          None \<Rightarrow> st
        | Some l \<Rightarrow> st\<lparr>bl_blocks := dset l (dget (bl_blocks st) l [] @ [line]) (bl_blocks st)\<rparr>))"

definition parse_blocks :: "string \<Rightarrow> blocks \<times> string list" where
  "parse_blocks ir =
     (let st = fold block_step (splitlines ir) \<lparr>bl_blocks = [], bl_order = [], bl_current = None\<rparr> in
      (bl_blocks st, bl_order st))"

section \<open>Kinds of checks\<close>

definition kind_step :: "string \<Rightarrow> (string, int) dict \<Rightarrow> (string, int) dict" where
  "kind_step line kinds =
     (if \<not> contains line ''i8, i8'' then kinds
      else (case re_search GLOBAL_NAME_RE line of
          None \<Rightarrow> kinds
        | Some t \<Rightarrow>
            (let i8_values = findall I8_VALUE_RE 1 line in
             if length i8_values < 2 then kinds
             else dset (the (group 1 t)) (dec_val (last i8_values)) kinds)))"

definition parse_type_mismatch_kinds :: "string \<Rightarrow> (string, int) dict" where
  "parse_type_mismatch_kinds ir = fold kind_step (splitlines ir) []"

definition classify_handler :: "string \<Rightarrow> (string, int) dict \<Rightarrow> string \<times> string" where
  "classify_handler call_line type_kinds = (case re_search UBSAN_CALL_RE call_line of
      None \<Rightarrow> (''UNKNOWN'', '''')
    | Some t \<Rightarrow>
        (let callee = the (group 1 t) in
         if callee = ''__ubsan_handle_type_mismatch_v1'' then
           (let kind = (case re_search TYPE_MISMATCH_CALL_DATA_RE call_line of
                None \<Rightarrow> None | Some d \<Rightarrow> map_of type_kinds (the (group 1 d))) in
            if kind = Some 0 then (''READ'', callee)
            else if kind = Some 1 then (''WRITE'', callee)
            else (''UNKNOWN'', callee))
         else (''UNKNOWN'', callee)))"

definition first_ubsan_call :: "string list \<Rightarrow> string option" where
  "first_ubsan_call block_lines = find (\<lambda>line. re_search UBSAN_CALL_RE line \<noteq> None) block_lines"

section \<open>One file\<close>

record example =
  ex_block :: string
  ex_disabled :: string
  ex_kind :: string
  ex_callee :: string

record class_state =
  cl_counts :: counter
  cl_callees :: counter
  cl_examples :: "example list"

text \<open>The handler call that a line disables: the label of its block and the call.\<close>

definition disabled_call :: "blocks \<Rightarrow> string \<Rightarrow> (string \<times> string) option" where
  "disabled_call blocks line = (case re_search CONST_BRANCH_RE line of
      None \<Rightarrow> None
    | Some br \<Rightarrow>
        if \<not> contains line ''!sanitycheck'' then None
        else (let disabled_succ = (if group 1 br = Some ''true'' then the (group 3 br) else the (group 2 br)) in
          case map_of blocks disabled_succ of
            None \<Rightarrow> None
          | Some disabled_block \<Rightarrow>
              (case first_ubsan_call disabled_block of
                 None \<Rightarrow> None
               | Some call_line \<Rightarrow> Some (disabled_succ, call_line))))"

definition class_step ::
  "blocks \<Rightarrow> (string, int) dict \<Rightarrow> string \<times> string \<Rightarrow> class_state \<Rightarrow> class_state" where
  "class_step blocks type_kinds = (\<lambda>(label, line) st. case disabled_call blocks line of
      None \<Rightarrow> st
    | Some (disabled_succ, call_line) \<Rightarrow>
        (let (kind, callee) = classify_handler call_line type_kinds in
         st\<lparr>cl_counts := dset kind (dget (cl_counts st) kind 0 + 1) (cl_counts st),
            cl_callees := (if callee \<noteq> ''''
              then dset callee (dget (cl_callees st) callee 0 + 1) (cl_callees st) else cl_callees st),
            cl_examples := (if length (cl_examples st) < 5
              then cl_examples st @ [\<lparr>ex_block = label, ex_disabled = disabled_succ, ex_kind = kind, ex_callee = callee\<rparr>]
              else cl_examples st)\<rparr>))"

definition labelled_lines :: "blocks \<Rightarrow> string list \<Rightarrow> (string \<times> string) list" where
  "labelled_lines blocks order = concat (map (\<lambda>label. map (Pair label) (dget blocks label [])) order)"

definition classify_ir :: "string \<Rightarrow> class_state" where
  "classify_ir ir =
     (let (blocks, order) = parse_blocks ir; type_kinds = parse_type_mismatch_kinds ir in
      fold (class_step blocks type_kinds) (labelled_lines blocks order)
        \<lparr>cl_counts = [], cl_callees = [], cl_examples = []\<rparr>)"

record class_result =
  cr_level :: string
  cr_bench :: string
  cr_file :: string
  cr_total :: int
  cr_read :: int
  cr_write :: int
  cr_unknown :: int
  cr_callees :: counter
  cr_examples :: "example list"

text \<open>\<open>path.relative_to(spec_root).parts\<close>, and the component after \<open>CPU2006\<close>.\<close>

definition relative_parts :: "string \<Rightarrow> string \<Rightarrow> string list res" where
  "relative_parts path base =
     (let n = length (path_parts base) in
      if take n (path_parts path) = path_parts base then Inr (drop n (path_parts path)) else Inl ValueError)"

definition benchmark_from_path :: "string \<Rightarrow> string \<Rightarrow> string res" where
  "benchmark_from_path path spec_root =
     bindE (relative_parts path spec_root) (\<lambda>parts.
       Inr (case dropWhile (\<lambda>p. p \<noteq> ''CPU2006'') parts of _ # b # _ \<Rightarrow> b | _ \<Rightarrow> ''unknown''))"

definition classify_file ::
  "(string \<Rightarrow> string res) \<Rightarrow> string \<Rightarrow> string \<Rightarrow> string \<Rightarrow> class_result res" where
  "classify_file run_llvm_dis bitcode spec_root level =
     bindE (run_llvm_dis bitcode) (\<lambda>ir.
       let st = classify_ir ir in
       bindE (benchmark_from_path bitcode spec_root) (\<lambda>bench.
         Inr \<lparr>cr_level = level, cr_bench = bench, cr_file = path_str bitcode,
           cr_total = sum_list (dvalues (cl_counts st)),
           cr_read = dget (cl_counts st) ''READ'' 0, cr_write = dget (cl_counts st) ''WRITE'' 0,
           cr_unknown = dget (cl_counts st) ''UNKNOWN'' 0,
           cr_callees = cl_callees st, cr_examples = cl_examples st\<rparr>))"

section \<open>All files\<close>

text \<open>\<open>num * 100.0 / den\<close> on ints, and its format.\<close>

definition access_pct :: "int \<Rightarrow> int \<Rightarrow> pyfloat option res" where
  "access_pct num den =
     (if den = 0 then Inr None
      else bindE (float_of_int num) (\<lambda>n. bindE (float_of_int den) (\<lambda>d.
        bindE (fdiv (n * hundred) d) (\<lambda>q. Inr (Some q)))))"

definition add_summary_removed :: "csv_dict \<Rightarrow> (string option, int) dict \<Rightarrow> (string option, int) dict res" where
  "add_summary_removed row out =
     (let bench = row_get_or row ''Benchmark'' ''''; removed = or_else (row_get_or row ''Removed Checks'' ''0'') ''0'' in
      bindE (catch_ValueError (bindE (py_float removed) int_of_float) (Inr 0)) (\<lambda>n. Inr (dset bench n out)))"

definition read_summary_removed :: "files \<Rightarrow> string \<Rightarrow> (string option, int) dict res" where
  "read_summary_removed fs summary_csv =
     (if \<not> path_exists fs summary_csv then Inr []
      else bindE (read_text fs summary_csv) (\<lambda>text.
        foldE add_summary_removed (dict_reader (CHR '','') text) []))"

text \<open>\<^verbatim>\<open>ubsan-(L\d+)-summary\<close>\<close>

definition LEVEL_RE :: rx where
  "LEVEL_RE = Seqs [Lit ''ubsan-'', Group 1 (Cat (Chr (CHR ''L'')) (Plus (One is_digit))), Lit ''-summary'']"

definition find_sr_bitcode :: "machine \<Rightarrow> string \<Rightarrow> string \<Rightarrow> string list" where
  "find_sr_bitcode m spec_root level = sort_key path_parts (m_glob m (path_div spec_root
     (''benchspec/CPU2006/*/run/build_peak_SR_ubsan_'' @ level @ ''.*/Cov/objects/*.sr.bc'')))"

record access_sums =
  as_detected :: int
  as_read :: int
  as_write :: int
  as_unknown :: int

definition zero_sums_access :: access_sums where
  "zero_sums_access = \<lparr>as_detected = 0, as_read = 0, as_write = 0, as_unknown = 0\<rparr>"

instantiation access_sums_ext :: (comm_monoid_add) comm_monoid_add
begin
definition zero_access_sums_ext :: "'a access_sums_ext" where
  "zero_access_sums_ext = \<lparr>as_detected = 0, as_read = 0, as_write = 0, as_unknown = 0, \<dots> = 0\<rparr>"
definition plus_access_sums_ext :: "'a access_sums_ext \<Rightarrow> 'a access_sums_ext \<Rightarrow> 'a access_sums_ext" where
  "plus_access_sums_ext x y = \<lparr>as_detected = as_detected x + as_detected y, as_read = as_read x + as_read y,
     as_write = as_write x + as_write y, as_unknown = as_unknown x + as_unknown y,
     \<dots> = access_sums.more x + access_sums.more y\<rparr>"
instance
  by standard (simp_all add: zero_access_sums_ext_def plus_access_sums_ext_def ac_simps)
end

type_synonym aggregated = "(string \<times> string, access_sums) dict"

definition add_result :: "class_result \<Rightarrow> aggregated \<Rightarrow> aggregated" where
  "add_result result agg =
     (let key = (cr_level result, cr_bench result); c = dget agg key zero_sums_access in
      dset key (c\<lparr>as_detected := as_detected c + cr_total result, as_read := as_read c + cr_read result,
        as_write := as_write c + cr_write result, as_unknown := as_unknown c + cr_unknown result\<rparr>) agg)"

record access_row =
  xr_level :: string
  xr_bench :: "string option"
  xr_reported :: int
  xr_removed :: int
  xr_read :: int
  xr_write :: int
  xr_unknown :: int
  xr_read_pct :: "pyfloat option"
  xr_write_pct :: "pyfloat option"
  xr_unknown_pct :: "pyfloat option"
  xr_coverage :: "pyfloat option"

definition make_row :: "string \<Rightarrow> string option \<Rightarrow> int \<Rightarrow> access_sums \<Rightarrow> access_row res" where
  "make_row level bench reported c =
     (let removed = as_detected c in
      bindE (access_pct (as_read c) removed) (\<lambda>rp.
      bindE (access_pct (as_write c) removed) (\<lambda>wp.
      bindE (access_pct (as_unknown c) removed) (\<lambda>up.
      bindE (access_pct removed reported) (\<lambda>cov.
      Inr \<lparr>xr_level = level, xr_bench = bench, xr_reported = reported, xr_removed = removed,
        xr_read = as_read c, xr_write = as_write c, xr_unknown = as_unknown c,
        xr_read_pct = rp, xr_write_pct = wp, xr_unknown_pct = up, xr_coverage = cov\<rparr>)))))"

text \<open>
  The benchmarks of a level, sorted. A summary row without a benchmark column has \<open>None\<close> as
  its name; Python cannot sort that among strings.
\<close>

definition level_benches :: "string \<Rightarrow> aggregated \<Rightarrow> (string option, int) dict \<Rightarrow> string option list res" where
  "level_benches level agg summary =
     (let names = remdups (map (\<lambda>k. Some (snd k)) (filter (\<lambda>k. fst k = level) (dkeys agg)) @ dkeys summary) in
      if None \<in> set names \<and> 1 < length names then Inl TypeError
      else if None \<in> set names then Inr [None]
      else Inr (map Some (sort (map the names))))"

definition bench_sums :: "aggregated \<Rightarrow> string \<Rightarrow> string option \<Rightarrow> access_sums" where
  "bench_sums agg level bench = (case bench of None \<Rightarrow> zero_sums_access | Some b \<Rightarrow> dget agg (level, b) zero_sums_access)"

record level_state =
  ls_rows :: "access_row list"
  ls_sums :: access_sums
  ls_reported :: int
  ls_removed :: int

definition bench_step ::
  "string \<Rightarrow> aggregated \<Rightarrow> (string option, int) dict \<Rightarrow> string option \<Rightarrow> level_state \<Rightarrow> level_state res" where
  "bench_step level agg summary bench st =
     (let c = bench_sums agg level bench; reported = dget summary bench (as_detected c); t = ls_sums st in
      bindE (make_row level bench reported c) (\<lambda>row.
        Inr \<lparr>ls_rows = ls_rows st @ [row],
          ls_sums = \<lparr>as_detected = as_detected t + as_detected c, as_read = as_read t + as_read c,
            as_write = as_write t + as_write c, as_unknown = as_unknown t + as_unknown c\<rparr>,
          ls_reported = ls_reported st + reported, ls_removed = ls_removed st + as_detected c\<rparr>))"

text \<open>The rows of a level, with the \<open>TOTAL\<close> row at their end.\<close>

definition level_rows :: "aggregated \<Rightarrow> (string option, int) dict \<Rightarrow> string \<Rightarrow> access_row list res" where
  "level_rows agg summary level =
     bindE (level_benches level agg summary) (\<lambda>benches.
     bindE (foldE (bench_step level agg summary) benches
       \<lparr>ls_rows = [], ls_sums = zero_sums_access, ls_reported = 0, ls_removed = 0\<rparr>) (\<lambda>st.
     if benches = [] then Inr (ls_rows st)
     else bindE (make_row level (Some ''TOTAL'') (ls_reported st) (ls_sums st\<lparr>as_detected := ls_removed st\<rparr>)) (\<lambda>row.
       Inr (ls_rows st @ [row]))))"

definition summaries_by_level ::
  "files \<Rightarrow> string list \<Rightarrow> (string, (string option, int) dict) dict res" where
  "summaries_by_level fs paths = foldE (\<lambda>path d. case re_search LEVEL_RE (path_name path) of
      None \<Rightarrow> Inr d
    | Some t \<Rightarrow> bindE (read_summary_removed fs path) (\<lambda>s. Inr (dset (the (group 1 t)) s d))) paths []"

text \<open>
  The tasks run in a thread pool and their results arrive in the order \<open>completed\<close> gives
  them; a failing task raises when its result is asked for.
\<close>

definition access_tasks ::
  "machine \<Rightarrow> (string \<Rightarrow> string res) \<Rightarrow> string \<Rightarrow> string list \<Rightarrow> class_result res list" where
  "access_tasks m run_llvm_dis spec_root levels =
     concat (map (\<lambda>level. map (\<lambda>bc. classify_file run_llvm_dis bc spec_root level)
       (find_sr_bitcode m spec_root level)) levels)"

definition aggregate :: "class_result res list \<Rightarrow> aggregated res" where
  "aggregate results = foldE (\<lambda>r agg. bindE r (\<lambda>result. Inr (add_result result agg))) results []"

definition access_main ::
  "machine \<Rightarrow> (string \<Rightarrow> string res) \<Rightarrow> (class_result res list \<Rightarrow> class_result res list) \<Rightarrow>
   string \<Rightarrow> string list \<Rightarrow> string list \<Rightarrow> access_row list res" where
  "access_main m run_llvm_dis completed spec_root levels summary_csvs =
     bindE (summaries_by_level (m_files m) summary_csvs) (\<lambda>summaries.
     bindE (aggregate (completed (access_tasks m run_llvm_dis spec_root levels))) (\<lambda>agg.
     bindE (mapE (\<lambda>level. level_rows agg (dget summaries level []) level) levels) (\<lambda>rows.
     Inr (concat rows))))"

text \<open>The line printed for a level.\<close>

definition access_cell :: "pyfloat option \<Rightarrow> string" where
  "access_cell value = fmt_pct value"

definition total_line :: "access_row \<Rightarrow> string" where
  "total_line row = xr_level row @ '': reported='' @ show_int (xr_reported row) @
     '' removed='' @ show_int (xr_removed row) @
     '' read='' @ show_int (xr_read row) @ ''('' @ access_cell (xr_read_pct row) @ '') '' @
     ''write='' @ show_int (xr_write row) @ ''('' @ access_cell (xr_write_pct row) @ '') '' @
     ''unknown='' @ show_int (xr_unknown row) @ ''('' @ access_cell (xr_unknown_pct row) @ '') '' @
     ''coverage='' @ access_cell (xr_coverage row)"

definition printed_totals :: "access_row list \<Rightarrow> string list" where
  "printed_totals rows = map total_line (filter (\<lambda>r. xr_bench r = Some ''TOTAL'') rows)"

section \<open>Blocks are the last segments of their labels\<close>

text \<open>The lines before the first label, and the labelled segments of the text in order.\<close>

fun block_segments :: "string list \<Rightarrow> string list \<times> (string \<times> string list) list" where
  "block_segments [] = ([], [])"
| "block_segments (line # ls) =
     (let (before, segs) = block_segments ls in
      case block_label line of
        Some l \<Rightarrow> ([], (l, before) # segs)
      | None \<Rightarrow> (line # before, segs))"

definition block_lookup ::
  "(string \<times> string list) list \<Rightarrow> string list \<Rightarrow> string option \<Rightarrow> blocks \<Rightarrow> string \<Rightarrow> string list option" where
  "block_lookup segs before cur d b = (case map_of (rev segs) b of
      Some x \<Rightarrow> Some x
    | None \<Rightarrow> if cur = Some b then Some (dget d b [] @ before) else map_of d b)"

lemma block_fold:
  assumes "\<And>c. bl_current st = Some c \<Longrightarrow> map_of (bl_blocks st) c \<noteq> None"
  shows "bl_order (fold block_step ls st) = bl_order st @ map fst (snd (block_segments ls)) \<and>
    map_of (bl_blocks (fold block_step ls st)) b =
      block_lookup (snd (block_segments ls)) (fst (block_segments ls)) (bl_current st) (bl_blocks st) b"
  using assms
proof (induction ls arbitrary: st)
  case Nil
  then show ?case by (auto simp: block_lookup_def dget_def split: option.splits)
next
  case (Cons line ls)
  obtain before segs where s: "block_segments ls = (before, segs)" by force
  show ?case
  proof (cases "block_label line")
    case None
    show ?thesis
    proof (cases "bl_current st")
      case cur: None
      then have "block_step line st = st" using None by (simp add: block_step_def)
      with Cons.IH [of st] Cons.prems None cur s show ?thesis by (simp add: block_lookup_def)
    next
      case cur: (Some c)
      let ?st = "st\<lparr>bl_blocks := dset c (dget (bl_blocks st) c [] @ [line]) (bl_blocks st)\<rparr>"
      have "block_step line st = ?st" using None cur by (simp add: block_step_def)
      with Cons.IH [of ?st] None cur s show ?thesis
        by (auto simp: block_lookup_def dict_simps dget_def split: option.splits)
    qed
  next
    case (Some l)
    let ?st = "st\<lparr>bl_current := Some l, bl_blocks := dset l [] (bl_blocks st), bl_order := bl_order st @ [l]\<rparr>"
    have "block_step line st = ?st" using Some by (simp add: block_step_def)
    with Cons.IH [of ?st] Cons.prems Some s show ?thesis
      by (auto simp: block_lookup_def dict_simps dget_def map_add_def split: option.splits)
  qed
qed

lemma parse_blocks_segments:
  assumes "parse_blocks ir = (blocks, order)"
  shows "order = map fst (snd (block_segments (splitlines ir)))"
    "map_of blocks b = map_of (rev (snd (block_segments (splitlines ir)))) b"
  using assms block_fold [of "\<lparr>bl_blocks = [], bl_order = [], bl_current = None\<rparr>" "splitlines ir" b]
  by (auto simp: parse_blocks_def Let_def block_lookup_def split: option.splits)

section \<open>The counters of a file\<close>

definition line_kind :: "blocks \<Rightarrow> (string, int) dict \<Rightarrow> string \<times> string \<Rightarrow> string option" where
  "line_kind blocks kinds l = map_option (\<lambda>c. fst (classify_handler (snd c) kinds)) (disabled_call blocks (snd l))"

lemma classify_handler_kind: "fst (classify_handler c kinds) \<in> {''READ'', ''WRITE'', ''UNKNOWN''}"
  by (auto simp: classify_handler_def Let_def split: option.splits)

lemma line_kind_kinds: "line_kind blocks kinds l = Some k \<Longrightarrow> k \<in> {''READ'', ''WRITE'', ''UNKNOWN''}"
  using classify_handler_kind by (auto simp: line_kind_def)

lemma class_step_counts:
  "cl_counts (class_step blocks kinds l st) = (case line_kind blocks kinds l of
     None \<Rightarrow> cl_counts st | Some k \<Rightarrow> dset k (dget (cl_counts st) k 0 + 1) (cl_counts st))"
  by (auto simp: class_step_def line_kind_def Let_def split: prod.splits option.splits)

lemma class_step_examples:
  "length (cl_examples (class_step blocks kinds l st)) =
    (if line_kind blocks kinds l \<noteq> None \<and> length (cl_examples st) < 5
     then Suc (length (cl_examples st)) else length (cl_examples st))"
  by (auto simp: class_step_def line_kind_def Let_def split: prod.splits option.splits)

interpretation class_counts: keyed_sum "\<lambda>l st. Inr (class_step blocks kinds l st)"
    "\<lambda>st. map_of (cl_counts st)" "line_kind blocks kinds"
    "\<lambda>_ v. (case v of None \<Rightarrow> 0 | Some n \<Rightarrow> n) + (1 :: int)" "\<lambda>_. 1" for blocks kinds
  by unfold_locales (auto simp: class_step_counts dict_simps dget_def split: option.splits)

definition kind_count :: "blocks \<Rightarrow> (string, int) dict \<Rightarrow> (string \<times> string) list \<Rightarrow> string \<Rightarrow> int" where
  "kind_count blocks kinds ls k = int (length (filter (\<lambda>l. line_kind blocks kinds l = Some k) ls))"

lemma class_fold_count:
  assumes "map_of (cl_counts st) k = None"
  shows "dget (cl_counts (fold (class_step blocks kinds) ls st)) k 0 = kind_count blocks kinds ls k"
proof -
  have "foldE (\<lambda>l st. Inr (class_step blocks kinds l st)) ls st = Inr (fold (class_step blocks kinds) ls st)"
    by (rule foldE_total) simp
  from class_counts.loop_sum_default [OF this assms] show ?thesis
    by (simp add: dget_def kind_count_def sum_list_triv)
qed

lemma class_fold_total:
  assumes "distinct (dkeys (cl_counts st))"
  shows "sum_list (dvalues (cl_counts (fold (class_step blocks kinds) ls st))) =
    sum_list (dvalues (cl_counts st)) + int (length (filter (\<lambda>l. line_kind blocks kinds l \<noteq> None) ls))"
  using assms
proof (induction ls arbitrary: st)
  case (Cons l ls)
  have d: "distinct (dkeys (cl_counts (class_step blocks kinds l st)))"
    using Cons.prems by (auto simp: class_step_counts split: option.splits)
  have "sum_list (dvalues (cl_counts (class_step blocks kinds l st))) =
      sum_list (dvalues (cl_counts st)) + (if line_kind blocks kinds l \<noteq> None then 1 else 0)"
    using sum_list_dset [OF Cons.prems, of "\<lambda>x. x"]
    by (auto simp: class_step_counts dget_def split: option.splits)
  with Cons.IH [OF d] show ?case by simp
qed simp

lemma kind_counts_add_up:
  "int (length (filter (\<lambda>l. line_kind blocks kinds l \<noteq> None) ls)) =
   kind_count blocks kinds ls ''READ'' + kind_count blocks kinds ls ''WRITE'' + kind_count blocks kinds ls ''UNKNOWN''"
proof (induction ls)
  case (Cons l ls)
  then show ?case
    by (cases "line_kind blocks kinds l") (auto simp: kind_count_def dest: line_kind_kinds)
qed (simp add: kind_count_def)

lemma class_fold_examples:
  "length (cl_examples st) = min 5 n \<Longrightarrow>
   length (cl_examples (fold (class_step blocks kinds) ls st)) =
     min 5 (n + length (filter (\<lambda>l. line_kind blocks kinds l \<noteq> None) ls))"
proof (induction ls arbitrary: st n)
  case (Cons l ls)
  show ?case
  proof (cases "line_kind blocks kinds l = None")
    case True
    with Cons show ?thesis by (simp add: class_step_examples)
  next
    case False
    then have "length (cl_examples (class_step blocks kinds l st)) = min 5 (Suc n)"
      using Cons.prems by (auto simp: class_step_examples)
    with Cons.IH [of _ "Suc n"] False show ?thesis by simp
  qed
qed simp

lemma classify_ir_counts:
  assumes "parse_blocks ir = (blocks, order)" "kinds = parse_type_mismatch_kinds ir"
    "ls = labelled_lines blocks order" "st = classify_ir ir"
  shows "dget (cl_counts st) k 0 = kind_count blocks kinds ls k"
    "sum_list (dvalues (cl_counts st)) = kind_count blocks kinds ls ''READ'' + kind_count blocks kinds ls ''WRITE'' +
      kind_count blocks kinds ls ''UNKNOWN''"
    "int (length (cl_examples st)) = min 5 (sum_list (dvalues (cl_counts st)))"
proof -
  let ?init = "\<lparr>cl_counts = [], cl_callees = [], cl_examples = []\<rparr>"
  have st: "st = fold (class_step blocks kinds) ls ?init" using assms by (simp add: classify_ir_def)
  show "dget (cl_counts st) k 0 = kind_count blocks kinds ls k" unfolding st by (rule class_fold_count) simp
  have t: "sum_list (dvalues (cl_counts st)) = int (length (filter (\<lambda>l. line_kind blocks kinds l \<noteq> None) ls))"
    unfolding st by (subst class_fold_total) simp_all
  then show "sum_list (dvalues (cl_counts st)) = kind_count blocks kinds ls ''READ'' + kind_count blocks kinds ls ''WRITE'' +
      kind_count blocks kinds ls ''UNKNOWN''" by (simp only: kind_counts_add_up)
  have "length (cl_examples st) = min 5 (0 + length (filter (\<lambda>l. line_kind blocks kinds l \<noteq> None) ls))"
    unfolding st by (rule class_fold_examples) simp
  then show "int (length (cl_examples st)) = min 5 (sum_list (dvalues (cl_counts st)))" by (simp add: t)
qed

section \<open>Aggregation\<close>

lemma zero_sums_access_0 [simp]: "zero_sums_access = 0"
  by (simp add: zero_sums_access_def zero_access_sums_ext_def zero_unit_def)

definition result_sums :: "class_result \<Rightarrow> access_sums" where
  "result_sums r = \<lparr>as_detected = cr_total r, as_read = cr_read r, as_write = cr_write r, as_unknown = cr_unknown r\<rparr>"

definition result_key :: "class_result res \<Rightarrow> (string \<times> string) option" where
  "result_key r = (case r of Inl _ \<Rightarrow> None | Inr x \<Rightarrow> Some (cr_level x, cr_bench x))"

definition result_amount :: "class_result res \<Rightarrow> access_sums" where
  "result_amount r = (case r of Inl _ \<Rightarrow> 0 | Inr x \<Rightarrow> result_sums x)"

lemma add_result_sum: "add_result result agg =
  dset (cr_level result, cr_bench result) (dget agg (cr_level result, cr_bench result) 0 + result_sums result) agg"
proof -
  have "c\<lparr>as_detected := as_detected c + cr_total result, as_read := as_read c + cr_read result,
      as_write := as_write c + cr_write result, as_unknown := as_unknown c + cr_unknown result\<rparr> =
    c + result_sums result" for c
    by (cases c) (simp add: result_sums_def plus_access_sums_ext_def plus_unit_def)
  then show ?thesis by (simp add: add_result_def Let_def)
qed

interpretation aggregation: keyed_sum "\<lambda>r agg. bindE r (\<lambda>result. Inr (add_result result agg))" map_of
    result_key "\<lambda>r. add_to (result_amount r)" result_amount
proof unfold_locales
  fix r d d' k
  assume "bindE r (\<lambda>result. Inr (add_result result d)) = Inr d'"
  then obtain x where r: "r = Inr x" and d': "d' = add_result x d" by (auto simp: res_simps)
  show "map_of d' k = (if result_key r = Some k then Some (add_to (result_amount r) (map_of d k)) else map_of d k)"
    unfolding r d' add_result_sum
    by (auto simp: result_key_def result_amount_def dict_simps dget_def add_to_def split: option.splits)
qed (simp add: add_to_def)

lemma aggregate_total:
  "(\<And>r. r \<in> set rs \<Longrightarrow> \<exists>x. r = Inr x) \<Longrightarrow> \<exists>agg. aggregate rs = Inr agg"
proof -
  have "(\<And>r. r \<in> set rs \<Longrightarrow> \<exists>x. r = Inr x) \<Longrightarrow>
    \<exists>agg. foldE (\<lambda>r agg. bindE r (\<lambda>result. Inr (add_result result agg))) rs d = Inr agg" for d
  proof (induction rs arbitrary: d)
    case (Cons r rs)
    from Cons.prems obtain x where "r = Inr x" by auto
    with Cons show ?case by simp
  qed simp
  then show "(\<And>r. r \<in> set rs \<Longrightarrow> \<exists>x. r = Inr x) \<Longrightarrow> \<exists>agg. aggregate rs = Inr agg"
    by (simp add: aggregate_def)
qed

lemma aggregate_order:
  assumes "mset rs = mset rs'" "aggregate rs = Inr agg" "aggregate rs' = Inr agg'"
  shows "map_of agg key = map_of agg' key"
proof -
  have "(\<Sum>r\<leftarrow>xs. result_amount r) = sum_mset (image_mset result_amount (mset xs))" for xs
    by (simp flip: sum_mset_sum_list)
  then have "(\<Sum>r\<leftarrow>filter (\<lambda>r. result_key r = Some key) rs. result_amount r) =
      (\<Sum>r\<leftarrow>filter (\<lambda>r. result_key r = Some key) rs'. result_amount r)"
    by (simp only: mset_filter assms(1))
  moreover have "set rs = set rs'" using assms(1) by (rule mset_eq_setD)
  ultimately show ?thesis
    using aggregation.loop_sum [OF assms(2)[unfolded aggregate_def], of key]
      aggregation.loop_sum [OF assms(3)[unfolded aggregate_def], of key] by simp
qed

section \<open>The rows of a level\<close>

lemma level_benches_look:
  assumes "map_of agg = map_of agg'"
  shows "level_benches level agg summary = level_benches level agg' summary"
proof -
  define names where "names a = remdups (map (\<lambda>k. Some (snd k)) (filter (\<lambda>k. fst k = level) (dkeys a)) @ dkeys summary)"
    for a :: aggregated
  have "set (dkeys agg) = set (dkeys agg')"
    using assms dom_map_of_conv_image_fst [of agg] dom_map_of_conv_image_fst [of agg'] by simp
  then have s: "set (names agg) = set (names agg')" by (auto simp: names_def)
  have d: "distinct (names a)" for a unfolding names_def by (rule distinct_remdups)
  from s d have l: "length (names agg) = length (names agg')" by (metis distinct_card)
  have "sort (map the (names agg)) = sort (map the (names agg'))" if "None \<notin> set (names agg)"
  proof (rule sorted_distinct_set_unique)
    have "inj_on the (set (names a))" if "None \<notin> set (names a)" for a
      using that by (intro inj_onI) (metis option.expand)
    then show "distinct (sort (map the (names agg)))" "distinct (sort (map the (names agg')))"
      using that s d by (simp_all add: distinct_map)
  qed (use s in simp_all)
  with s l show ?thesis
    unfolding level_benches_def names_def [symmetric] Let_def by simp
qed

lemma level_rows_look:
  assumes "map_of agg = map_of agg'"
  shows "level_rows agg summary level = level_rows agg' summary level"
proof -
  have "bench_sums agg level b = bench_sums agg' level b" for b
    using assms by (simp add: bench_sums_def dget_def split: option.splits)
  then have "bench_step level agg summary = bench_step level agg' summary"
    by (intro ext) (simp add: bench_step_def)
  then show ?thesis using level_benches_look [OF assms] by (simp add: level_rows_def)
qed

section \<open>Rows add up\<close>

definition adds_up :: "access_sums \<Rightarrow> bool" where
  "adds_up s \<longleftrightarrow> as_detected s = as_read s + as_write s + as_unknown s"

lemma adds_up_plus: "adds_up x \<Longrightarrow> adds_up y \<Longrightarrow> adds_up (x + y)"
  by (simp add: adds_up_def plus_access_sums_ext_def)

lemma adds_up_0: "adds_up 0"
  by (simp add: adds_up_def zero_access_sums_ext_def)

lemma classify_file_adds_up:
  assumes "classify_file dis bc spec_root level = Inr r"
  shows "adds_up (result_sums r)"
proof -
  from assms obtain ir where "dis bc = Inr ir" and r: "cr_total r = sum_list (dvalues (cl_counts (classify_ir ir)))"
    "cr_read r = dget (cl_counts (classify_ir ir)) ''READ'' 0"
    "cr_write r = dget (cl_counts (classify_ir ir)) ''WRITE'' 0"
    "cr_unknown r = dget (cl_counts (classify_ir ir)) ''UNKNOWN'' 0"
    by (auto simp: classify_file_def Let_def res_simps)
  obtain blocks order where "parse_blocks ir = (blocks, order)" by force
  from classify_ir_counts [OF this refl refl refl] r show ?thesis by (simp add: adds_up_def result_sums_def)
qed

lemma aggregate_adds_up:
  assumes "aggregate rs = Inr agg" "\<And>x. Inr x \<in> set rs \<Longrightarrow> adds_up (result_sums x)"
  shows "adds_up (dget agg key 0)"
proof -
  have "adds_up (\<Sum>r\<leftarrow>xs. result_amount r)" if "set xs \<subseteq> set rs" for xs
    using that
  proof (induction xs)
    case (Cons r xs)
    then have "adds_up (result_amount r)"
      using assms(2) adds_up_0 by (auto simp: result_amount_def split: sum.splits)
    with Cons show ?case by (simp add: adds_up_plus)
  qed (simp add: adds_up_0)
  from this [of "filter (\<lambda>r. result_key r = Some key) rs"]
  show ?thesis
    using aggregation.loop_sum_default [OF assms(1)[unfolded aggregate_def], of key]
    by (simp add: dget_def)
qed

definition row_adds_up :: "access_row \<Rightarrow> bool" where
  "row_adds_up r \<longleftrightarrow> xr_removed r = xr_read r + xr_write r + xr_unknown r"

lemma make_row_fields:
  assumes "make_row level bench reported c = Inr r"
  shows "xr_level r = level" "xr_bench r = bench" "xr_reported r = reported" "xr_removed r = as_detected c"
    "xr_read r = as_read c" "xr_write r = as_write c" "xr_unknown r = as_unknown c"
  using assms by (auto simp: make_row_def Let_def res_simps)

definition level_ok :: "level_state \<Rightarrow> bool" where
  "level_ok st \<longleftrightarrow> (\<forall>r\<in>set (ls_rows st). row_adds_up r) \<and> adds_up (ls_sums st) \<and>
     ls_removed st = as_detected (ls_sums st) \<and>
     ls_removed st = (\<Sum>r\<leftarrow>ls_rows st. xr_removed r) \<and> ls_reported st = (\<Sum>r\<leftarrow>ls_rows st. xr_reported r) \<and>
     as_read (ls_sums st) = (\<Sum>r\<leftarrow>ls_rows st. xr_read r) \<and> as_write (ls_sums st) = (\<Sum>r\<leftarrow>ls_rows st. xr_write r) \<and>
     as_unknown (ls_sums st) = (\<Sum>r\<leftarrow>ls_rows st. xr_unknown r)"

lemma bench_step_ok:
  assumes "bench_step level agg summary bench st = Inr st'" "level_ok st" "\<And>key. adds_up (dget agg key 0)"
  shows "level_ok st'"
proof -
  let ?c = "bench_sums agg level bench"
  have c: "adds_up ?c" using assms(3) adds_up_0 by (auto simp: bench_sums_def split: option.splits)
  from assms(1) obtain row where row: "make_row level bench (dget summary bench (as_detected ?c)) ?c = Inr row"
    and st': "st' = \<lparr>ls_rows = ls_rows st @ [row],
      ls_sums = \<lparr>as_detected = as_detected (ls_sums st) + as_detected ?c, as_read = as_read (ls_sums st) + as_read ?c,
        as_write = as_write (ls_sums st) + as_write ?c, as_unknown = as_unknown (ls_sums st) + as_unknown ?c\<rparr>,
      ls_reported = ls_reported st + dget summary bench (as_detected ?c), ls_removed = ls_removed st + as_detected ?c\<rparr>"
    by (auto simp: bench_step_def Let_def res_simps)
  from make_row_fields [OF row] c assms(2) show ?thesis
    by (auto simp: st' level_ok_def row_adds_up_def adds_up_def)
qed

lemma level_rows_total:
  assumes "level_rows agg summary level = Inr rows" "\<And>key. adds_up (dget agg key 0)"
  shows "rows = [] \<or> (\<exists>rs t. rows = rs @ [t] \<and> xr_bench t = Some ''TOTAL'' \<and> xr_level t = level \<and>
    (\<forall>r\<in>set rows. row_adds_up r) \<and> xr_removed t = (\<Sum>r\<leftarrow>rs. xr_removed r) \<and>
    xr_reported t = (\<Sum>r\<leftarrow>rs. xr_reported r) \<and> xr_read t = (\<Sum>r\<leftarrow>rs. xr_read r) \<and>
    xr_write t = (\<Sum>r\<leftarrow>rs. xr_write r) \<and> xr_unknown t = (\<Sum>r\<leftarrow>rs. xr_unknown r))"
proof -
  let ?init = "\<lparr>ls_rows = [], ls_sums = zero_sums_access, ls_reported = 0, ls_removed = 0\<rparr>"
  from assms(1) obtain benches st where b: "level_benches level agg summary = Inr benches"
    and st: "foldE (bench_step level agg summary) benches ?init = Inr st"
    and r: "if benches = [] then rows = ls_rows st else
      (\<exists>t. make_row level (Some ''TOTAL'') (ls_reported st) (ls_sums st\<lparr>as_detected := ls_removed st\<rparr>) = Inr t \<and>
        rows = ls_rows st @ [t])"
    by (auto simp: level_rows_def res_simps split: if_splits)
  have "level_ok ?init" by (simp add: level_ok_def adds_up_def zero_access_sums_ext_def)
  then have ok: "level_ok st"
    by (rule foldE_invariant [where P = level_ok, OF st]) (blast intro: bench_step_ok assms(2))
  show ?thesis
  proof (cases "benches = []")
    case True
    with st r have "rows = []" by auto
    then show ?thesis by simp
  next
    case False
    with r obtain t where
      t: "make_row level (Some ''TOTAL'') (ls_reported st) (ls_sums st\<lparr>as_detected := ls_removed st\<rparr>) = Inr t"
      "rows = ls_rows st @ [t]" by auto
    from make_row_fields [OF t(1)] ok show ?thesis
      by (intro disjI2 exI [of _ "ls_rows st"] exI [of _ t])
        (auto simp: t(2) level_ok_def row_adds_up_def adds_up_def)
  qed
qed

section \<open>Properties\<close>

text \<open>
  C27: the blocks of a module are the last of the segments that carry their label: the order
  lists every label as often as it occurs, and what is looked up under a label is the segment
  of its last occurrence in the file, whichever function that belongs to.
\<close>

theorem parse_blocks_last_segment:
  "parse_blocks ir = (blocks, order) \<Longrightarrow>
   order = map fst (snd (block_segments (splitlines ir))) \<and>
   map_of blocks b = map_of (rev (snd (block_segments (splitlines ir)))) b"
  using parse_blocks_segments by blast

text \<open>Two functions that both have blocks 1 and 2: only the first one disables a check.\<close>

definition demo_fun1 :: string where
  "demo_fun1 = printed [''1:'', ''  br i1 true, label %3, label %2, !sanitycheck'', ''2:'',
     ''  call void @__ubsan_handle_add_overflow(i8* null)'', ''3:'', ''  ret void'']"

definition demo_fun2 :: string where
  "demo_fun2 = printed [''1:'', ''  br label %2'', ''2:'', ''  ret void'']"

theorem parse_blocks_last_segment_witness:
  "map_of (fst (parse_blocks (demo_fun1 @ demo_fun2))) ''2'' = Some [''  ret void''] \<and>
   snd (parse_blocks (demo_fun1 @ demo_fun2)) = [''1'', ''2'', ''3'', ''1'', ''2'']"
proof -
  obtain blocks order where p: "parse_blocks (demo_fun1 @ demo_fun2) = (blocks, order)" by force
  have "snd (block_segments (splitlines (demo_fun1 @ demo_fun2))) =
      [(''1'', [''  br i1 true, label %3, label %2, !sanitycheck'']),
       (''2'', [''  call void @__ubsan_handle_add_overflow(i8* null)'']), (''3'', [''  ret void'']),
       (''1'', [''  br label %2'']), (''2'', [''  ret void''])]" by code_simp
  with parse_blocks_last_segment [OF p, of "''2''"] p show ?thesis by simp
qed


text \<open>
  C26: the counts of a file: each kind counts the lines, block by block, whose constant branch
  disables a handler of that kind; the total is the sum of the three kinds, and the
  examples are as many as the checks, but at most five.
\<close>

theorem classify_file_counts:
  assumes "classify_file dis bitcode spec_root level = Inr r" "dis bitcode = Inr ir"
    and "parse_blocks ir = (blocks, order)"
  shows "cr_read r = kind_count blocks (parse_type_mismatch_kinds ir) (labelled_lines blocks order) ''READ'' \<and>
    cr_write r = kind_count blocks (parse_type_mismatch_kinds ir) (labelled_lines blocks order) ''WRITE'' \<and>
    cr_unknown r = kind_count blocks (parse_type_mismatch_kinds ir) (labelled_lines blocks order) ''UNKNOWN'' \<and>
    cr_total r = cr_read r + cr_write r + cr_unknown r \<and>
    int (length (cr_examples r)) = min 5 (cr_total r)"
  using assms classify_ir_counts [OF assms(3) refl refl refl]
  by (auto simp: classify_file_def Let_def res_simps)

definition demo_ir_read :: string where
  "demo_ir_read = printed [''@7 = private global { i8, i8 } { i8 3, i8 0 }'', ''entry:'',
     ''  br i1 false, label %h, label %ok, !sanitycheck'', ''h:'',
     ''  call void @__ubsan_handle_type_mismatch_v1(i8* bitcast (x* @7 to i8*))'', ''ok:'']"

definition demo_dis :: "string \<Rightarrow> string res" where
  "demo_dis bitcode = Inr demo_ir_read"

definition demo_result :: "string \<Rightarrow> string \<Rightarrow> class_result" where
  "demo_result bench file = \<lparr>cr_level = ''L2'', cr_bench = bench, cr_file = file, cr_total = 1, cr_read = 1,
     cr_write = 0, cr_unknown = 0, cr_callees = [(''__ubsan_handle_type_mismatch_v1'', 1)],
     cr_examples = [\<lparr>ex_block = ''entry'', ex_disabled = ''h'', ex_kind = ''READ'',
       ex_callee = ''__ubsan_handle_type_mismatch_v1''\<rparr>]\<rparr>"

lemma demo_class:
  "classify_ir demo_ir_read = \<lparr>cl_counts = [(''READ'', 1)], cl_callees = [(''__ubsan_handle_type_mismatch_v1'', 1)],
     cl_examples = [\<lparr>ex_block = ''entry'', ex_disabled = ''h'', ex_kind = ''READ'',
       ex_callee = ''__ubsan_handle_type_mismatch_v1''\<rparr>]\<rparr>"
  by code_simp

lemma demo_files:
  "classify_file demo_dis ''/s/benchspec/CPU2006/401.bzip2/x.sr.bc'' ''/s'' ''L2'' =
     Inr (demo_result ''401.bzip2'' ''/s/benchspec/CPU2006/401.bzip2/x.sr.bc'')"
  "classify_file demo_dis ''/s/benchspec/CPU2006/403.gcc/y.sr.bc'' ''/s'' ''L2'' =
     Inr (demo_result ''403.gcc'' ''/s/benchspec/CPU2006/403.gcc/y.sr.bc'')"
proof -
  have "benchmark_from_path ''/s/benchspec/CPU2006/401.bzip2/x.sr.bc'' ''/s'' = Inr ''401.bzip2''"
    "benchmark_from_path ''/s/benchspec/CPU2006/403.gcc/y.sr.bc'' ''/s'' = Inr ''403.gcc''"
    "path_str ''/s/benchspec/CPU2006/401.bzip2/x.sr.bc'' = ''/s/benchspec/CPU2006/401.bzip2/x.sr.bc''"
    "path_str ''/s/benchspec/CPU2006/403.gcc/y.sr.bc'' = ''/s/benchspec/CPU2006/403.gcc/y.sr.bc''"
    by code_simp+
  then show "classify_file demo_dis ''/s/benchspec/CPU2006/401.bzip2/x.sr.bc'' ''/s'' ''L2'' =
     Inr (demo_result ''401.bzip2'' ''/s/benchspec/CPU2006/401.bzip2/x.sr.bc'')"
    "classify_file demo_dis ''/s/benchspec/CPU2006/403.gcc/y.sr.bc'' ''/s'' ''L2'' =
     Inr (demo_result ''403.gcc'' ''/s/benchspec/CPU2006/403.gcc/y.sr.bc'')"
    by (simp_all add: classify_file_def demo_dis_def demo_class dget_def demo_result_def)
qed

theorem classify_file_counts_witness:
  "\<exists>r. classify_file demo_dis ''/s/benchspec/CPU2006/401.bzip2/x.sr.bc'' ''/s'' ''L2'' = Inr r \<and>
     cr_read r = 1 \<and> cr_total r = 1 + cr_write r + cr_unknown r"
proof -
  obtain blocks order where p: "parse_blocks demo_ir_read = (blocks, order)" by force
  have "demo_dis ''/s/benchspec/CPU2006/401.bzip2/x.sr.bc'' = Inr demo_ir_read" by (simp add: demo_dis_def)
  from classify_file_counts [OF demo_files(1) this p] demo_files(1) show ?thesis by (simp add: demo_result_def)
qed

text \<open>
  C19: the summary does not depend on the order in which the worker threads finish: when every
  bitcode file is disassembled and classified, any order of completion yields the same rows.
\<close>

theorem access_rows_any_order:
  assumes "\<forall>r\<in>set (access_tasks m dis spec_root levels). \<exists>x. r = Inr x"
    and "\<forall>rs. mset (completed rs) = mset rs"
  shows "access_main m dis completed spec_root levels csvs = access_main m dis (\<lambda>rs. rs) spec_root levels csvs"
proof -
  let ?rs = "access_tasks m dis spec_root levels"
  have ms: "mset (completed ?rs) = mset ?rs" using assms(2) by blast
  then have "set (completed ?rs) = set ?rs" by (rule mset_eq_setD)
  then obtain a b where a: "aggregate (completed ?rs) = Inr a" and b: "aggregate ?rs = Inr b"
    using aggregate_total [of ?rs] aggregate_total [of "completed ?rs"] assms(1) by auto
  have "map_of a = map_of b" by (rule ext) (rule aggregate_order [OF ms a b])
  from level_rows_look [OF this] show ?thesis by (simp add: access_main_def a b)
qed

definition demo_sr_machine :: machine where
  "demo_sr_machine = \<lparr>m_files = (\<lambda>p. None), m_expand = (\<lambda>p. p),
     m_glob = (\<lambda>p. [''/s/benchspec/CPU2006/401.bzip2/x.sr.bc'', ''/s/benchspec/CPU2006/403.gcc/y.sr.bc''])\<rparr>"

lemma demo_tasks:
  "access_tasks demo_sr_machine demo_dis ''/s'' [''L2''] =
     [Inr (demo_result ''401.bzip2'' ''/s/benchspec/CPU2006/401.bzip2/x.sr.bc''),
      Inr (demo_result ''403.gcc'' ''/s/benchspec/CPU2006/403.gcc/y.sr.bc'')]"
proof -
  have "find_sr_bitcode demo_sr_machine ''/s'' ''L2'' =
      [''/s/benchspec/CPU2006/401.bzip2/x.sr.bc'', ''/s/benchspec/CPU2006/403.gcc/y.sr.bc'']" by code_simp
  then show ?thesis by (simp add: access_tasks_def demo_files)
qed

theorem access_rows_any_order_witness:
  "access_main demo_sr_machine demo_dis rev ''/s'' [''L2''] [] = access_main demo_sr_machine demo_dis (\<lambda>rs. rs) ''/s'' [''L2''] []"
  by (rule access_rows_any_order) (simp_all add: demo_tasks)

text \<open>
  C20: in every row of the summary the removed checks are the reads, the writes and the unknown
  ones together, and the rows of a level end in a row TOTAL with the sums of the other rows.
\<close>

theorem access_rows_add_up:
  assumes "aggregate (completed (access_tasks m dis spec_root levels)) = Inr agg"
    and "\<forall>rs. mset (completed rs) = mset rs"
    and "level_rows agg summary level = Inr rows"
  shows "rows = [] \<or> (\<exists>rs t. rows = rs @ [t] \<and> xr_bench t = Some ''TOTAL'' \<and> xr_level t = level \<and>
    (\<forall>r\<in>set rows. xr_removed r = xr_read r + xr_write r + xr_unknown r) \<and>
    xr_removed t = (\<Sum>r\<leftarrow>rs. xr_removed r) \<and> xr_reported t = (\<Sum>r\<leftarrow>rs. xr_reported r) \<and>
    xr_read t = (\<Sum>r\<leftarrow>rs. xr_read r) \<and> xr_write t = (\<Sum>r\<leftarrow>rs. xr_write r) \<and>
    xr_unknown t = (\<Sum>r\<leftarrow>rs. xr_unknown r))"
proof -
  have "set (completed (access_tasks m dis spec_root levels)) = set (access_tasks m dis spec_root levels)"
    using assms(2) mset_eq_setD by blast
  then have "adds_up (result_sums x)" if "Inr x \<in> set (completed (access_tasks m dis spec_root levels))" for x
  proof -
    from that \<open>set _ = set _\<close> have "Inr x \<in> set (access_tasks m dis spec_root levels)" by simp
    then obtain level bc where "classify_file dis bc spec_root level = Inr x" by (auto simp: access_tasks_def)
    then show ?thesis by (rule classify_file_adds_up)
  qed
  from aggregate_adds_up [OF assms(1) this] have "adds_up (dget agg key 0)" for key by blast
  from level_rows_total [OF assms(3) this] show ?thesis unfolding row_adds_up_def .
qed

definition demo_agg :: aggregated where
  "demo_agg = [((''L2'', ''403.gcc''), \<lparr>as_detected = 1, as_read = 1, as_write = 0, as_unknown = 0\<rparr>),
     ((''L2'', ''401.bzip2''), \<lparr>as_detected = 1, as_read = 1, as_write = 0, as_unknown = 0\<rparr>)]"

lemma demo_aggregate: "aggregate (rev (access_tasks demo_sr_machine demo_dis ''/s'' [''L2''])) = Inr demo_agg"
  unfolding demo_tasks by code_simp

theorem access_rows_add_up_witness:
  "\<exists>rows t. level_rows demo_agg [] ''L2'' = Inr rows \<and> t \<in> set rows \<and> xr_bench t = Some ''TOTAL''"
proof -
  have "case level_rows demo_agg [] ''L2'' of Inl e \<Rightarrow> False | Inr rows \<Rightarrow> length rows = 3" by code_simp
  then obtain rows where r: "level_rows demo_agg [] ''L2'' = Inr rows" "length rows = 3" by (auto split: sum.splits)
  have "\<forall>rs :: class_result res list. mset (rev rs) = mset rs" by simp
  from access_rows_add_up [OF demo_aggregate this r(1)] r show ?thesis by fastforce
qed

end
