(* ===== verification/SanrazorApply.thy ===== *)
theory SanrazorApply
  imports Overhead PyCsv
begin

text \<open>
  \<open>scripts/apply_sanrazor_detected_disabled_counts.py\<close>: rewrites the rows of a SanRazor summary
  so that the removed checks are those found disabled in the transformed IR. A row holds the
  strings of the CSV file (\<open>None\<close> where a line was too short, and under the key \<open>None\<close> the
  surplus fields of a line that was too long) and the numbers the script puts in.
\<close>

section \<open>Values and rows\<close>

datatype pyval = VNone | VStr string | VInt int | VFloat pyfloat | VList "string list"

type_synonym xrow = "(string option, pyval) dict"

text \<open>A row of \<open>csv.DictReader\<close> with all its keys.\<close>

definition pyval_of :: "string option \<Rightarrow> pyval" where
  "pyval_of v = (case v of None \<Rightarrow> VNone | Some s \<Rightarrow> VStr s)"

definition full_row :: "string list \<Rightarrow> string list \<Rightarrow> xrow" where
  "full_row names row =
     map (\<lambda>(k, v). (Some k, pyval_of v)) (dict_row names row) @
     (if length names < length row then [(None, VList (drop (length names) row))] else [])"

definition full_reader :: "string \<Rightarrow> xrow list" where
  "full_reader text = (case csv_reader (CHR '','') text of
      [] \<Rightarrow> []
    | names # rows \<Rightarrow> map (full_row names) (filter (\<lambda>r. r \<noteq> []) rows))"

text \<open>\<open>row[k]\<close> and \<open>row.get(k, v)\<close>\<close>

definition xget :: "xrow \<Rightarrow> string \<Rightarrow> pyval res" where
  "xget row k = (case map_of row (Some k) of None \<Rightarrow> Inl KeyError | Some v \<Rightarrow> Inr v)"

definition xget_or :: "xrow \<Rightarrow> string \<Rightarrow> pyval \<Rightarrow> pyval" where
  "xget_or row k v = dget row (Some k) v"

definition xset :: "string \<Rightarrow> pyval \<Rightarrow> xrow \<Rightarrow> xrow" where
  "xset k v row = dset (Some k) v row"

section \<open>Numbers\<close>

text \<open>
  \<open>float(value)\<close> and \<open>int(value)\<close>; \<open>TypeError\<close> for \<open>None\<close> and lists.
\<close>

definition float_of :: "pyval \<Rightarrow> pyfloat res" where
  "float_of v = (case v of
      VStr s \<Rightarrow> py_float s
    | VInt i \<Rightarrow> float_of_int i
    | VFloat x \<Rightarrow> Inr x
    | _ \<Rightarrow> Inl TypeError)"

definition int_of :: "pyval \<Rightarrow> int res" where
  "int_of v = (case v of
      VStr s \<Rightarrow> py_int s
    | VInt i \<Rightarrow> Inr i
    | VFloat x \<Rightarrow> int_of_float x
    | _ \<Rightarrow> Inl TypeError)"

text \<open>\<open>except (TypeError, ValueError)\<close>\<close>

definition catch_bad_value :: "'a res \<Rightarrow> 'a \<Rightarrow> 'a res" where
  "catch_bad_value m d = (if m = Inl TypeError \<or> m = Inl ValueError then Inr d else m)"

definition number :: "pyval \<Rightarrow> int res" where
  "number v = catch_bad_value (bindE (float_of v) int_of_float) 0"

definition float_number :: "pyval \<Rightarrow> pyfloat option res" where
  "float_number v = catch_bad_value (bindE (float_of v) (\<lambda>x. Inr (Some x))) None"

definition apply_fmt_int :: "pyval \<Rightarrow> string res" where
  "apply_fmt_int v = bindE (int_of v) (\<lambda>i. Inr (fmt_thousands i))"

definition apply_fmt_float :: "pyval \<Rightarrow> string res" where
  "apply_fmt_float v = bindE (float_number v) (\<lambda>x. Inr (fmt_float x))"

definition apply_fmt_pct :: "pyval \<Rightarrow> string res" where
  "apply_fmt_pct v = bindE (float_number v) (\<lambda>x. Inr (fmt_pct x))"

section \<open>The access summary\<close>

type_synonym access = "(string option \<times> string option, csv_dict) dict"

definition add_access :: "csv_dict \<Rightarrow> access \<Rightarrow> access" where
  "add_access row acc = (let bench = row_get_or row ''Benchmark'' '''' in
     if bench = None \<or> bench = Some '''' \<or> bench = Some ''TOTAL'' then acc
     else dset (row_get_or row ''Level'' '''', bench) row acc)"

definition read_access :: "files \<Rightarrow> string \<Rightarrow> access res" where
  "read_access fs path =
     bindE (read_text fs path) (\<lambda>text. Inr (fold add_access (dict_reader (CHR '','') text) []))"

section \<open>Rewriting\<close>

text \<open>The access row of a summary row; its key holds strings or \<open>None\<close> only.\<close>

definition key_part :: "pyval \<Rightarrow> string option" where
  "key_part v = (case v of VStr s \<Rightarrow> Some s | _ \<Rightarrow> None)"

definition access_of :: "access \<Rightarrow> xrow \<Rightarrow> csv_dict option" where
  "access_of acc row =
     map_of acc (key_part (xget_or row ''SanRazor Level'' (VStr '''')), key_part (xget_or row ''Benchmark'' (VStr '''')))"

definition access_field :: "csv_dict \<Rightarrow> string \<Rightarrow> pyval" where
  "access_field a k = pyval_of (row_get_or a k '''')"

definition access_number :: "csv_dict \<Rightarrow> string \<Rightarrow> int res" where
  "access_number a k = number (pyval_of (row_get a k))"

definition rewrite_row :: "csv_dict \<Rightarrow> xrow \<Rightarrow> xrow res" where
  "rewrite_row a row =
     bindE (number (xget_or row ''Original Checks'' VNone)) (\<lambda>original.
     bindE (number (xget_or row ''Removed Checks'' VNone)) (\<lambda>reported_removed.
     bindE (access_number a ''Removed Checks'') (\<lambda>detected_removed.
     let row = xset ''SanRazor Reported Removed Checks'' (VInt reported_removed) row;
         row = xset ''Detected / Reported'' (access_field a ''Detected / Reported'') row;
         row = xset ''Removed Checks'' (VInt detected_removed) row;
         row = xset ''SanRazor Checks'' (VInt (max 0 (original - detected_removed))) row in
     bindE (ratio_or_none detected_removed original) (\<lambda>ratio.
     let row = xset ''Removed / Original'' (case ratio of None \<Rightarrow> VNone | Some x \<Rightarrow> VFloat x) row in
     bindE (access_number a ''Removed READ Checks'') (\<lambda>reads.
     bindE (access_number a ''Removed WRITE Checks'') (\<lambda>writes.
     bindE (access_number a ''Removed UNKNOWN Checks'') (\<lambda>unknowns.
     Inr (xset ''UNKNOWN / Removed'' (access_field a ''UNKNOWN / Removed'')
         (xset ''WRITE / Removed'' (access_field a ''WRITE / Removed'')
         (xset ''READ / Removed'' (access_field a ''READ / Removed'')
         (xset ''Removed UNKNOWN Checks'' (VInt unknowns)
         (xset ''Removed WRITE Checks'' (VInt writes)
         (xset ''Removed READ Checks'' (VInt reads) row)))))))))))))"

definition apply_row :: "access \<Rightarrow> xrow \<Rightarrow> xrow res" where
  "apply_row acc row = (case access_of acc row of None \<Rightarrow> Inr row | Some a \<Rightarrow> rewrite_row a row)"

section \<open>Output\<close>

definition preferred :: "string list" where
  "preferred = [''Suite'', ''Benchmark'', ''SanRazor Level'', ''Original Checks'', ''SanRazor Checks'',
     ''Removed Checks'', ''Removed / Original'', ''SanRazor Reported Removed Checks'', ''Detected / Reported'',
     ''Removed READ Checks'', ''Removed WRITE Checks'', ''Removed UNKNOWN Checks'', ''READ / Removed'',
     ''WRITE / Removed'', ''UNKNOWN / Removed'']"

definition add_field :: "xrow \<Rightarrow> string option \<Rightarrow> string option list \<Rightarrow> string option list" where
  "add_field row field names = (if field \<in> set (dkeys row) \<and> field \<notin> set names then names @ [field] else names)"

definition fieldnames_of :: "xrow list \<Rightarrow> string option list res" where
  "fieldnames_of rows = (case rows of
      [] \<Rightarrow> Inl IndexError
    | row # _ \<Rightarrow> Inr (fold (add_field row) (map Some preferred @ dkeys row) []))"

text \<open>\<open>csv.DictWriter.writerow\<close>: the cells of a row; a key that is no column raises.\<close>

definition dict_cells :: "string option list \<Rightarrow> xrow \<Rightarrow> pyval list res" where
  "dict_cells names row =
     (if set (dkeys row) \<subseteq> set names then Inr (map (\<lambda>f. dget row f (VStr '''')) names) else Inl ValueError)"

text \<open>\<open>str.join\<close> takes strings only.\<close>

definition joined :: "pyval \<Rightarrow> string res" where
  "joined v = (case v of VStr s \<Rightarrow> Inr s | _ \<Rightarrow> Inl TypeError)"

text \<open>A status in an f-string; under a status column there is a string or \<open>None\<close>.\<close>

definition status_text :: "pyval \<Rightarrow> string" where
  "status_text v = (case v of VStr s \<Rightarrow> s | _ \<Rightarrow> ''None'')"

definition apply_md_cells :: "xrow \<Rightarrow> pyval list res" where
  "apply_md_cells row =
     bindE (xget row ''Benchmark'') (\<lambda>bench.
     bindE (bindE (xget row ''Original Checks'') apply_fmt_int) (\<lambda>original.
     bindE (bindE (xget row ''SanRazor Checks'') apply_fmt_int) (\<lambda>checks.
     bindE (bindE (xget row ''Removed Checks'') apply_fmt_int) (\<lambda>removed.
     bindE (bindE (xget row ''Removed / Original'') apply_fmt_pct) (\<lambda>ratio.
     bindE (apply_fmt_int (xget_or row ''Removed READ Checks'' (VInt 0))) (\<lambda>reads.
     bindE (apply_fmt_int (xget_or row ''Removed WRITE Checks'' (VInt 0))) (\<lambda>writes.
     bindE (apply_fmt_int (xget_or row ''Removed UNKNOWN Checks'' (VInt 0))) (\<lambda>unknowns.
     bindE (bindE (xget row ''Runtime Native'') apply_fmt_float) (\<lambda>native.
     bindE (bindE (xget row ''Runtime UBSan'') apply_fmt_float) (\<lambda>ubsan.
     bindE (bindE (xget row ''Runtime SanRazor'') apply_fmt_float) (\<lambda>sanrazor.
     bindE (bindE (xget row ''Overhead Reduction %'') apply_fmt_pct) (\<lambda>reduction.
     bindE (xget row ''Native Status'') (\<lambda>native_status.
     bindE (xget row ''UBSan Status'') (\<lambda>ubsan_status.
     bindE (xget row ''SanRazor Status'') (\<lambda>sanrazor_status.
     Inr [bench, VStr original, VStr checks, VStr removed, VStr ratio, VStr reads, VStr writes, VStr unknowns,
       xget_or row ''WRITE / Removed'' (VStr ''--''), VStr native, VStr ubsan, VStr sanrazor, VStr reduction,
       VStr (status_text native_status @ ''->'' @ status_text ubsan_status @ ''->'' @ status_text sanrazor_status)])))))))))))))))"

definition apply_md_line :: "xrow \<Rightarrow> string res" where
  "apply_md_line row = bindE (apply_md_cells row) (\<lambda>cells. bindE (mapE joined cells) (\<lambda>ws. Inr (table_line ws)))"

definition apply_md_header :: "string list" where
  "apply_md_header = [''| Benchmark | Original | SanRazor | Removed | Removed/Orig | Read | Write | Unknown | Write/Removed | Native(s) | UBSan(s) | SanRazor(s) | Overhead Reduction | Status |'',
     ''|---|---:|---:|---:|---:|---:|---:|---:|---:|---:|---:|---:|---:|---|'']"

record apply_report =
  ap_rows :: "xrow list"
  ap_fields :: "string option list"
  ap_csv :: "pyval list list"
  ap_md :: "string list"

definition apply_main :: "files \<Rightarrow> string \<Rightarrow> string \<Rightarrow> apply_report res" where
  "apply_main fs summary_csv access_csv =
     bindE (read_access fs access_csv) (\<lambda>acc.
     bindE (read_text fs summary_csv) (\<lambda>text.
     bindE (mapE (apply_row acc) (full_reader text)) (\<lambda>out_rows.
     bindE (fieldnames_of out_rows) (\<lambda>fieldnames.
     bindE (mapE (dict_cells fieldnames) out_rows) (\<lambda>csv.
     bindE (mapE apply_md_line out_rows) (\<lambda>lines.
     Inr \<lparr>ap_rows = out_rows, ap_fields = fieldnames, ap_csv = csv, ap_md = apply_md_header @ lines\<rparr>))))))"

section \<open>Properties\<close>

definition rewritten_fields :: "string list" where
  "rewritten_fields = [''SanRazor Reported Removed Checks'', ''Detected / Reported'', ''Removed Checks'',
     ''SanRazor Checks'', ''Removed / Original'', ''Removed READ Checks'', ''Removed WRITE Checks'',
     ''Removed UNKNOWN Checks'', ''READ / Removed'', ''WRITE / Removed'', ''UNKNOWN / Removed'']"

lemma xget_xset [simp]: "xget (xset k v row) j = (if j = k then Inr v else xget row j)"
  by (simp add: xget_def xset_def dict_simps)

lemma xset_other: "k \<noteq> Some j \<Longrightarrow> map_of (xset j v row) k = map_of row k"
  by (simp add: xset_def dict_simps)

lemma xset_keys [simp]: "set (dkeys (xset k v row)) = insert (Some k) (set (dkeys row))"
  by (simp add: xset_def dict_simps)

lemma rewrite_row_shape:
  assumes "rewrite_row a row = Inr out"
  obtains original reported detected reads writes unknowns ratio where
    "number (xget_or row ''Original Checks'' VNone) = Inr original"
    "number (xget_or row ''Removed Checks'' VNone) = Inr reported"
    "access_number a ''Removed Checks'' = Inr detected"
    "access_number a ''Removed READ Checks'' = Inr reads"
    "access_number a ''Removed WRITE Checks'' = Inr writes"
    "access_number a ''Removed UNKNOWN Checks'' = Inr unknowns"
    "ratio_or_none detected original = Inr ratio"
    "out = xset ''UNKNOWN / Removed'' (access_field a ''UNKNOWN / Removed'')
       (xset ''WRITE / Removed'' (access_field a ''WRITE / Removed'')
       (xset ''READ / Removed'' (access_field a ''READ / Removed'')
       (xset ''Removed UNKNOWN Checks'' (VInt unknowns)
       (xset ''Removed WRITE Checks'' (VInt writes)
       (xset ''Removed READ Checks'' (VInt reads)
       (xset ''Removed / Original'' (case ratio of None \<Rightarrow> VNone | Some x \<Rightarrow> VFloat x)
       (xset ''SanRazor Checks'' (VInt (max 0 (original - detected)))
       (xset ''Removed Checks'' (VInt detected)
       (xset ''Detected / Reported'' (access_field a ''Detected / Reported'')
       (xset ''SanRazor Reported Removed Checks'' (VInt reported) row))))))))))"
  using assms unfolding rewrite_row_def Let_def bindE_Inr_iff by blast

lemma rewrite_row_keys:
  assumes "rewrite_row a row = Inr out"
  shows "set (dkeys out) = Some ` set rewritten_fields \<union> set (dkeys row)"
proof -
  have "set (dkeys out) = set (map Some (rev rewritten_fields)) \<union> set (dkeys row)"
    by (rule rewrite_row_shape [OF assms], simp only: xset_keys rewritten_fields_def rev.simps append.simps
        list.map list.set Un_insert_left Un_empty_left)
  then show ?thesis by (simp only: set_map set_rev)
qed

lemma rewrite_row_other:
  assumes "rewrite_row a row = Inr out" "k \<notin> Some ` set rewritten_fields"
  shows "map_of out k = map_of row k"
  using assms(2) by (cases rule: rewrite_row_shape [OF assms(1)]) (simp add: xset_other rewritten_fields_def)

text \<open>The columns are the keys of the first row, each once.\<close>

lemma fold_add_field:
  "distinct names \<Longrightarrow> distinct (fold (add_field row) fs names) \<and>
   set (fold (add_field row) fs names) = set names \<union> (set fs \<inter> set (dkeys row))"
  by (induction fs arbitrary: names) (auto simp: add_field_def)

lemma fieldnames_of_keys:
  "fieldnames_of (row # rows) = Inr names \<Longrightarrow> distinct names \<and> set names = set (dkeys row)"
  using fold_add_field [of "[]" row "map Some preferred @ dkeys row"]
  by (auto simp: fieldnames_of_def)

lemma dict_cells_look:
  "dict_cells names row = Inr cells \<Longrightarrow>
   length cells = length names \<and> (\<forall>i<length names. cells ! i = dget row (names ! i) (VStr ''''))"
  by (auto simp: dict_cells_def split: if_splits)

definition rewritten :: "csv_dict \<Rightarrow> xrow \<Rightarrow> xrow \<Rightarrow> bool" where
  "rewritten a row out \<longleftrightarrow> (\<exists>original detected.
     number (xget_or row ''Original Checks'' VNone) = Inr original \<and>
     access_number a ''Removed Checks'' = Inr detected \<and>
     xget out ''Removed Checks'' = Inr (VInt detected) \<and>
     xget out ''SanRazor Checks'' = Inr (VInt (max 0 (original - detected))) \<and>
     (original = 0 \<longrightarrow> xget out ''Removed / Original'' = Inr VNone) \<and>
     (\<forall>k. k \<notin> Some ` set rewritten_fields \<longrightarrow> map_of out k = map_of row k))"

lemma rewrite_row_rewritten:
  assumes "rewrite_row a row = Inr out"
  shows "rewritten a row out"
proof -
  note other = rewrite_row_other [OF assms]
  show ?thesis
  proof (cases rule: rewrite_row_shape [OF assms])
    case (1 original reported detected reads writes unknowns ratio)
    have "xget out ''Removed Checks'' = Inr (VInt detected)"
      "xget out ''SanRazor Checks'' = Inr (VInt (max 0 (original - detected)))"
      "xget out ''Removed / Original'' = Inr (case ratio of None \<Rightarrow> VNone | Some x \<Rightarrow> VFloat x)"
      by (simp_all add: 1(8))
    moreover have "original = 0 \<Longrightarrow> ratio = None" using 1(7) by (simp add: ratio_or_none_def)
    ultimately show ?thesis using 1(1,3) other unfolding rewritten_def by auto
  qed
qed


text \<open>
  C30: the rewriting cannot end when the first row of the summary has no access row, a later one
  has, and the summary has not been rewritten before: the columns of the CSV file are the keys
  of the first row, and the rewritten row has more.
\<close>

theorem apply_needs_first_access:
  assumes "read_access fs access_csv = Inr acc" and "read_text fs summary_csv = Inr t"
    and "full_reader t = row0 # rows" and "access_of acc row0 = None"
    and "row \<in> set rows" and "access_of acc row \<noteq> None"
    and "Some ''SanRazor Reported Removed Checks'' \<notin> set (dkeys row0)"
  shows "\<exists>e. apply_main fs summary_csv access_csv = Inl e"
proof (rule ccontr)
  assume "\<not> ?thesis"
  then obtain rep where r: "apply_main fs summary_csv access_csv = Inr rep"
    by (metis sum.exhaust)
  with assms obtain out where
    out: "mapE (apply_row acc) (row0 # rows) = Inr out" and
    f: "fieldnames_of out = Inr (ap_fields rep)" and csv: "mapE (dict_cells (ap_fields rep)) out = Inr (ap_csv rep)"
    by (auto simp: apply_main_def res_simps)
  from out assms(4) obtain outs where o: "out = row0 # outs" "mapE (apply_row acc) rows = Inr outs"
    by (auto simp: apply_row_def res_simps)
  from o(2) assms(5,6) obtain a out1 where out1: "out1 \<in> set outs" "rewrite_row a row = Inr out1"
    unfolding mapE_Inr_iff
    by (fastforce simp: apply_row_def list_all2_conv_all_nth in_set_conv_nth split: option.splits)
  from f o(1) have "set (ap_fields rep) = set (dkeys row0)" by (simp add: fieldnames_of_keys)
  moreover from csv o(1) out1(1) obtain cells where "dict_cells (ap_fields rep) out1 = Inr cells"
    unfolding mapE_Inr_iff by (fastforce simp: list_all2_conv_all_nth in_set_conv_nth)
  ultimately have "set (dkeys out1) \<subseteq> set (dkeys row0)" by (simp add: dict_cells_def split: if_splits)
  with rewrite_row_keys [OF out1(2)] assms(7) show False by (auto simp: rewritten_fields_def)
qed

section \<open>Examples\<close>

definition demo_apply_summary :: "string \<Rightarrow> string" where
  "demo_apply_summary rows = ''Benchmark,SanRazor Level,Original Checks,Removed Checks,SanRazor Checks,Removed / Original,Runtime Native,Runtime UBSan,Runtime SanRazor,Overhead Reduction %,Native Status,UBSan Status,SanRazor Status'' @ [NL] @ rows"

definition demo_apply_files :: "string \<Rightarrow> files" where
  "demo_apply_files rows = (\<lambda>p. if p = ''s'' then Some (File (demo_apply_summary rows))
     else if p = ''a'' then Some (File (''Level,Benchmark,Removed Checks,WRITE / Removed'' @ [NL] @ ''L2,bzip2,3,0.00%''))
     else None)"

definition demo_access :: access where
  "demo_access = [((Some ''L2'', Some ''bzip2''),
     [(''Level'', Some ''L2''), (''Benchmark'', Some ''bzip2''), (''Removed Checks'', Some ''3''), (''WRITE / Removed'', Some ''0.00%'')])]"

definition demo_rows_ok :: string where
  "demo_rows_ok = ''bzip2,L2,10,4,6,40,1,2,3,5,S,S,S''"

definition demo_rows_bad :: string where
  "demo_rows_bad = ''mcf,L2,10,4,6,40,1,2,3,5,S,S,S'' @ [NL] @ ''bzip2,L2,10,4,6,40,1,2,3,5,S,S,S''"

lemma demo_apply_access: "read_access (demo_apply_files rows) ''a'' = Inr demo_access"
proof -
  have "read_text (demo_apply_files rows) ''a'' =
      Inr (''Level,Benchmark,Removed Checks,WRITE / Removed'' @ [NL] @ ''L2,bzip2,3,0.00%'')"
    by (simp add: read_text_def demo_apply_files_def) code_simp
  moreover have "fold add_access (dict_reader (CHR '','')
      (''Level,Benchmark,Removed Checks,WRITE / Removed'' @ [NL] @ ''L2,bzip2,3,0.00%'')) [] = demo_access"
    by code_simp
  ultimately show ?thesis by (simp only: read_access_def bindE.simps)
qed

lemma demo_apply_text: "read_text (demo_apply_files rows) ''s'' = Inr (demo_apply_summary rows)"
proof -
  have "path_str ''s'' = ''s''" by code_simp
  then show ?thesis by (simp add: read_text_def demo_apply_files_def)
qed

lemma demo_apply_runs:
  "\<exists>rep. apply_main (demo_apply_files demo_rows_ok) ''s'' ''a'' = Inr rep"
proof -
  have "\<not> isl (apply_main (demo_apply_files demo_rows_ok) ''s'' ''a'')" by code_simp
  then show ?thesis by (metis isl_def sum.exhaust)
qed


lemma demo_bad_rows:
  "full_reader (demo_apply_summary demo_rows_bad) =
     [hd (full_reader (demo_apply_summary demo_rows_bad)), hd (tl (full_reader (demo_apply_summary demo_rows_bad)))]"
  "access_of demo_access (hd (full_reader (demo_apply_summary demo_rows_bad))) = None"
  "access_of demo_access (hd (tl (full_reader (demo_apply_summary demo_rows_bad)))) \<noteq> None"
  "Some ''SanRazor Reported Removed Checks'' \<notin> set (dkeys (hd (full_reader (demo_apply_summary demo_rows_bad))))"
  by code_simp+

theorem apply_needs_first_access_witness:
  "\<exists>e. apply_main (demo_apply_files demo_rows_bad) ''s'' ''a'' = Inl e"
  by (rule apply_needs_first_access [OF demo_apply_access demo_apply_text demo_bad_rows(1,2) _ demo_bad_rows(3,4)]) simp

end
