(* ===== verification/CsvWriter.thy ===== *)
theory CsvWriter
  imports PyCsv
begin

text \<open>
  \<open>csv.writer\<close> with the excel dialect: a field is quoted when it has the delimiter, a quote, a
  carriage return or a line feed, quotes are doubled, rows end in CR LF, and a row that is one
  empty field is written as two quotes. What the writer writes, the reader of \<open>PyCsv\<close> reads
  back, whatever the fields hold.
\<close>

section \<open>csv.writer\<close>

abbreviation QUOTE :: char where "QUOTE \<equiv> CHR 0x22"

definition needs_quotes :: "char \<Rightarrow> string \<Rightarrow> bool" where
  "needs_quotes delim s \<longleftrightarrow> list_ex (\<lambda>c. c = delim \<or> c = QUOTE \<or> is_eol c) s"

definition double_quotes :: "string \<Rightarrow> string" where
  "double_quotes s = replace_char QUOTE [QUOTE, QUOTE] s"

definition field_text :: "char \<Rightarrow> string \<Rightarrow> string" where
  "field_text delim s = (if needs_quotes delim s then QUOTE # double_quotes s @ [QUOTE] else s)"

definition row_text :: "char \<Rightarrow> string list \<Rightarrow> string" where
  "row_text delim row =
     (if row = [''''] then [QUOTE, QUOTE] else join [delim] (map (field_text delim) row)) @ [CR, NL]"

definition rows_text :: "char \<Rightarrow> string list list \<Rightarrow> string" where
  "rows_text delim rows = concat (map (row_text delim) rows)"

lemma rows_text_append: "rows_text d (xs @ ys) = rows_text d xs @ rows_text d ys"
  by (simp add: rows_text_def)

section \<open>Reading back\<close>

named_theorems csv_steps \<open>how the reader consumes one character\<close>

lemma is_eol_simps [simp]: "is_eol NL" "is_eol CR" "\<not> is_eol QUOTE"
  by (simp_all add: is_eol_def)

definition csv_rest :: "char \<Rightarrow> string \<Rightarrow> csv_state \<Rightarrow> string list list" where
  "csv_rest d t st = csv_rows d (raw_lines t) st"

lemma raw_lines_Nil_iff [simp]: "raw_lines t = [] \<longleftrightarrow> t = []"
  by (metis concat.simps(1) concat_raw_lines raw_lines.simps(1))

lemma rows_plain [csv_steps]:
  assumes "\<not> is_eol c" "t \<noteq> []"
  shows "csv_rest d (c # t) st = csv_rest d t (csv_char d c st)"
proof -
  from assms(2) obtain l ls where "raw_lines t = l # ls" by (cases "raw_lines t") auto
  with assms(1) show ?thesis by (auto simp: csv_rest_def csv_line_def is_eol_def)
qed

text \<open>Inside quotes line ends are text, however the file's lines are cut.\<close>

lemma rows_quoted [csv_steps]:
  assumes "csv_mode st = InQuoted" "c \<noteq> QUOTE"
  shows "csv_rest d (c # t) st = csv_rest d t (add_char c InQuoted st)"
proof -
  have one: "csv_line d [c] st = add_char c InQuoted st"
    using assms by (simp add: csv_line_def csv_char_def csv_eol_def add_char_def)
  have two: "csv_line d [c, x] st = csv_line d [x] (add_char c InQuoted st)" for x
    using assms by (simp add: csv_line_def csv_char_def)
  consider "t = []" | (crnl) s where "c = CR" "t = NL # s" | (eol) "is_eol c" "\<not> (c = CR \<and> t \<noteq> [] \<and> hd t = NL)"
    | (plain) "\<not> is_eol c" "t \<noteq> []"
    by (cases t) auto
  then show ?thesis
  proof cases
    case 1
    then show ?thesis by (simp add: one add_char_def csv_rest_def)
  next
    case crnl
    have "csv_mode (add_char NL InQuoted (add_char c InQuoted st)) = InQuoted" by (simp add: add_char_def)
    with crnl show ?thesis using two [of NL] by (simp add: csv_rest_def)
  next
    case eol
    then have "raw_lines (c # t) = [c] # raw_lines t" by (auto simp: is_eol_def)
    then show ?thesis by (simp add: one add_char_def csv_rest_def)
  next
    case plain
    with rows_plain [OF plain] assms show ?thesis by (simp add: csv_char_def)
  qed
qed

definition at_field :: "csv_state \<Rightarrow> bool" where
  "at_field st \<longleftrightarrow> csv_mode st \<in> {StartRecord, StartField} \<and> csv_field st = []"

definition done_field :: "csv_state \<Rightarrow> string \<Rightarrow> csv_state \<Rightarrow> bool" where
  "done_field st s st' \<longleftrightarrow> csv_fields st' = csv_fields st \<and> csv_field st' = s \<and>
     (csv_mode st' \<in> {InField, QuoteInQuoted} \<or> st' = st \<and> s = [])"

lemma rows_in_field:
  assumes "\<not> needs_quotes d s" "csv_mode st = InField" "t \<noteq> []"
  shows "csv_rest d (s @ t) st = csv_rest d t (st\<lparr>csv_field := csv_field st @ s\<rparr>)"
  using assms(1,2)
proof (induction s arbitrary: st)
  case (Cons c s)
  then have c: "\<not> is_eol c" "c \<noteq> d" and s: "\<not> needs_quotes d s" by (auto simp: needs_quotes_def)
  have "csv_rest d ((c # s) @ t) st = csv_rest d (s @ t) (add_char c InField st)"
    using c Cons.prems(2) assms(3) by (simp add: rows_plain csv_char_def)
  also have "\<dots> = csv_rest d t ((add_char c InField st)\<lparr>csv_field := csv_field (add_char c InField st) @ s\<rparr>)"
    using s by (intro Cons.IH) (simp_all add: add_char_def)
  finally show ?case using Cons.prems(2) by (cases st) (simp add: add_char_def)
qed simp

lemma rows_in_quotes:
  assumes "csv_mode st = InQuoted" "t \<noteq> []"
  shows "csv_rest d (double_quotes s @ QUOTE # t) st =
    csv_rest d t (st\<lparr>csv_mode := QuoteInQuoted, csv_field := csv_field st @ s\<rparr>)"
  using assms(1)
proof (induction s arbitrary: st)
  case Nil
  with assms(2) show ?case by (simp add: double_quotes_def replace_char_def rows_plain csv_char_def)
next
  case (Cons c s)
  let ?st = "add_char c InQuoted st"
  have "csv_rest d (double_quotes (c # s) @ QUOTE # t) st =
      csv_rest d (double_quotes s @ QUOTE # t) ?st"
  proof (cases "c = QUOTE")
    case True
    with Cons.prems assms(2) show ?thesis
      by (simp add: double_quotes_def replace_char_def rows_plain csv_char_def add_char_def)
  next
    case False
    with Cons.prems show ?thesis
      by (simp add: double_quotes_def replace_char_def rows_quoted)
  qed
  also have "\<dots> = csv_rest d t (?st\<lparr>csv_mode := QuoteInQuoted, csv_field := csv_field ?st @ s\<rparr>)"
    by (rule Cons.IH) (simp add: add_char_def)
  finally show ?case by (simp add: add_char_def)
qed

lemma rows_field:
  assumes "at_field st" "t \<noteq> []" "d \<noteq> QUOTE" "\<not> is_eol d"
  shows "\<exists>st'. done_field st s st' \<and>
    csv_rest d (field_text d s @ t) st = csv_rest d t st'"
proof (cases "needs_quotes d s")
  case True
  have m: "csv_char d QUOTE st = st\<lparr>csv_mode := InQuoted\<rparr>"
    using assms by (auto simp: at_field_def csv_char_def start_field_def)
  have "csv_rest d (field_text d s @ t) st =
      csv_rest d (double_quotes s @ QUOTE # t) (st\<lparr>csv_mode := InQuoted\<rparr>)"
    using True m by (simp add: field_text_def rows_plain)
  also have "\<dots> = csv_rest d t (st\<lparr>csv_mode := QuoteInQuoted, csv_field := s\<rparr>)"
    using assms(1,2) by (simp add: rows_in_quotes at_field_def)
  finally show ?thesis by (intro exI conjI) (auto simp: done_field_def)
next
  case False
  show ?thesis
  proof (cases s)
    case Nil
    with False assms(1) show ?thesis
      by (intro exI [of _ st]) (simp add: field_text_def done_field_def at_field_def)
  next
    case (Cons c s')
    with False have c: "\<not> is_eol c" "c \<noteq> d" "c \<noteq> QUOTE" and s': "\<not> needs_quotes d s'"
      by (auto simp: needs_quotes_def)
    have "csv_char d c st = add_char c InField st"
      using c assms(1) by (auto simp: at_field_def csv_char_def start_field_def)
    with Cons False c have "csv_rest d (field_text d s @ t) st =
        csv_rest d (s' @ t) (add_char c InField st)"
      using assms(2) by (simp add: field_text_def rows_plain)
    also have "\<dots> = csv_rest d t ((add_char c InField st)\<lparr>csv_field := s\<rparr>)"
      using s' assms(1,2) Cons by (simp add: rows_in_field add_char_def at_field_def)
    finally show ?thesis by (intro exI conjI) (auto simp: done_field_def add_char_def)
  qed
qed

lemma rows_delim:
  assumes "done_field st s st'" "at_field st" "t \<noteq> []" "d \<noteq> QUOTE" "\<not> is_eol d"
  shows "csv_rest d (d # t) st' =
    csv_rest d t \<lparr>csv_mode = StartField, csv_field = [], csv_fields = csv_fields st @ [s]\<rparr>"
proof -
  have "csv_char d d st' = \<lparr>csv_mode = StartField, csv_field = [], csv_fields = csv_fields st @ [s]\<rparr>"
    using assms by (intro csv_state.equality)
      (auto simp: done_field_def at_field_def csv_char_def start_field_def save_field_def)
  with assms show ?thesis by (simp add: rows_plain)
qed

lemma rows_end:
  assumes "done_field st s st'" "at_field st" "csv_mode st = StartField \<or> s \<noteq> []" "\<not> is_eol d"
  shows "csv_rest d (CR # NL # t) st' = (csv_fields st @ [s]) # csv_rest d t csv_init"
proof -
  from assms(4) have "d \<noteq> CR" by auto
  then have "csv_line d [CR, NL] st' = \<lparr>csv_mode = StartRecord, csv_field = [], csv_fields = csv_fields st @ [s]\<rparr>"
    using assms by (intro csv_state.equality) (auto simp: csv_line_def csv_eol_def csv_char_def start_field_def save_field_def done_field_def
        at_field_def)
  then show ?thesis by (simp add: csv_rest_def Let_def)
qed

lemma rows_fields:
  assumes "at_field st" "d \<noteq> QUOTE" "\<not> is_eol d" "row \<noteq> []" "csv_mode st = StartField \<or> row \<noteq> ['''']"
  shows "csv_rest d (join [d] (map (field_text d) row) @ CR # NL # t) st =
    (csv_fields st @ row) # csv_rest d t csv_init"
  using assms(1,4,5)
proof (induction row arbitrary: st)
  case (Cons s row)
  show ?case
  proof (cases row)
    case Nil
    from rows_field [OF Cons.prems(1), of "CR # NL # t"] assms(2,3) obtain st' where
      st': "done_field st s st'" "csv_rest d (field_text d s @ CR # NL # t) st =
        csv_rest d (CR # NL # t) st'" by blast
    with rows_end [OF st'(1) Cons.prems(1)] assms(3) Cons.prems(3) Nil show ?thesis by simp
  next
    case (Cons s2 row2)
    let ?rest = "join [d] (map (field_text d) row) @ CR # NL # t"
    let ?st = "\<lparr>csv_mode = StartField, csv_field = [], csv_fields = csv_fields st @ [s]\<rparr>"
    from rows_field [OF Cons.prems(1), of "d # ?rest"] assms(2,3) obtain st' where
      st': "done_field st s st'" "csv_rest d (field_text d s @ d # ?rest) st =
        csv_rest d (d # ?rest) st'" by blast
    have "csv_rest d (d # ?rest) st' = csv_rest d ?rest ?st"
      by (rule rows_delim [OF st'(1) Cons.prems(1)]) (use assms(2,3) in auto)
    also have "\<dots> = (csv_fields ?st @ row) # csv_rest d t csv_init"
      using Cons.prems(1) \<open>row = s2 # row2\<close> by (intro Cons.IH) (auto simp: at_field_def)
    finally show ?thesis using st'(2) \<open>row = s2 # row2\<close> by simp
  qed
qed simp

lemma rows_row:
  assumes "d \<noteq> QUOTE" "\<not> is_eol d"
  shows "csv_rest d (row_text d row @ t) csv_init = row # csv_rest d t csv_init"
proof -
  have at: "at_field csv_init" by (simp add: at_field_def csv_init_def)
  consider "row = []" | "row = ['''']" | "row \<noteq> []" "row \<noteq> ['''']" by blast
  then show ?thesis
  proof cases
    case 1
    then show ?thesis by (simp add: csv_rest_def row_text_def csv_line_def csv_char_def csv_eol_def csv_init_def)
  next
    case 2
    have "raw_lines (row_text d row @ t) = [QUOTE, QUOTE, CR, NL] # raw_lines t"
      using 2 by (simp add: row_text_def)
    moreover have "d \<noteq> CR" using assms(2) by auto
    ultimately show ?thesis using assms
      by (simp add: csv_rest_def 2 csv_line_def csv_char_def start_field_def save_field_def csv_eol_def csv_init_def)
  next
    case 3
    with rows_fields [OF at assms 3(1)] show ?thesis by (simp add: row_text_def csv_init_def)
  qed
qed

text \<open>What is written is read back.\<close>

lemma csv_roundtrip:
  assumes "d \<noteq> QUOTE" "\<not> is_eol d"
  shows "csv_reader d (rows_text d rows) = rows"
proof -
  have "csv_rest d (rows_text d rows) csv_init = rows"
  proof (induction rows)
    case Nil
    then show ?case by (simp add: csv_rest_def rows_text_def csv_init_def)
  next
    case (Cons row rows)
    then show ?case using rows_row [OF assms, of row "rows_text d rows"] by (simp add: rows_text_def)
  qed
  then show ?thesis by (simp add: csv_reader_def csv_rest_def)
qed

lemma comma_ok [simp]: "CHR '','' \<noteq> QUOTE" "\<not> is_eol (CHR '','')"
  by (simp_all add: is_eol_def)

lemmas csv_roundtrip_comma = csv_roundtrip [OF comma_ok]

lemma dict_roundtrip:
  "dict_reader (CHR '','') (rows_text (CHR '','') (names # rows)) = map (dict_row names) (filter (\<lambda>r. r \<noteq> []) rows)"
  by (simp add: dict_reader_def csv_roundtrip_comma)

end
