(* ===== verification/Host.thy ===== *)
theory Host
  imports PyFloat CsvWriter
begin

text \<open>
  What the batch runners act on: a file system, the processes they start and the clock. An
  action is a function of the host and of the world; it returns a result or an exception, and
  the world as it is then (an exception does not undo what was done before it).

  The host is a parameter: what a process does to the files and how it ends, at which moments
  the operating system refuses a file operation, the clock and the environment variables are
  unknown functions. What the scripts do themselves to the files is defined here: the
  directories and files are kept by their normalised absolute paths, in the order in which
  they were made. Symbolic links, permissions and modification times are not modelled.
\<close>

section \<open>The file system\<close>

type_synonym filesys = "(string, fnode) dict"

definition under :: "string \<Rightarrow> string \<Rightarrow> bool" where
  "under p q \<longleftrightarrow> startswith q (p @ ''/'')"

text \<open>\<open>Path.parent\<close> and the ancestors of an absolute path, from the root down.\<close>

definition path_parent :: "string \<Rightarrow> string" where
  "path_parent p = (let r = rev (tl (dropWhile (\<lambda>c. c \<noteq> CHR ''/'') (rev p))) in if r = '''' then ''/'' else r)"

definition ancestors :: "string \<Rightarrow> string list" where
  "ancestors p = ''/'' # map (\<lambda>i. take i p) (filter (\<lambda>i. p ! i = CHR ''/'') [1..<length p])"

text \<open>\<open>repr\<close> of a string, as error messages show it.\<close>

definition hex_digit :: "nat \<Rightarrow> char" where
  "hex_digit n = ''0123456789abcdef'' ! n"

definition printable :: "char \<Rightarrow> bool" where
  "printable c = (let n = (of_char c :: nat) in (32 \<le> n \<and> n \<le> 126) \<or> (161 \<le> n \<and> n \<noteq> 173))"

definition repr_char :: "char \<Rightarrow> char \<Rightarrow> string" where
  "repr_char q c =
     (if c = q \<or> c = CHR 0x5C then [CHR 0x5C, c]
      else if c = NL then [CHR 0x5C, CHR ''n''] else if c = CR then [CHR 0x5C, CHR ''r'']
      else if c = TAB then [CHR 0x5C, CHR ''t''] else if printable c then [c]
      else (let n = (of_char c :: nat) in [CHR 0x5C, CHR ''x'', hex_digit (n div 16), hex_digit (n mod 16)]))"

definition py_repr :: "string \<Rightarrow> string" where
  "py_repr s = (let q = (if CHR 0x27 \<in> set s \<and> QUOTE \<notin> set s then QUOTE else CHR 0x27) in
     q # concat (map (repr_char q) s) @ [q])"

definition os_error :: "int \<Rightarrow> string \<Rightarrow> string \<Rightarrow> string" where
  "os_error n what p = ''[Errno '' @ show_int n @ ''] '' @ what @ '': '' @ py_repr p"

text \<open>\<open>shutil.rmtree\<close>, \<open>Path.unlink\<close>, \<open>Path.mkdir(parents=True)\<close>, writing a whole file, appending.\<close>

definition fs_rmtree :: "string \<Rightarrow> filesys \<Rightarrow> string + filesys" where
  "fs_rmtree p fs = (case map_of fs p of
      None \<Rightarrow> Inl (os_error 2 ''No such file or directory'' p)
    | Some (File _) \<Rightarrow> Inl (os_error 20 ''Not a directory'' p)
    | Some Dir \<Rightarrow> Inr (filter (\<lambda>(q, _). q \<noteq> p \<and> \<not> under p q) fs))"

definition fs_unlink :: "string \<Rightarrow> filesys \<Rightarrow> string + filesys" where
  "fs_unlink p fs = (case map_of fs p of
      None \<Rightarrow> Inl (os_error 2 ''No such file or directory'' p)
    | Some Dir \<Rightarrow> Inl (os_error 21 ''Is a directory'' p)
    | Some (File _) \<Rightarrow> Inr (filter (\<lambda>(q, _). q \<noteq> p) fs))"

definition add_dir :: "string \<Rightarrow> filesys \<Rightarrow> filesys" where
  "add_dir p fs = (if map_of fs p = None then dset p Dir fs else fs)"

definition fs_mkdir :: "bool \<Rightarrow> string \<Rightarrow> filesys \<Rightarrow> string + filesys" where
  "fs_mkdir exist_ok p fs = (case map_of fs p of
      Some Dir \<Rightarrow> if exist_ok then Inr fs else Inl (os_error 17 ''File exists'' p)
    | Some (File _) \<Rightarrow> Inl (os_error 17 ''File exists'' p)
    | None \<Rightarrow>
        if list_ex (\<lambda>a. case map_of fs a of Some (File _) \<Rightarrow> True | _ \<Rightarrow> False) (ancestors p)
        then Inl (os_error 20 ''Not a directory'' p)
        else Inr (fold add_dir (ancestors p @ [p]) fs))"

definition fs_write :: "string \<Rightarrow> string \<Rightarrow> filesys \<Rightarrow> string + filesys" where
  "fs_write p content fs =
     (if map_of fs p = Some Dir then Inl (os_error 21 ''Is a directory'' p)
      else if map_of fs (path_parent p) \<noteq> Some Dir then Inl (os_error 2 ''No such file or directory'' p)
      else Inr (dset p (File content) fs))"

text \<open>
  A write to a file that is open for writing goes to its end; when the file has been removed
  or replaced by a directory, nobody sees it.
\<close>

definition fs_append :: "string \<Rightarrow> string \<Rightarrow> filesys \<Rightarrow> filesys" where
  "fs_append p t fs = (case map_of fs p of Some (File old) \<Rightarrow> dset p (File (old @ t)) fs | _ \<Rightarrow> fs)"

text \<open>\<open>shutil.copytree\<close> with names that are left out, \<open>Path.rename\<close> of a directory, \<open>Path.iterdir\<close>.\<close>

definition copied :: "(string \<Rightarrow> bool) \<Rightarrow> string \<Rightarrow> string \<Rightarrow> filesys \<Rightarrow> filesys" where
  "copied ignored src dst fs =
     List.map_filter (\<lambda>(q, n). if under src q \<and> \<not> list_ex ignored (split_on (CHR ''/'') (drop (length src + 1) q))
       then Some (dst @ drop (length src) q, n) else None) fs"

definition fs_copytree :: "(string \<Rightarrow> bool) \<Rightarrow> string \<Rightarrow> string \<Rightarrow> filesys \<Rightarrow> string + filesys" where
  "fs_copytree ignored src dst fs = (case map_of fs src of
      None \<Rightarrow> Inl (os_error 2 ''No such file or directory'' src)
    | Some (File _) \<Rightarrow> Inl (os_error 20 ''Not a directory'' src)
    | Some Dir \<Rightarrow> (case fs_mkdir False dst fs of
          Inl e \<Rightarrow> Inl e
        | Inr fs' \<Rightarrow> Inr (fold (\<lambda>(q, n). dset q n) (copied ignored src dst fs) fs')))"

definition children :: "filesys \<Rightarrow> string \<Rightarrow> string list" where
  "children fs p = filter (\<lambda>q. under p q \<and> CHR ''/'' \<notin> set (drop (length p + 1) q)) (dkeys fs)"

definition fs_rename :: "string \<Rightarrow> string \<Rightarrow> filesys \<Rightarrow> string + filesys" where
  "fs_rename src dst fs =
     (if map_of fs src = None then Inl (os_error 2 ''No such file or directory'' src)
      else if map_of fs dst \<noteq> None then Inl (os_error 39 ''Directory not empty'' dst)
      else Inr (map (\<lambda>(q, n). (if q = src \<or> under src q then dst @ drop (length src) q else q, n)) fs))"

section \<open>Processes, exceptions, the host\<close>

type_synonym environ = "(string, string) dict"

record proc =
  pr_argv :: "string list"
  pr_cwd :: string
  pr_env :: "environ option"
  pr_timeout :: "int option"
  pr_out :: string

datatype proc_end = Exited int | OverTime | NotStarted string

datatype job_exn =
    RuntimeErr string
  | ValueErr string
  | KeyErr string
  | TypeErr string
  | TimeoutErr "string list" int
  | OsErr string
  | ExitErr string

text \<open>\<open>str(exc)\<close>\<close>

fun exn_text :: "job_exn \<Rightarrow> string" where
  "exn_text (RuntimeErr m) = m"
| "exn_text (ValueErr m) = m"
| "exn_text (KeyErr k) = py_repr k"
| "exn_text (TypeErr m) = m"
| "exn_text (TimeoutErr argv t) =
     ''Command '' @ [CHR 0x27] @ ''['' @ join '', '' (map py_repr argv) @ '']'' @ [CHR 0x27] @
     '' timed out after '' @ show_int t @ '' seconds''"
| "exn_text (OsErr m) = m"
| "exn_text (ExitErr m) = m"

text \<open>
  The world: the files; a count of the actions so far, by which the host can make every action
  different; the processes started so far, in order, and how they ended; the rows of the run
  time file that is being written; the rows given to the status writer; what was printed.
\<close>

record world =
  w_fs :: filesys
  w_tick :: nat
  w_procs :: "(proc \<times> proc_end) list"
  w_rows :: "string list list"
  w_status :: "string list list"
  w_prints :: "string list"

record host =
  h_run :: "world \<Rightarrow> proc \<Rightarrow> proc_end \<times> filesys"
  h_os :: "nat \<Rightarrow> string option"
  h_clock :: "nat \<Rightarrow> pyfloat"
  h_environ :: environ

type_synonym 'a act = "host \<Rightarrow> world \<Rightarrow> (job_exn + 'a) \<times> world"

section \<open>Actions\<close>

definition returnA :: "'a \<Rightarrow> 'a act" where
  "returnA x = (\<lambda>h w. (Inr x, w))"

definition raiseA :: "job_exn \<Rightarrow> 'a act" where
  "raiseA e = (\<lambda>h w. (Inl e, w))"

definition bindA :: "'a act \<Rightarrow> ('a \<Rightarrow> 'b act) \<Rightarrow> 'b act" where
  "bindA m f = (\<lambda>h w. case m h w of (Inl e, w') \<Rightarrow> (Inl e, w') | (Inr x, w') \<Rightarrow> f x h w')"

definition thenA :: "unit act \<Rightarrow> 'b act \<Rightarrow> 'b act" where
  "thenA m n = bindA m (\<lambda>_. n)"

fun forA :: "('x \<Rightarrow> unit act) \<Rightarrow> 'x list \<Rightarrow> unit act" where
  "forA f [] = returnA ()"
| "forA f (x # xs) = thenA (f x) (forA f xs)"

definition whenA :: "bool \<Rightarrow> unit act \<Rightarrow> unit act" where
  "whenA b m = (if b then m else returnA ())"

text \<open>\<open>try: m except Exception as e: f(e)\<close>; \<open>SystemExit\<close> is no \<open>Exception\<close>.\<close>

definition tryA :: "'a act \<Rightarrow> (job_exn \<Rightarrow> 'a act) \<Rightarrow> 'a act" where
  "tryA m f = (\<lambda>h w. case m h w of
      (Inl (ExitErr t), w') \<Rightarrow> (Inl (ExitErr t), w')
    | (Inl e, w') \<Rightarrow> f e h w'
    | (Inr x, w') \<Rightarrow> (Inr x, w'))"

text \<open>\<open>with ... : m\<close>, where leaving the block runs \<open>c\<close>, however it is left.\<close>

definition withA :: "'a act \<Rightarrow> unit act \<Rightarrow> 'a act" where
  "withA m c = (\<lambda>h w. case m h w of (r, w') \<Rightarrow>
     (case c h w' of (Inl e, w'') \<Rightarrow> (Inl e, w'') | (Inr _, w'') \<Rightarrow> (r, w'')))"

definition getA :: "(host \<Rightarrow> world \<Rightarrow> 'a) \<Rightarrow> 'a act" where
  "getA f = (\<lambda>h w. (Inr (f h w), w))"

text \<open>A file operation, which the operating system may refuse.\<close>

definition osA :: "(filesys \<Rightarrow> string + filesys) \<Rightarrow> unit act" where
  "osA f = (\<lambda>h w. let w' = w\<lparr>w_tick := w_tick w + 1\<rparr> in
     (case h_os h (w_tick w) of
        Some msg \<Rightarrow> (Inl (OsErr msg), w')
      | None \<Rightarrow> (case f (w_fs w) of
            Inl msg \<Rightarrow> (Inl (OsErr msg), w')
          | Inr fs \<Rightarrow> (Inr (), w'\<lparr>w_fs := fs\<rparr>))))"

text \<open>\<open>subprocess.run\<close>; without a time limit a process does not run over time.\<close>

definition procA :: "proc \<Rightarrow> int act" where
  "procA p = (\<lambda>h w. case h_run h w p of (e, fs) \<Rightarrow>
     (let w' = w\<lparr>w_fs := fs, w_tick := w_tick w + 1, w_procs := w_procs w @ [(p, e)]\<rparr> in
      (case e of
         Exited rc \<Rightarrow> (Inr rc, w')
       | OverTime \<Rightarrow> (Inl (TimeoutErr (pr_argv p) (case pr_timeout p of None \<Rightarrow> 0 | Some t \<Rightarrow> t)), w')
       | NotStarted msg \<Rightarrow> (Inl (OsErr msg), w'))))"

definition existsA :: "string \<Rightarrow> bool act" where
  "existsA p = getA (\<lambda>h w. map_of (w_fs w) p \<noteq> None)"

definition rmtreeA :: "string \<Rightarrow> unit act" where
  "rmtreeA p = osA (fs_rmtree p)"

definition unlinkA :: "string \<Rightarrow> unit act" where
  "unlinkA p = osA (fs_unlink p)"

definition mkdirA :: "bool \<Rightarrow> string \<Rightarrow> unit act" where
  "mkdirA exist_ok p = osA (fs_mkdir exist_ok p)"

definition writeA :: "string \<Rightarrow> string \<Rightarrow> unit act" where
  "writeA p content = osA (fs_write p content)"

definition appendA :: "string \<Rightarrow> string \<Rightarrow> unit act" where
  "appendA p t = osA (\<lambda>fs. Inr (fs_append p t fs))"

definition readA :: "string \<Rightarrow> string act" where
  "readA p = thenA (osA (\<lambda>fs. case map_of fs p of
        None \<Rightarrow> Inl (os_error 2 ''No such file or directory'' p)
      | Some Dir \<Rightarrow> Inl (os_error 21 ''Is a directory'' p)
      | Some (File _) \<Rightarrow> Inr fs))
    (getA (\<lambda>h w. case map_of (w_fs w) p of Some (File t) \<Rightarrow> t | _ \<Rightarrow> ''''))"

definition removeA :: "string \<Rightarrow> unit act" where
  "removeA p = bindA (existsA p) (\<lambda>there. whenA there (rmtreeA p))"

definition clockA :: "pyfloat act" where
  "clockA = getA (\<lambda>h w. h_clock h (w_tick w))"

definition environA :: "environ act" where
  "environA = getA (\<lambda>h w. h_environ h)"

definition printA :: "string \<Rightarrow> unit act" where
  "printA t = (\<lambda>h w. (Inr (), w\<lparr>w_prints := w_prints w @ [t]\<rparr>))"

text \<open>A row of the open run time file, and the file's text when it is closed.\<close>

definition rowA :: "string list \<Rightarrow> unit act" where
  "rowA row = (\<lambda>h w. (Inr (), w\<lparr>w_rows := w_rows w @ [row]\<rparr>))"

definition csvA :: "string \<Rightarrow> unit act \<Rightarrow> unit act" where
  "csvA path m =
     thenA (writeA path '''')
       (thenA (\<lambda>h w. (Inr (), w\<lparr>w_rows := []\<rparr>))
         (withA m (bindA (getA (\<lambda>h w. rows_text (CHR '','') (w_rows w))) (\<lambda>t. appendA path t))))"

text \<open>A row of the status file, written and flushed.\<close>

definition statusA :: "string \<Rightarrow> string list \<Rightarrow> unit act" where
  "statusA path row =
     thenA (\<lambda>h w. (Inr (), w\<lparr>w_status := w_status w @ [row]\<rparr>)) (appendA path (row_text (CHR '','') row))"

section \<open>What an action keeps\<close>

text \<open>
  \<open>keeps H R m\<close>: on every host with \<open>H\<close>, however the action ends, it relates the world before
  to the world after. For a reflexive and transitive relation this goes through the
  combinators; the relations it is used with say that some part of the world is as it was.
\<close>

definition keeps :: "(host \<Rightarrow> bool) \<Rightarrow> (world \<Rightarrow> world \<Rightarrow> bool) \<Rightarrow> 'a act \<Rightarrow> bool" where
  "keeps H R m \<longleftrightarrow> (\<forall>h w. H h \<longrightarrow> R w (snd (m h w)))"

lemma keepsI: "(\<And>h w. H h \<Longrightarrow> R w (snd (m h w))) \<Longrightarrow> keeps H R m"
  by (simp add: keeps_def)

lemma keepsD: "keeps H R m \<Longrightarrow> H h \<Longrightarrow> m h w = (r, w') \<Longrightarrow> R w w'"
  unfolding keeps_def by (metis snd_conv)

locale frame =
  fixes H :: "host \<Rightarrow> bool" and R :: "world \<Rightarrow> world \<Rightarrow> bool"
  assumes frame_refl: "R w w" and frame_trans: "R u v \<Longrightarrow> R v w \<Longrightarrow> R u w"
begin

lemma keeps_return: "keeps H R (returnA x)"
  by (simp add: keeps_def returnA_def frame_refl)

lemma keeps_raise: "keeps H R (raiseA e)"
  by (simp add: keeps_def raiseA_def frame_refl)

lemma keeps_get: "keeps H R (getA f)"
  by (simp add: keeps_def getA_def frame_refl)

lemma keeps_bind:
  assumes "keeps H R m" "\<And>x. keeps H R (f x)"
  shows "keeps H R (bindA m f)"
proof (rule keepsI)
  fix h w assume h: "H h"
  obtain r w' where m: "m h w = (r, w')" by (cases "m h w")
  have "R w w'" by (rule keepsD [OF assms(1) h m])
  moreover have "R w' (snd (f x h w'))" for x using assms(2) h by (simp add: keeps_def)
  ultimately show "R w (snd (bindA m f h w))"
    by (cases r) (auto simp: bindA_def m intro: frame_trans)
qed

text \<open>What is bound is a value the reading returned.\<close>

lemma keeps_bind_get:
  assumes "\<And>h w. H h \<Longrightarrow> keeps H R (f (g h w))"
  shows "keeps H R (bindA (getA g) f)"
  using assms by (fastforce simp: keeps_def bindA_def getA_def)

lemma keeps_then: "keeps H R m \<Longrightarrow> keeps H R n \<Longrightarrow> keeps H R (thenA m n)"
  by (simp add: thenA_def keeps_bind)

lemma keeps_for: "(\<And>x. x \<in> set xs \<Longrightarrow> keeps H R (f x)) \<Longrightarrow> keeps H R (forA f xs)"
  by (induction xs) (simp_all add: keeps_return keeps_then)

lemma keeps_when: "(b \<Longrightarrow> keeps H R m) \<Longrightarrow> keeps H R (whenA b m)"
  by (simp add: whenA_def keeps_return)

lemma keeps_try:
  assumes "keeps H R m" "\<And>e. keeps H R (f e)"
  shows "keeps H R (tryA m f)"
proof (rule keepsI)
  fix h w assume h: "H h"
  obtain r w' where m: "m h w = (r, w')" by (cases "m h w")
  have "R w w'" by (rule keepsD [OF assms(1) h m])
  moreover have "R w' (snd (f e h w'))" for e using assms(2) h by (simp add: keeps_def)
  ultimately show "R w (snd (tryA m f h w))"
    by (auto simp: tryA_def m intro: frame_trans split: sum.splits job_exn.splits)
qed

lemma keeps_with:
  assumes "keeps H R m" "keeps H R c"
  shows "keeps H R (withA m c)"
proof (rule keepsI)
  fix h w assume h: "H h"
  obtain r w' where m: "m h w = (r, w')" by (cases "m h w")
  obtain s w2 where c: "c h w' = (s, w2)" by (cases "c h w'")
  have "R w w'" "R w' w2" by (rule keepsD [OF assms(1) h m], rule keepsD [OF assms(2) h c])
  then show "R w (snd (withA m c h w))"
    by (auto simp: withA_def m c intro: frame_trans split: sum.splits)
qed

lemmas keeps_rules = keeps_return keeps_raise keeps_get keeps_bind keeps_then keeps_for keeps_when keeps_try keeps_with

end

text \<open>
  The interface between the file operations and the scripts: on the paths that are \<open>A\<close>, which
  are closed under what lies below them, every operation keeps the relation; so do processes
  and the run time rows. What the scripts do is composed of these.
\<close>

definition plain_name :: "string \<Rightarrow> bool" where
  "plain_name s \<longleftrightarrow> s \<noteq> '''' \<and> list_all (\<lambda>c. c \<noteq> CHR ''/'') s \<and> s \<noteq> ''.'' \<and> s \<noteq> ''..''"

locale file_frame = frame +
  fixes A :: "string \<Rightarrow> bool"
  assumes keeps_rmtree: "A p \<Longrightarrow> keeps H R (rmtreeA p)"
    and keeps_unlink: "A p \<Longrightarrow> keeps H R (unlinkA p)"
    and keeps_mkdir: "A p \<Longrightarrow> keeps H R (mkdirA b p)"
    and keeps_write: "A p \<Longrightarrow> keeps H R (writeA p t)"
    and keeps_append: "A p \<Longrightarrow> keeps H R (appendA p t)"
    and keeps_rename: "A p \<Longrightarrow> A q \<Longrightarrow> keeps H R (osA (fs_rename p q))"
    and keeps_copy: "A q \<Longrightarrow> keeps H R (osA (fs_copytree i p q))"
    and keeps_check: "keeps H R (osA (\<lambda>fs. if C fs then Inr fs else Inl e))"
    and keeps_proc: "keeps H R (procA pr)"
    and keeps_row: "keeps H R (rowA row)"
    and keeps_reset: "keeps H R (\<lambda>h w. (Inr (), w\<lparr>w_rows := []\<rparr>))"
    and A_div: "A p \<Longrightarrow> plain_name x \<Longrightarrow> A (path_div p x)"
    and A_child: "A p \<Longrightarrow> c \<in> set (children fs p) \<Longrightarrow> A c"
begin

lemma keeps_exists: "keeps H R (existsA p)" and keeps_clock: "keeps H R clockA" and keeps_environ: "keeps H R environA"
  unfolding existsA_def clockA_def environA_def by (rule keeps_get)+

lemma keeps_remove: "A p \<Longrightarrow> keeps H R (removeA p)"
  unfolding removeA_def by (intro keeps_rules keeps_exists keeps_rmtree)

lemma keeps_csv: "A p \<Longrightarrow> keeps H R m \<Longrightarrow> keeps H R (csvA p m)"
  unfolding csvA_def by (intro keeps_rules keeps_write keeps_append keeps_reset)

lemmas keeps_ops = keeps_rules keeps_rmtree keeps_unlink keeps_mkdir keeps_write keeps_append keeps_rename keeps_copy
  keeps_check keeps_proc keeps_row keeps_reset keeps_exists keeps_clock keeps_environ keeps_remove keeps_csv

end

text \<open>The rows given to the status writer: nothing but the status writer itself adds to them.\<close>

definition same_status :: "world \<Rightarrow> world \<Rightarrow> bool" where
  "same_status w w' \<longleftrightarrow> w_status w' = w_status w"

lemma same_status_os: "keeps H same_status (osA f)"
  by (simp add: keeps_def osA_def same_status_def Let_def split: option.splits sum.splits)

interpretation status_frame: file_frame "\<lambda>_. True" same_status "\<lambda>_. True"
  by unfold_locales
    (simp_all add: same_status_os rmtreeA_def unlinkA_def mkdirA_def writeA_def appendA_def,
     simp_all add: keeps_def procA_def rowA_def same_status_def Let_def split: prod.splits proc_end.splits)

end
