(* ===== verification/Registry.thy ===== *)
theory Registry
  imports Prelude
begin

text \<open>
  The tables of the two batch runners, \<open>scripts/run_oss_batch_after_read_check_elimination.py\<close>
  and \<open>scripts/run_oss_asanmm_comparison.py\<close>: where each project's source comes from, how it
  is built and what is run, and the variants and core checks of each sanitizer. The commands
  are the strings of the scripts; they are handed to the shell as they are.
\<close>

text \<open>A project's dictionary, with its possible keys; a missing key is \<open>None\<close>.\<close>

record project =
  pj_archive :: "string option"
  pj_repo :: "string option"
  pj_ref :: "string option"
  pj_submodules :: bool
  pj_build :: "string option"
  pj_artifact :: "string option"
  pj_run :: "string option"

record sanitizer =
  sn_base_variant :: string
  sn_core_prefixes :: "string list"

definition SANITIZERS :: "(string, sanitizer) dict" where
  "SANITIZERS = [(''asan'', \<lparr>sn_base_variant = ''asan-base'', sn_core_prefixes = [''__asan_report_load'', ''__asan_report_store'', ''__asan_load'', ''__asan_store'']\<rparr>),
     (''ubsan'', \<lparr>sn_base_variant = ''ubsan-base'', sn_core_prefixes = [''__ubsan_handle_type_mismatch'', ''__ubsan_handle_pointer_overflow'', ''__ubsan_handle_out_of_bounds'', ''__ubsan_handle_shift_out_of_bounds'']\<rparr>),
     (''msan'', \<lparr>sn_base_variant = ''msan-base'', sn_core_prefixes = [''__msan_warning'', ''__msan_maybe_warning'', ''__msan_param_'', ''__msan_retval_'', ''__msan_va_arg_'', ''__msan_check_mem_is_initialized'', ''__msan_test_shadow'', ''__msan_print_shadow'']\<rparr>)]"

section \<open>Projects of the DESAN batch\<close>

definition projects_1 :: "(string, project) dict" where
  "projects_1 =
   [(''ffmpeg'', \<lparr>pj_archive = None, pj_repo = Some ''https://github.com/FFmpeg/FFmpeg.git'', pj_ref = Some ''n6.1.1'', pj_submodules = False,
     pj_build = Some ''./configure --cc=\"$CC\" --cxx=\"$CXX\" --disable-asm --disable-x86asm --disable-doc --disable-debug --disable-network --disable-autodetect --disable-everything --enable-ffmpeg --enable-avcodec --enable-avformat --enable-avfilter --enable-avdevice --enable-swscale --enable-swresample --enable-protocol=file --enable-indev=lavfi --enable-filter=testsrc2 --enable-filter=sine --enable-filter=null --enable-filter=anull --enable-muxer=null --enable-decoder=wrapped_avframe --enable-decoder=pcm_s16le --enable-encoder=wrapped_avframe --enable-encoder=pcm_s16le && make -j\"$JOBS\" ffmpeg'',
     pj_artifact = Some ''ffmpeg'',
     pj_run = Some ''for i in $(seq 1 \"$LOOPS\"); do \"$APP\" -hide_banner -nostdin -v error -f lavfi -i testsrc2=size=128x128:rate=30:d=1 -f null - >/dev/null; \"$APP\" -hide_banner -nostdin -v error -f lavfi -i sine=frequency=1000:duration=1 -f null - >/dev/null; done''\<rparr>),
    (''imagemagick'', \<lparr>pj_archive = None, pj_repo = Some ''https://github.com/ImageMagick/ImageMagick.git'', pj_ref = Some ''7.1.1-38'', pj_submodules = False,
     pj_build = Some ''./configure CC=\"$CC\" CXX=\"$CXX\" CFLAGS=\"$CFLAGS\" CXXFLAGS=\"$CXXFLAGS\" --disable-shared --enable-static --disable-openmp --without-bzlib --without-djvu --without-fftw --without-fontconfig --without-freetype --without-gslib --without-heic --without-jbig --without-jpeg --without-lcms --without-lqr --without-lzma --without-openexr --without-pango --without-png --without-raqm --without-tiff --without-webp --without-wmf --without-xml --without-zlib --without-x --without-magick-plus-plus --without-perl && make -j\"$JOBS\" utilities/magick'',
     pj_artifact = Some ''utilities/magick'',
     pj_run = Some ''set -e; for i in $(seq 1 \"$LOOPS\"); do \"$APP\" \"$BENCH/input.ppm\" -resize 96x96 -colorspace Gray \"$BENCH/out.pgm\" >/dev/null; \"$APP\" identify \"$BENCH/out.pgm\" >/dev/null; rm -f \"$BENCH/out.pgm\"; done''\<rparr>),
    (''zlib'', \<lparr>pj_archive = None, pj_repo = Some ''https://github.com/madler/zlib.git'', pj_ref = Some ''v1.3.1'', pj_submodules = False,
     pj_build = Some ''./configure --static && make -j\"$JOBS\" minigzip'',
     pj_artifact = Some ''minigzip'',
     pj_run = Some ''for i in $(seq 1 \"$LOOPS\"); do \"$APP\" -c \"$BENCH/input.txt\" >\"$BENCH/input.txt.gz\"; \"$APP\" -d -c \"$BENCH/input.txt.gz\" >/dev/null; rm -f \"$BENCH/input.txt.gz\"; done''\<rparr>),
    (''bzip2'', \<lparr>pj_archive = None, pj_repo = Some ''https://sourceware.org/git/bzip2.git'', pj_ref = Some ''bzip2-1.0.8'', pj_submodules = False,
     pj_build = Some ''make -j\"$JOBS\" CC=\"$CC\" CFLAGS=\"$CFLAGS\" bzip2'',
     pj_artifact = Some ''bzip2'',
     pj_run = Some ''for i in $(seq 1 \"$LOOPS\"); do \"$APP\" -c \"$BENCH/input.txt\" >\"$BENCH/input.txt.bz2\"; \"$APP\" -d -c \"$BENCH/input.txt.bz2\" >/dev/null; rm -f \"$BENCH/input.txt.bz2\"; done''\<rparr>),
    (''gzip'', \<lparr>pj_archive = Some ''https://ftp.gnu.org/gnu/gzip/gzip-1.13.tar.xz'', pj_repo = None, pj_ref = None, pj_submodules = False,
     pj_build = Some ''./configure CC=\"$CC\" CFLAGS=\"$CFLAGS\" --disable-nls --disable-dependency-tracking && make -j\"$JOBS\"'',
     pj_artifact = Some ''gzip'',
     pj_run = Some ''for i in $(seq 1 \"$LOOPS\"); do \"$APP\" -c \"$BENCH/input.txt\" >\"$BENCH/input.txt.gz\"; \"$APP\" -d -c \"$BENCH/input.txt.gz\" >/dev/null; rm -f \"$BENCH/input.txt.gz\"; done''\<rparr>),
    (''xz'', \<lparr>pj_archive = Some ''https://github.com/tukaani-project/xz/releases/download/v5.6.2/xz-5.6.2.tar.xz'', pj_repo = None, pj_ref = None, pj_submodules = False,
     pj_build = Some ''./configure CC=\"$CC\" CFLAGS=\"$CFLAGS\" --disable-shared --enable-static --disable-nls --disable-scripts && make -j\"$JOBS\"'',
     pj_artifact = Some ''src/xz/xz'',
     pj_run = Some ''for i in $(seq 1 \"$LOOPS\"); do \"$APP\" -c \"$BENCH/input.txt\" >/dev/null; done''\<rparr>),
    (''zstd'', \<lparr>pj_archive = None, pj_repo = Some ''https://github.com/facebook/zstd.git'', pj_ref = Some ''v1.5.6'', pj_submodules = False,
     pj_build = Some ''make -j\"$JOBS\" CC=\"$CC\" CFLAGS=\"$CFLAGS\" zstd'',
     pj_artifact = Some ''programs/zstd'',
     pj_run = Some ''for i in $(seq 1 \"$LOOPS\"); do \"$APP\" -q -f \"$BENCH/input.txt\" -o \"$BENCH/input.txt.zst\"; \"$APP\" -q -d -f \"$BENCH/input.txt.zst\" -c >/dev/null; rm -f \"$BENCH/input.txt.zst\"; done''\<rparr>),
    (''lz4'', \<lparr>pj_archive = None, pj_repo = Some ''https://github.com/lz4/lz4.git'', pj_ref = Some ''v1.9.4'', pj_submodules = False,
     pj_build = Some ''make -j\"$JOBS\" CC=\"$CC\" CFLAGS=\"$CFLAGS\" lz4'',
     pj_artifact = Some ''programs/lz4'',
     pj_run = Some ''for i in $(seq 1 \"$LOOPS\"); do \"$APP\" -q -f \"$BENCH/input.txt\" \"$BENCH/input.txt.lz4\"; \"$APP\" -q -d -f \"$BENCH/input.txt.lz4\" -c >/dev/null; rm -f \"$BENCH/input.txt.lz4\"; done''\<rparr>),
    (''brotli'', \<lparr>pj_archive = None, pj_repo = Some ''https://github.com/google/brotli.git'', pj_ref = Some ''v1.1.0'', pj_submodules = False,
     pj_build = Some ''cmake -S . -B build -G Ninja -DCMAKE_C_COMPILER=\"$CC\" -DCMAKE_CXX_COMPILER=\"$CXX\" -DCMAKE_C_FLAGS=\"$CFLAGS\" -DCMAKE_CXX_FLAGS=\"$CXXFLAGS\" -DBUILD_SHARED_LIBS=OFF && cmake --build build --target brotli -j\"$JOBS\"'',
     pj_artifact = Some ''build/brotli'',
     pj_run = Some ''for i in $(seq 1 \"$LOOPS\"); do \"$APP\" -f \"$BENCH/input.txt\" -o \"$BENCH/input.txt.br\"; \"$APP\" -d -f \"$BENCH/input.txt.br\" -o \"$BENCH/input.txt.out\"; rm -f \"$BENCH/input.txt.br\" \"$BENCH/input.txt.out\"; done''\<rparr>),
    (''pigz'', \<lparr>pj_archive = None, pj_repo = Some ''https://github.com/madler/pigz.git'', pj_ref = Some ''v2.8'', pj_submodules = False,
     pj_build = Some ''make -j\"$JOBS\" CC=\"$CC\" CFLAGS=\"$CFLAGS\" pigz'',
     pj_artifact = Some ''pigz'',
     pj_run = Some ''for i in $(seq 1 \"$LOOPS\"); do \"$APP\" -c \"$BENCH/input.txt\" >\"$BENCH/input.txt.gz\"; \"$APP\" -d -c \"$BENCH/input.txt.gz\" >/dev/null; rm -f \"$BENCH/input.txt.gz\"; done''\<rparr>),
    (''libdeflate'', \<lparr>pj_archive = None, pj_repo = Some ''https://github.com/ebiggers/libdeflate.git'', pj_ref = Some ''v1.20'', pj_submodules = False,
     pj_build = Some ''cmake -S . -B build -G Ninja -DCMAKE_C_COMPILER=\"$CC\" -DCMAKE_C_FLAGS=\"$CFLAGS\" -DLIBDEFLATE_BUILD_SHARED_LIB=OFF -DLIBDEFLATE_BUILD_GZIP=ON -DLIBDEFLATE_BUILD_TESTS=OFF && cmake --build build --target libdeflate-gzip -j\"$JOBS\"'',
     pj_artifact = Some ''build/programs/libdeflate-gzip'',
     pj_run = Some ''for i in $(seq 1 \"$LOOPS\"); do \"$APP\" -c \"$BENCH/input.txt\" >\"$BENCH/input.txt.gz\"; \"$APP\" -d -c \"$BENCH/input.txt.gz\" >/dev/null; rm -f \"$BENCH/input.txt.gz\"; done''\<rparr>),
    (''zopfli'', \<lparr>pj_archive = None, pj_repo = Some ''https://github.com/google/zopfli.git'', pj_ref = Some ''zopfli-1.0.3'', pj_submodules = False,
     pj_build = Some ''make -j\"$JOBS\" CC=\"$CC\" CFLAGS=\"$CFLAGS\" zopfli'',
     pj_artifact = Some ''zopfli'',
     pj_run = Some ''for i in $(seq 1 \"$LOOPS\"); do \"$APP\" --gzip -c \"$BENCH/small.txt\" >\"$BENCH/small.txt.gz\"; rm -f \"$BENCH/small.txt.gz\"; done''\<rparr>)]"

definition projects_2 :: "(string, project) dict" where
  "projects_2 =
   [(''xxhash'', \<lparr>pj_archive = None, pj_repo = Some ''https://github.com/Cyan4973/xxHash.git'', pj_ref = Some ''v0.8.2'', pj_submodules = False,
     pj_build = Some ''make -j\"$JOBS\" CC=\"$CC\" CFLAGS=\"$CFLAGS\" xxhsum'',
     pj_artifact = Some ''xxhsum'',
     pj_run = Some ''for i in $(seq 1 \"$LOOPS\"); do \"$APP\" \"$BENCH/input.txt\" >/dev/null; done''\<rparr>),
    (''sqlite'', \<lparr>pj_archive = Some ''https://www.sqlite.org/2024/sqlite-autoconf-3460000.tar.gz'', pj_repo = None, pj_ref = None, pj_submodules = False,
     pj_build = Some ''./configure CC=\"$CC\" CFLAGS=\"$CFLAGS\" --disable-shared --enable-static --disable-readline && make -j\"$JOBS\" sqlite3'',
     pj_artifact = Some ''sqlite3'',
     pj_run = Some ''for i in $(seq 1 \"$LOOPS\"); do echo \"PRAGMA cache_size=1000; CREATE TABLE t(a,b); INSERT INTO t VALUES(1,2),(3,4),(5,6); SELECT sum(a*b) FROM t;\" | \"$APP\" >/dev/null; done''\<rparr>),
    (''lua'', \<lparr>pj_archive = Some ''https://www.lua.org/ftp/lua-5.4.7.tar.gz'', pj_repo = None, pj_ref = None, pj_submodules = False,
     pj_build = Some ''make -j\"$JOBS\" linux CC=\"$CC\" MYCFLAGS=\"$CFLAGS\"'',
     pj_artifact = Some ''src/lua'',
     pj_run = Some ''for i in $(seq 1 \"$LOOPS\"); do \"$APP\" \"$BENCH/script.lua\" >/dev/null; done''\<rparr>),
    (''quickjs'', \<lparr>pj_archive = Some ''https://bellard.org/quickjs/quickjs-2024-01-13.tar.xz'', pj_repo = None, pj_ref = None, pj_submodules = False,
     pj_build = Some (''ver=$(cat VERSION); make -j\"$JOBS\" CC=\"$CC\" CONFIG_LTO= CFLAGS_OPT=\"$CFLAGS -D_GNU_SOURCE -DCONFIG_VERSION='' @ [CHR 0x5C] @ [CHR 0x5C] @ [CHR 0x5C] @ ''\"$ver'' @ [CHR 0x5C] @ [CHR 0x5C] @ [CHR 0x5C] @ ''\" -DCONFIG_BIGNUM\" qjs''),
     pj_artifact = Some ''qjs'',
     pj_run = Some ''for i in $(seq 1 \"$LOOPS\"); do \"$APP\" \"$BENCH/script.js\" >/dev/null; done''\<rparr>),
    (''duktape'', \<lparr>pj_archive = Some ''https://duktape.org/duktape-2.7.0.tar.xz'', pj_repo = None, pj_ref = None, pj_submodules = False,
     pj_build = Some ''mkdir -p obj && COMMON=\"$CFLAGS -pedantic -std=c99 -Wall -fstrict-aliasing -I./examples/cmdline -I./src -DDUK_CMDLINE_PRINTALERT_SUPPORT -I./extras/print-alert -DDUK_CMDLINE_CONSOLE_SUPPORT -I./extras/console -DDUK_CMDLINE_LOGGING_SUPPORT -I./extras/logging -DDUK_CMDLINE_MODULE_SUPPORT -I./extras/module-duktape\" && \"$CC\" $COMMON -c src/duktape.c -o obj/duktape.o && \"$CC\" $COMMON -c examples/cmdline/duk_cmdline.c -o obj/duk_cmdline.o && \"$CC\" $COMMON -c extras/print-alert/duk_print_alert.c -o obj/duk_print_alert.o && \"$CC\" $COMMON -c extras/console/duk_console.c -o obj/duk_console.o && \"$CC\" $COMMON -c extras/logging/duk_logging.c -o obj/duk_logging.o && \"$CC\" $COMMON -c extras/module-duktape/duk_module_duktape.c -o obj/duk_module_duktape.o && \"$CC\" -o duk obj/duktape.o obj/duk_cmdline.o obj/duk_print_alert.o obj/duk_console.o obj/duk_logging.o obj/duk_module_duktape.o -lm'',
     pj_artifact = Some ''duk'',
     pj_run = Some ''for i in $(seq 1 \"$LOOPS\"); do \"$APP\" \"$BENCH/script.js\" >/dev/null; done''\<rparr>),
    (''jq'', \<lparr>pj_archive = None, pj_repo = Some ''https://github.com/jqlang/jq.git'', pj_ref = Some ''jq-1.7.1'', pj_submodules = True,
     pj_build = Some ''autoreconf -fi && ./configure CC=\"$CC\" CFLAGS=\"$CFLAGS\" --disable-shared --enable-static --with-oniguruma=builtin && make -j1 -C modules/oniguruma && make -j1 src/builtin.inc src/config_opts.inc src/version.h && make -j1 jq'',
     pj_artifact = Some ''jq'',
     pj_run = Some ''for i in $(seq 1 \"$LOOPS\"); do \"$APP\" \".items | map(.value) | add\" \"$BENCH/input.json\" >/dev/null; done''\<rparr>),
    (''grep'', \<lparr>pj_archive = Some ''https://ftp.gnu.org/gnu/grep/grep-3.11.tar.xz'', pj_repo = None, pj_ref = None, pj_submodules = False,
     pj_build = Some ''./configure CC=\"$CC\" CFLAGS=\"$CFLAGS\" --disable-nls --disable-perl-regexp && make -j\"$JOBS\"'',
     pj_artifact = Some ''src/grep'',
     pj_run = Some ''for i in $(seq 1 \"$LOOPS\"); do \"$APP\" -E \"needle|line\" \"$BENCH/input.txt\" >/dev/null; done''\<rparr>),
    (''sed'', \<lparr>pj_archive = Some ''https://ftp.gnu.org/gnu/sed/sed-4.9.tar.xz'', pj_repo = None, pj_ref = None, pj_submodules = False,
     pj_build = Some ''./configure CC=\"$CC\" CFLAGS=\"$CFLAGS\" --disable-nls && make -j\"$JOBS\" sed/sed'',
     pj_artifact = Some ''sed/sed'',
     pj_run = Some ''for i in $(seq 1 \"$LOOPS\"); do \"$APP\" \"s/needle/replaced/g\" \"$BENCH/input.txt\" >/dev/null; done''\<rparr>),
    (''gawk'', \<lparr>pj_archive = Some ''https://ftp.gnu.org/gnu/gawk/gawk-5.3.0.tar.xz'', pj_repo = None, pj_ref = None, pj_submodules = False,
     pj_build = Some ''./configure CC=\"$CC\" CFLAGS=\"$CFLAGS\" --disable-nls --without-readline && make -j\"$JOBS\"'',
     pj_artifact = Some ''gawk'',
     pj_run = Some ''for i in $(seq 1 \"$LOOPS\"); do \"$APP\" \"{ s += length($0) } END { print s }\" \"$BENCH/input.txt\" >/dev/null; done''\<rparr>),
    (''coreutils'', \<lparr>pj_archive = Some ''https://ftp.gnu.org/gnu/coreutils/coreutils-9.5.tar.xz'', pj_repo = None, pj_ref = None, pj_submodules = False,
     pj_build = Some ''./configure CC=\"$CC\" CFLAGS=\"$CFLAGS\" --disable-nls --enable-no-install-program=stdbuf && make -j\"$JOBS\"'',
     pj_artifact = Some ''src/wc'',
     pj_run = Some ''for i in $(seq 1 \"$LOOPS\"); do \"$APP\" \"$BENCH/input.txt\" >/dev/null; \"$BUILD/src/sort\" \"$BENCH/input.txt\" >/dev/null; done''\<rparr>),
    (''findutils'', \<lparr>pj_archive = Some ''https://ftp.gnu.org/gnu/findutils/findutils-4.10.0.tar.xz'', pj_repo = None, pj_ref = None, pj_submodules = False,
     pj_build = Some ''./configure CC=\"$CC\" CFLAGS=\"$CFLAGS\" --disable-nls && make -j\"$JOBS\"'',
     pj_artifact = Some ''find/find'',
     pj_run = Some ''for i in $(seq 1 \"$LOOPS\"); do \"$APP\" \"$BENCH/tree\" -type f -name \"*.txt\" -print >/dev/null; done''\<rparr>),
    (''diffutils'', \<lparr>pj_archive = Some ''https://ftp.gnu.org/gnu/diffutils/diffutils-3.10.tar.xz'', pj_repo = None, pj_ref = None, pj_submodules = False,
     pj_build = Some ''./configure CC=\"$CC\" CFLAGS=\"$CFLAGS\" --disable-nls && make -j\"$JOBS\"'',
     pj_artifact = Some ''src/diff'',
     pj_run = Some ''for i in $(seq 1 \"$LOOPS\"); do \"$APP\" \"$BENCH/input.txt\" \"$BENCH/input2.txt\" >/dev/null || true; done''\<rparr>)]"

definition projects_3 :: "(string, project) dict" where
  "projects_3 =
   [(''tar'', \<lparr>pj_archive = Some ''https://ftp.gnu.org/gnu/tar/tar-1.35.tar.xz'', pj_repo = None, pj_ref = None, pj_submodules = False,
     pj_build = Some ''./configure CC=\"$CC\" CFLAGS=\"$CFLAGS\" --disable-nls && make -j\"$JOBS\"'',
     pj_artifact = Some ''src/tar'',
     pj_run = Some ''for i in $(seq 1 \"$LOOPS\"); do rm -f \"$BENCH/archive.tar\"; \"$APP\" -cf \"$BENCH/archive.tar\" -C \"$BENCH/tree\" .; \"$APP\" -tf \"$BENCH/archive.tar\" >/dev/null; done''\<rparr>),
    (''m4'', \<lparr>pj_archive = Some ''https://ftp.gnu.org/gnu/m4/m4-1.4.19.tar.xz'', pj_repo = None, pj_ref = None, pj_submodules = False,
     pj_build = Some ''./configure CC=\"$CC\" CFLAGS=\"$CFLAGS\" --disable-nls && make -j\"$JOBS\"'',
     pj_artifact = Some ''src/m4'',
     pj_run = Some ''for i in $(seq 1 \"$LOOPS\"); do \"$APP\" \"$BENCH/input.m4\" >/dev/null; done''\<rparr>),
    (''make'', \<lparr>pj_archive = Some ''https://ftp.gnu.org/gnu/make/make-4.4.1.tar.gz'', pj_repo = None, pj_ref = None, pj_submodules = False,
     pj_build = Some ''./configure CC=\"$CC\" CFLAGS=\"$CFLAGS\" --disable-nls && make -j\"$JOBS\"'',
     pj_artifact = Some ''make'',
     pj_run = Some ''for i in $(seq 1 \"$LOOPS\"); do \"$APP\" -f \"$BENCH/Makefile.small\" -n >/dev/null; done''\<rparr>),
    (''busybox'', \<lparr>pj_archive = None, pj_repo = Some ''https://github.com/mirror/busybox.git'', pj_ref = Some ''1_36_1'', pj_submodules = False,
     pj_build = Some ''make defconfig && sed -i -e \"s/^CONFIG_TC=y/# CONFIG_TC is not set/\" -e \"s/^CONFIG_FEATURE_TC_INGRESS=y/# CONFIG_FEATURE_TC_INGRESS is not set/\" .config && yes \"\" | make oldconfig && make -j\"$JOBS\" CC=\"$CC\" CFLAGS=\"$CFLAGS\" busybox'',
     pj_artifact = Some ''busybox'',
     pj_run = Some ''for i in $(seq 1 \"$LOOPS\"); do \"$APP\" wc \"$BENCH/input.txt\" >/dev/null; \"$APP\" grep needle \"$BENCH/input.txt\" >/dev/null; done''\<rparr>),
    (''file'', \<lparr>pj_archive = Some ''https://astron.com/pub/file/file-5.45.tar.gz'', pj_repo = None, pj_ref = None, pj_submodules = False,
     pj_build = Some ''./configure CC=\"$CC\" CFLAGS=\"$CFLAGS\" --disable-shared --enable-static --disable-libseccomp && make -j\"$JOBS\"'',
     pj_artifact = Some ''src/file'',
     pj_run = Some ''for i in $(seq 1 \"$LOOPS\"); do \"$APP\" \"$BENCH/input.txt\" \"$BENCH/input.ppm\" >/dev/null; done''\<rparr>),
    (''curl'', \<lparr>pj_archive = Some ''https://curl.se/download/curl-8.8.0.tar.xz'', pj_repo = None, pj_ref = None, pj_submodules = False,
     pj_build = Some ''./configure CC=\"$CC\" CFLAGS=\"$CFLAGS\" --disable-shared --enable-static --without-ssl --without-zlib --without-brotli --without-zstd --without-libpsl --disable-ldap --disable-ldaps --disable-rtsp --disable-dict --disable-telnet --disable-tftp --disable-pop3 --disable-imap --disable-smtp --disable-gopher --disable-mqtt --disable-manual && make -j\"$JOBS\"'',
     pj_artifact = Some ''src/curl'',
     pj_run = Some ''for i in $(seq 1 \"$LOOPS\"); do \"$APP\" --version >/dev/null; \"$APP\" file://\"$BENCH/input.txt\" >/dev/null; done''\<rparr>),
    (''wget'', \<lparr>pj_archive = Some ''https://ftp.gnu.org/gnu/wget/wget-1.24.5.tar.gz'', pj_repo = None, pj_ref = None, pj_submodules = False,
     pj_build = Some ''./configure CC=\"$CC\" CFLAGS=\"$CFLAGS\" --disable-nls --without-ssl --disable-iri --disable-pcre --disable-ntlm --disable-opie --disable-digest && make -j\"$JOBS\"'',
     pj_artifact = Some ''src/wget'',
     pj_run = Some ''for i in $(seq 1 \"$LOOPS\"); do \"$APP\" --version >/dev/null; done''\<rparr>),
    (''nginx'', \<lparr>pj_archive = Some ''http://nginx.org/download/nginx-1.26.1.tar.gz'', pj_repo = None, pj_ref = None, pj_submodules = False,
     pj_build = Some ''./configure --with-cc=\"$CC\" --with-cc-opt=\"$CFLAGS\" --without-http_rewrite_module --without-http_gzip_module --without-pcre --without-mail_pop3_module --without-mail_imap_module --without-mail_smtp_module && make -j\"$JOBS\"'',
     pj_artifact = Some ''objs/nginx'',
     pj_run = Some ''for i in $(seq 1 \"$LOOPS\"); do \"$APP\" -v >/dev/null 2>&1; done''\<rparr>),
    (''redis'', \<lparr>pj_archive = None, pj_repo = Some ''https://github.com/redis/redis.git'', pj_ref = Some ''7.2.5'', pj_submodules = False,
     pj_build = Some ''make -j1 CC=\"$CC\" CFLAGS=\"$CFLAGS\" OPTIMIZATION=\"-O0\" MALLOC=libc BUILD_TLS=no redis-server redis-cli'',
     pj_artifact = Some ''src/redis-server'',
     pj_run = Some ''for i in $(seq 1 \"$LOOPS\"); do \"$APP\" --version >/dev/null; \"$BUILD/src/redis-cli\" --version >/dev/null; done''\<rparr>),
    (''c-ares'', \<lparr>pj_archive = None, pj_repo = Some ''https://github.com/c-ares/c-ares.git'', pj_ref = Some ''v1.29.0'', pj_submodules = False,
     pj_build = Some ''cmake -S . -B build -G Ninja -DCMAKE_C_COMPILER=\"$CC\" -DCMAKE_C_FLAGS=\"$CFLAGS\" -DCARES_SHARED=OFF -DCARES_STATIC=ON -DCARES_BUILD_TESTS=OFF -DCARES_BUILD_TOOLS=ON && cmake --build build -j\"$JOBS\"'',
     pj_artifact = Some ''build/bin/adig'',
     pj_run = Some ''for i in $(seq 1 \"$LOOPS\"); do \"$APP\" -h >/dev/null 2>&1 || true; done''\<rparr>),
    (''nghttp2'', \<lparr>pj_archive = Some ''https://github.com/nghttp2/nghttp2/releases/download/v1.62.1/nghttp2-1.62.1.tar.xz'', pj_repo = None, pj_ref = None, pj_submodules = False,
     pj_build = Some ''./configure CC=\"$CC\" CFLAGS=\"$CFLAGS\" --disable-shared --enable-static --disable-threads --disable-python-bindings --disable-examples --disable-hpack-tools --without-libxml2 --without-jemalloc --without-zlib --without-systemd --without-cunit && make -j\"$JOBS\"'',
     pj_artifact = Some ''src/nghttp'',
     pj_run = Some ''for i in $(seq 1 \"$LOOPS\"); do \"$APP\" --version >/dev/null; done''\<rparr>),
    (''libpng'', \<lparr>pj_archive = Some ''https://download.sourceforge.net/libpng/libpng-1.6.43.tar.xz'', pj_repo = None, pj_ref = None, pj_submodules = False,
     pj_build = Some ''./configure CC=\"$CC\" CFLAGS=\"$CFLAGS\" --disable-shared --enable-static && make -j\"$JOBS\" pngfix'',
     pj_artifact = Some ''pngfix'',
     pj_run = Some ''for i in $(seq 1 \"$LOOPS\"); do \"$APP\" \"$BENCH/input.png\" >/dev/null 2>&1 || true; done''\<rparr>)]"

definition projects_4 :: "(string, project) dict" where
  "projects_4 =
   [(''libjpeg-turbo'', \<lparr>pj_archive = Some ''https://github.com/libjpeg-turbo/libjpeg-turbo/archive/refs/tags/3.0.3.tar.gz'', pj_repo = None, pj_ref = None, pj_submodules = False,
     pj_build = Some ''cmake -S . -B build -G Ninja -DCMAKE_C_COMPILER=\"$CC\" -DCMAKE_CXX_COMPILER=\"$CXX\" -DCMAKE_C_FLAGS=\"$CFLAGS\" -DCMAKE_CXX_FLAGS=\"$CXXFLAGS\" -DENABLE_SHARED=OFF -DWITH_SIMD=OFF -DWITH_TURBOJPEG=OFF && cmake --build build --target cjpeg-static djpeg-static -j\"$JOBS\"'',
     pj_artifact = Some ''build/cjpeg-static'',
     pj_run = Some ''for i in $(seq 1 \"$LOOPS\"); do \"$APP\" \"$BENCH/input.ppm\" >\"$BENCH/input.jpg\"; \"$BUILD/build/djpeg-static\" \"$BENCH/input.jpg\" >/dev/null; rm -f \"$BENCH/input.jpg\"; done''\<rparr>),
    (''giflib'', \<lparr>pj_archive = None, pj_repo = Some ''https://github.com/mirrorer/giflib.git'', pj_ref = Some '''', pj_submodules = False,
     pj_build = Some ''autoreconf -fi && ./configure CC=\"$CC\" CFLAGS=\"$CFLAGS\" --disable-shared --enable-static && make -j\"$JOBS\"'',
     pj_artifact = Some ''util/gifbuild'',
     pj_run = Some ''for i in $(seq 1 \"$LOOPS\"); do \"$APP\" -d \"$BENCH/input.gif\" >\"$BENCH/out.gif\" 2>/dev/null || true; \"$BUILD/util/giftext\" \"$BENCH/input.gif\" >/dev/null 2>&1 || true; rm -f \"$BENCH/out.gif\"; done''\<rparr>),
    (''libwebp'', \<lparr>pj_archive = Some ''https://github.com/webmproject/libwebp/archive/refs/tags/v1.4.0.tar.gz'', pj_repo = None, pj_ref = None, pj_submodules = False,
     pj_build = Some ''cmake -S . -B build -G Ninja -DCMAKE_C_COMPILER=\"$CC\" -DCMAKE_CXX_COMPILER=\"$CXX\" -DCMAKE_C_FLAGS=\"$CFLAGS\" -DCMAKE_CXX_FLAGS=\"$CXXFLAGS\" -DWEBP_BUILD_CWEBP=ON -DWEBP_BUILD_DWEBP=ON -DWEBP_BUILD_GIF2WEBP=OFF -DWEBP_BUILD_IMG2WEBP=OFF -DWEBP_BUILD_VWEBP=OFF -DWEBP_BUILD_WEBPINFO=ON -DWEBP_BUILD_WEBPMUX=ON && cmake --build build --target cwebp dwebp -j\"$JOBS\"'',
     pj_artifact = Some ''build/cwebp'',
     pj_run = Some ''for i in $(seq 1 \"$LOOPS\"); do \"$APP\" -quiet \"$BENCH/input.ppm\" -o \"$BENCH/input.webp\"; \"$BUILD/build/dwebp\" \"$BENCH/input.webp\" -o \"$BENCH/out.ppm\" >/dev/null; rm -f \"$BENCH/input.webp\" \"$BENCH/out.ppm\"; done''\<rparr>),
    (''libtiff'', \<lparr>pj_archive = Some ''https://download.osgeo.org/libtiff/tiff-4.6.0.tar.xz'', pj_repo = None, pj_ref = None, pj_submodules = False,
     pj_build = Some ''cmake -S . -B build -G Ninja -DCMAKE_C_COMPILER=\"$CC\" -DCMAKE_CXX_COMPILER=\"$CXX\" -DCMAKE_C_FLAGS=\"$CFLAGS\" -DCMAKE_CXX_FLAGS=\"$CXXFLAGS\" -DBUILD_SHARED_LIBS=OFF -Dtiff-tools=ON -Dtiff-tests=OFF -Dtiff-contrib=OFF -Djbig=OFF -Djpeg=OFF -Dlerc=OFF -Dlibdeflate=OFF -Dlzma=OFF -Dwebp=OFF -Dzstd=OFF && cmake --build build --target tiffinfo -j\"$JOBS\"'',
     pj_artifact = Some ''build/tools/tiffinfo'',
     pj_run = Some ''for i in $(seq 1 \"$LOOPS\"); do \"$APP\" --version >/dev/null 2>&1 || true; done''\<rparr>),
    (''flac'', \<lparr>pj_archive = Some ''https://github.com/xiph/flac/archive/refs/tags/1.4.3.tar.gz'', pj_repo = None, pj_ref = None, pj_submodules = False,
     pj_build = Some ''cmake -S . -B build -G Ninja -DCMAKE_C_COMPILER=\"$CC\" -DCMAKE_CXX_COMPILER=\"$CXX\" -DCMAKE_C_FLAGS=\"$CFLAGS\" -DCMAKE_CXX_FLAGS=\"$CXXFLAGS\" -DBUILD_CXXLIBS=OFF -DBUILD_EXAMPLES=OFF -DBUILD_PROGRAMS=ON -DBUILD_TESTING=OFF -DBUILD_SHARED_LIBS=OFF -DINSTALL_MANPAGES=OFF -DWITH_OGG=OFF && cmake --build build --target flac -j\"$JOBS\"'',
     pj_artifact = Some ''build/src/flac/flac'',
     pj_run = Some ''for i in $(seq 1 \"$LOOPS\"); do \"$APP\" --version >/dev/null; done''\<rparr>),
    (''x264'', \<lparr>pj_archive = None, pj_repo = Some ''https://code.videolan.org/videolan/x264.git'', pj_ref = Some ''stable'', pj_submodules = False,
     pj_build = Some ''./configure --cc=\"$CC\" --disable-asm --enable-static --disable-opencl && make -j\"$JOBS\" x264'',
     pj_artifact = Some ''x264'',
     pj_run = Some ''for i in $(seq 1 \"$LOOPS\"); do \"$APP\" --version >/dev/null 2>&1; done''\<rparr>),
    (''libvpx'', \<lparr>pj_archive = Some ''https://github.com/webmproject/libvpx/archive/refs/tags/v1.14.1.tar.gz'', pj_repo = None, pj_ref = None, pj_submodules = False,
     pj_build = Some ''CC=\"$CC\" CXX=\"$CXX\" ./configure --disable-examples --disable-unit-tests --disable-docs --disable-install-docs --disable-optimizations --disable-vp9-highbitdepth --target=generic-gnu && make -j\"$JOBS\" libvpx.a'',
     pj_artifact = Some ''libvpx.a'',
     pj_run = Some ''for i in $(seq 1 \"$LOOPS\"); do test -f \"$APP\"; done''\<rparr>),
    (''libxml2'', \<lparr>pj_archive = Some ''https://download.gnome.org/sources/libxml2/2.12/libxml2-2.12.7.tar.xz'', pj_repo = None, pj_ref = None, pj_submodules = False,
     pj_build = Some ''./configure CC=\"$CC\" CFLAGS=\"$CFLAGS\" --disable-shared --enable-static --without-python --without-lzma --without-zlib --without-iconv && make -j\"$JOBS\" xmllint'',
     pj_artifact = Some ''xmllint'',
     pj_run = Some ''for i in $(seq 1 \"$LOOPS\"); do \"$APP\" --noout \"$BENCH/input.xml\" >/dev/null; done''\<rparr>),
    (''expat'', \<lparr>pj_archive = Some ''https://github.com/libexpat/libexpat/releases/download/R_2_6_2/expat-2.6.2.tar.xz'', pj_repo = None, pj_ref = None, pj_submodules = False,
     pj_build = Some ''cmake -S . -B build -G Ninja -DCMAKE_C_COMPILER=\"$CC\" -DCMAKE_C_FLAGS=\"$CFLAGS\" -DEXPAT_SHARED_LIBS=OFF -DEXPAT_BUILD_TESTS=OFF -DEXPAT_BUILD_TOOLS=ON -DEXPAT_BUILD_EXAMPLES=OFF && cmake --build build --target xmlwf -j\"$JOBS\"'',
     pj_artifact = Some ''build/xmlwf/xmlwf'',
     pj_run = Some ''for i in $(seq 1 \"$LOOPS\"); do \"$APP\" \"$BENCH/input.xml\" >/dev/null; done''\<rparr>),
    (''pcre2'', \<lparr>pj_archive = Some ''https://github.com/PCRE2Project/pcre2/releases/download/pcre2-10.43/pcre2-10.43.tar.gz'', pj_repo = None, pj_ref = None, pj_submodules = False,
     pj_build = Some ''./configure CC=\"$CC\" CFLAGS=\"$CFLAGS\" --disable-shared --enable-static --disable-jit && make -j\"$JOBS\" pcre2grep'',
     pj_artifact = Some ''pcre2grep'',
     pj_run = Some ''for i in $(seq 1 \"$LOOPS\"); do \"$APP\" \"needle|value\" \"$BENCH/input.txt\" >/dev/null; done''\<rparr>),
    (''tree-sitter'', \<lparr>pj_archive = None, pj_repo = Some ''https://github.com/tree-sitter/tree-sitter.git'', pj_ref = Some ''v0.22.6'', pj_submodules = False,
     pj_build = Some ''make -j\"$JOBS\" CC=\"$CC\" CFLAGS=\"$CFLAGS\" libtree-sitter.a'',
     pj_artifact = Some ''libtree-sitter.a'',
     pj_run = Some ''for i in $(seq 1 \"$LOOPS\"); do test -f \"$APP\"; done''\<rparr>),
    (''capstone'', \<lparr>pj_archive = None, pj_repo = Some ''https://github.com/capstone-engine/capstone.git'', pj_ref = Some ''5.0.1'', pj_submodules = False,
     pj_build = Some ''cmake -S . -B build -G Ninja -DCMAKE_C_COMPILER=\"$CC\" -DCMAKE_CXX_COMPILER=\"$CXX\" -DCMAKE_C_FLAGS=\"$CFLAGS\" -DCMAKE_CXX_FLAGS=\"$CXXFLAGS\" -DCAPSTONE_BUILD_SHARED=OFF -DCAPSTONE_BUILD_CSTOOL=ON -DCAPSTONE_BUILD_TESTS=OFF && cmake --build build --target cstool -j\"$JOBS\"'',
     pj_artifact = Some ''build/cstool'',
     pj_run = Some ''for i in $(seq 1 \"$LOOPS\"); do \"$APP\" x64 \"55 48 8b 05 b8 13 00 00\" >/dev/null; done''\<rparr>)]"

definition projects_5 :: "(string, project) dict" where
  "projects_5 =
   [(''wabt'', \<lparr>pj_archive = None, pj_repo = Some ''https://github.com/WebAssembly/wabt.git'', pj_ref = Some ''1.0.34'', pj_submodules = True,
     pj_build = Some ''cmake -S . -B build -G Ninja -DCMAKE_C_COMPILER=\"$CC\" -DCMAKE_CXX_COMPILER=\"$CXX\" -DCMAKE_C_FLAGS=\"$CFLAGS\" -DCMAKE_CXX_FLAGS=\"$CXXFLAGS\" -DBUILD_TESTS=OFF && cmake --build build --target wasm-objdump -j\"$JOBS\"'',
     pj_artifact = Some ''build/wasm-objdump'',
     pj_run = Some ''for i in $(seq 1 \"$LOOPS\"); do \"$APP\" --version >/dev/null; done''\<rparr>),
    (''libarchive'', \<lparr>pj_archive = Some ''https://github.com/libarchive/libarchive/releases/download/v3.7.4/libarchive-3.7.4.tar.xz'', pj_repo = None, pj_ref = None, pj_submodules = False,
     pj_build = Some ''./configure CC=\"$CC\" CFLAGS=\"$CFLAGS\" --disable-shared --enable-static --without-bz2lib --without-iconv --without-lz4 --without-lzma --without-lzo2 --without-nettle --without-openssl --without-xml2 --without-zlib --without-zstd && make -j\"$JOBS\"'',
     pj_artifact = Some ''bsdtar'',
     pj_run = Some ''for i in $(seq 1 \"$LOOPS\"); do rm -f \"$BENCH/bsd.tar\"; \"$APP\" -cf \"$BENCH/bsd.tar\" -C \"$BENCH/tree\" .; \"$APP\" -tf \"$BENCH/bsd.tar\" >/dev/null; done''\<rparr>),
    (''json-c'', \<lparr>pj_archive = Some ''https://github.com/json-c/json-c/archive/refs/tags/json-c-0.17-20230812.tar.gz'', pj_repo = None, pj_ref = None, pj_submodules = False,
     pj_build = Some ''cmake -S . -B build -G Ninja -DCMAKE_C_COMPILER=\"$CC\" -DCMAKE_C_FLAGS=\"$CFLAGS\" -DBUILD_SHARED_LIBS=OFF -DBUILD_TESTING=OFF && cmake --build build -j\"$JOBS\"'',
     pj_artifact = Some ''build/libjson-c.a'',
     pj_run = Some ''for i in $(seq 1 \"$LOOPS\"); do test -f \"$APP\"; done''\<rparr>),
    (''cjson'', \<lparr>pj_archive = Some ''https://github.com/DaveGamble/cJSON/archive/refs/tags/v1.7.18.tar.gz'', pj_repo = None, pj_ref = None, pj_submodules = False,
     pj_build = Some ''cmake -S . -B build -G Ninja -DCMAKE_C_COMPILER=\"$CC\" -DCMAKE_C_FLAGS=\"$CFLAGS\" -DBUILD_SHARED_LIBS=OFF -DENABLE_CJSON_TEST=ON -DENABLE_CJSON_UTILS=ON && cmake --build build -j\"$JOBS\"'',
     pj_artifact = Some ''build/libcjson.a'',
     pj_run = Some ''for i in $(seq 1 \"$LOOPS\"); do test -f \"$APP\"; done''\<rparr>)]"

definition PROJECTS :: "(string, project) dict" where
  "PROJECTS = projects_1 @ projects_2 @ projects_3 @ projects_4 @ projects_5"

section \<open>Projects of the ASAN-- comparison\<close>

definition DEFAULT_PROJECTS :: "string list" where
  "DEFAULT_PROJECTS = [''bzip2'', ''capstone'', ''coreutils'', ''curl'', ''duktape'', ''flac'', ''grep'', ''gzip'', ''imagemagick'', ''libpng'', ''libvpx'', ''lz4'', ''make'', ''openssl'', ''redis'', ''tar'', ''xz'', ''zlib'', ''zopfli'', ''zstd'']"

definition asanmm_bzip2_build :: string where
  "asanmm_bzip2_build = ''make -j\"$JOBS\" CC=\"$CC\" CFLAGS=\"$CFLAGS\" LDFLAGS=\"-no-pie\" bzip2''"

definition asanmm_coreutils_build :: string where
  "asanmm_coreutils_build = ''./configure CC=\"$CC\" CFLAGS=\"$CFLAGS\" --disable-nls --enable-no-install-program=stdbuf && gen_headers=\"$(awk -F: '' @ [CHR 0x27] @ ''/^lib'' @ [CHR 0x5C] @ ''/.*'' @ [CHR 0x5C] @ ''.h:/{print $1}'' @ [CHR 0x27] @ '' Makefile | sort -u)\" && make $gen_headers src/version.h && sed -i '' @ [CHR 0x27] @ ''/#include <string.h>/a #include \"setlocale_null.h\"'' @ [CHR 0x27] @ '' lib/hard-locale.c && make -j\"$JOBS\" src/wc src/sort''"

definition asanmm_libvpx_build :: string where
  "asanmm_libvpx_build = ''LDFLAGS= CC=\"$CC\" CXX=\"$CXX\" ./configure --disable-examples --disable-unit-tests --disable-docs --disable-install-docs --disable-optimizations --disable-vp9-highbitdepth --target=generic-gnu && LDFLAGS= make -j\"$JOBS\" libvpx.a''"

definition asanmm_zstd_build :: string where
  "asanmm_zstd_build = ''make -j\"$JOBS\" CC=\"$CC\" CFLAGS=\"$CFLAGS\" ZSTD_NO_ASM=1 zstd''"

definition asanmm_openssl :: project where
  "asanmm_openssl = \<lparr>pj_archive = None, pj_repo = Some ''https://github.com/openssl/openssl.git'', pj_ref = Some ''openssl-3.3.2'', pj_submodules = False,
     pj_build = Some ''CC=\"$CC\" ./Configure linux-x86_64 no-shared no-module no-tests no-asm -O0 -g -fno-omit-frame-pointer && make -j\"$JOBS\" build_sw'',
     pj_artifact = Some ''apps/openssl'',
     pj_run = Some ''for i in $(seq 1 \"$LOOPS\"); do \"$APP\" dgst -sha256 \"$BENCH/input.txt\" >/dev/null; \"$APP\" enc -aes-256-cbc -nosalt -K 000102030405060708090a0b0c0d0e0f101112131415161718191a1b1c1d1e1f -iv 000102030405060708090a0b0c0d0e0f -in \"$BENCH/input.txt\" -out \"$BENCH/out.enc\" >/dev/null; rm -f \"$BENCH/out.enc\"; done''\<rparr>"

text \<open>\<open>{**PROJECTS[name], "build": command}\<close>; a missing name would raise when the module loads.\<close>

definition with_build :: "string \<Rightarrow> string \<Rightarrow> (string, project) dict \<Rightarrow> (string, project) dict res" where
  "with_build name command ps = (case map_of ps name of
      None \<Rightarrow> Inl KeyError
    | Some p \<Rightarrow> Inr (dset name (p\<lparr>pj_build := Some command\<rparr>) ps))"

definition ASANMM_PROJECTS :: "(string, project) dict res" where
  "ASANMM_PROJECTS =
     bindE (with_build ''bzip2'' asanmm_bzip2_build PROJECTS) (\<lambda>ps.
     bindE (with_build ''coreutils'' asanmm_coreutils_build ps) (\<lambda>ps.
     bindE (with_build ''libvpx'' asanmm_libvpx_build ps) (\<lambda>ps.
     bindE (with_build ''zstd'' asanmm_zstd_build ps) (\<lambda>ps.
     Inr (dset ''openssl'' asanmm_openssl ps)))))"

end
