(* ===== verification/BatchRunner.thy ===== *)
theory BatchRunner
  imports Host Registry PyPath
begin

text \<open>
  \<open>scripts/run_oss_batch_after_read_check_elimination.py\<close>: for every project and sanitizer it
  fetches the source, builds three variants (plain, sanitizer alone, sanitizer with the DESAN
  pass), runs each of them several times, starts the summary script and appends one row to the
  status file. A job that fails is reported in its row and the batch goes on.
\<close>

section \<open>Paths\<close>

definition ROOT :: string where
  "ROOT = ''/home/dragon/DESAN''"

definition BENCHMARKS :: string where
  "BENCHMARKS = path_div ROOT ''benchmarks''"

definition OUT_BASE :: string where
  "OUT_BASE = path_div ROOT ''out''"

definition CC_WRAPPER :: string where
  "CC_WRAPPER = path_div (path_div ROOT ''scripts'') ''spec_desan_cc.sh''"

definition CXX_WRAPPER :: string where
  "CXX_WRAPPER = path_div (path_div ROOT ''scripts'') ''spec_desan_cxx.sh''"

section \<open>Arguments\<close>

record batch_args =
  ba_projects :: string
  ba_sanitizers :: string
  ba_runs :: int
  ba_loops :: int
  ba_jobs :: int
  ba_build_timeout :: int
  ba_run_timeout :: int

text \<open>The defaults; a variable that is no number makes the script fail before anything else.\<close>

definition env_int :: "environ \<Rightarrow> string \<Rightarrow> string \<Rightarrow> int res" where
  "env_int env name d = py_int (dget env name d)"

definition default_args :: "environ \<Rightarrow> batch_args res" where
  "default_args env =
     bindE (env_int env ''RUNS'' ''3'') (\<lambda>runs.
     bindE (env_int env ''OSS_WORKLOAD_LOOPS'' ''3'') (\<lambda>loops.
     bindE (env_int env ''JOBS'' ''2'') (\<lambda>jobs.
     bindE (env_int env ''OSS_BUILD_TIMEOUT'' ''7200'') (\<lambda>build_timeout.
     bindE (env_int env ''OSS_RUN_TIMEOUT'' ''300'') (\<lambda>run_timeout.
     Inr \<lparr>ba_projects = '''', ba_sanitizers = ''asan,ubsan,msan'', ba_runs = runs, ba_loops = loops,
          ba_jobs = jobs, ba_build_timeout = build_timeout, ba_run_timeout = run_timeout\<rparr>)))))"

section \<open>Shell commands\<close>

definition bash :: "string \<Rightarrow> string \<Rightarrow> environ option \<Rightarrow> string \<Rightarrow> int \<Rightarrow> proc" where
  "bash cmd cwd env logf timeout =
     \<lparr>pr_argv = [''bash'', ''-lc'', cmd], pr_cwd = cwd, pr_env = env, pr_timeout = Some timeout, pr_out = logf\<rparr>"

definition sh :: "string \<Rightarrow> string \<Rightarrow> environ option \<Rightarrow> string \<Rightarrow> int \<Rightarrow> int act" where
  "sh cmd cwd env logf timeout =
     thenA (appendA logf (''$ '' @ cmd @ [NL])) (procA (bash cmd cwd env logf timeout))"

definition quoted :: "string \<Rightarrow> string" where
  "quoted s = [QUOTE] @ s @ [QUOTE]"

section \<open>Sources\<close>

text \<open>\<open>"".join(Path(url).suffixes)\<close>\<close>

definition path_suffixes :: "string \<Rightarrow> string" where
  "path_suffixes p = (let name = path_name p in
     if endswith name ''.'' then ''''
     else dropWhile (\<lambda>c. c \<noteq> CHR ''.'') (dropWhile (\<lambda>c. c = CHR ''.'') name))"

definition archive_suffix :: "string \<Rightarrow> string" where
  "archive_suffix url = (if path_suffixes url = '''' then ''.tar.gz'' else path_suffixes url)"

definition source_dir :: "string \<Rightarrow> string" where
  "source_dir name = path_div BENCHMARKS (name @ ''-src'')"

definition extract_dir :: "string \<Rightarrow> string" where
  "extract_dir name = path_div BENCHMARKS (''.'' @ name @ ''-extract'')"

definition archive_dir :: string where
  "archive_dir = path_div BENCHMARKS ''archives''"

definition archive_file :: "string \<Rightarrow> string \<Rightarrow> string" where
  "archive_file name url = path_div archive_dir (name @ archive_suffix url)"

definition download_cmd :: "string \<Rightarrow> string \<Rightarrow> string" where
  "download_cmd name url = ''curl -L --retry 3 -o '' @ quoted (archive_file name url) @ '' '' @ quoted url"

definition extract_cmd :: "string \<Rightarrow> string \<Rightarrow> string" where
  "extract_cmd name url = ''tar -xf '' @ quoted (archive_file name url) @ '' -C '' @ quoted (extract_dir name)"

definition failing :: "int \<Rightarrow> string \<Rightarrow> unit act" where
  "failing rc msg = (if rc \<noteq> 0 then raiseA (RuntimeErr msg) else returnA ())"

text \<open>The extracted tree becomes the source directory: its only directory, or all of it.\<close>

definition adopt :: "string \<Rightarrow> string \<Rightarrow> unit act" where
  "adopt tmp_dir src_dir =
     thenA (osA (\<lambda>fs. if map_of fs tmp_dir = Some Dir then Inr fs
        else Inl (os_error 2 ''No such file or directory'' tmp_dir)))
       (bindA (getA (\<lambda>h w. (children (w_fs w) tmp_dir, w_fs w))) (\<lambda>(names, fs).
        case names of
          [c] \<Rightarrow> if map_of fs c = Some Dir then thenA (osA (fs_rename c src_dir)) (rmtreeA tmp_dir)
                 else osA (fs_rename tmp_dir src_dir)
        | _ \<Rightarrow> osA (fs_rename tmp_dir src_dir)))"

definition prepare_archive :: "string \<Rightarrow> string \<Rightarrow> string \<Rightarrow> string act" where
  "prepare_archive name url logf =
     (let archive_path = archive_file name url; src_dir = source_dir name; tmp_dir = extract_dir name in
      thenA (mkdirA True BENCHMARKS)
     (thenA (mkdirA True archive_dir)
     (thenA (bindA (existsA archive_path) (\<lambda>there. whenA (\<not> there)
        (bindA (sh (download_cmd name url) ROOT None logf 1800)
          (\<lambda>rc. failing rc (''download failed for '' @ name)))))
     (thenA (removeA src_dir)
     (thenA (removeA tmp_dir)
     (thenA (mkdirA False tmp_dir)
     (thenA (bindA (sh (extract_cmd name url) ROOT None logf 1800)
        (\<lambda>rc. failing rc (''extract failed for '' @ name)))
     (thenA (adopt tmp_dir src_dir)
     (returnA src_dir)))))))))"

definition clone_cmd :: "string \<Rightarrow> string \<Rightarrow> string" where
  "clone_cmd repo src_dir = ''git clone --depth 1 '' @ quoted repo @ '' '' @ quoted src_dir"

definition clone_ref_cmd :: "string \<Rightarrow> string \<Rightarrow> string \<Rightarrow> string" where
  "clone_ref_cmd ref repo src_dir =
     ''git clone --depth 1 --branch '' @ quoted ref @ '' '' @ quoted repo @ '' '' @ quoted src_dir"

definition git :: "string \<Rightarrow> string \<Rightarrow> string" where
  "git src_dir cmd = ''git -C '' @ quoted src_dir @ '' '' @ cmd"

definition runs_sh :: "string \<Rightarrow> string \<Rightarrow> int \<Rightarrow> unit act" where
  "runs_sh cmd logf timeout = bindA (sh cmd ROOT None logf timeout) (\<lambda>_. returnA ())"

definition prepare_git :: "string \<Rightarrow> string \<Rightarrow> string \<Rightarrow> string \<Rightarrow> string act" where
  "prepare_git name repo ref logf =
     (let src_dir = source_dir name in
      thenA (mkdirA True BENCHMARKS)
     (thenA (bindA (existsA (path_div src_dir ''.git'')) (\<lambda>there.
        if \<not> there then
          thenA (removeA src_dir)
         (bindA (sh (clone_ref_cmd ref repo src_dir) ROOT None logf 1800) (\<lambda>rc.
            whenA (rc \<noteq> 0)
             (thenA (removeA src_dir)
             (bindA (sh (clone_cmd repo src_dir) ROOT None logf 1800)
                (\<lambda>rc. failing rc (''git clone failed for '' @ name))))))
        else
          thenA (whenA (ref \<noteq> '''')
            (thenA (runs_sh (git src_dir (''fetch --depth 1 origin '' @ quoted ref)) logf 1800)
                   (runs_sh (git src_dir ''checkout -f FETCH_HEAD'' @ '' || '' @
                      git src_dir (''checkout -f '' @ quoted ref)) logf 300)))
         (runs_sh (git src_dir ''clean -fdx'') logf 600)))
     (returnA src_dir)))"

definition keyA :: "string \<Rightarrow> 'a option \<Rightarrow> 'a act" where
  "keyA k v = (case v of None \<Rightarrow> raiseA (KeyErr k) | Some x \<Rightarrow> returnA x)"

definition prepare_source :: "string \<Rightarrow> project \<Rightarrow> string \<Rightarrow> string act" where
  "prepare_source name project logf = (case pj_archive project of
      Some url \<Rightarrow> prepare_archive name url logf
    | None \<Rightarrow>
        bindA (keyA ''repo'' (pj_repo project)) (\<lambda>repo.
        bindA (prepare_git name repo (case pj_ref project of None \<Rightarrow> '''' | Some r \<Rightarrow> r) logf) (\<lambda>src_dir.
        thenA (whenA (pj_submodules project)
          (bindA (sh (git src_dir ''submodule update --init --recursive --depth 1'') ROOT None logf 1800)
            (\<lambda>rc. failing rc (''git submodule update failed for '' @ name))))
        (returnA src_dir))))"

text \<open>The names \<open>shutil.ignore_patterns\<close> leaves out.\<close>

definition left_out :: "string \<Rightarrow> bool" where
  "left_out name \<longleftrightarrow> name \<in> set [''.git'', ''__pycache__'', ''CMakeFiles''] \<or> startswith name ''.ninja''"

definition copy_source :: "string \<Rightarrow> string \<Rightarrow> unit act" where
  "copy_source src_dir build_dir = thenA (removeA build_dir) (osA (fs_copytree left_out src_dir build_dir))"

section \<open>Inputs of the runs\<close>

definition zero_pad :: "nat \<Rightarrow> int \<Rightarrow> string" where
  "zero_pad n i = (let s = show_int i in replicate (n - length s) (CHR ''0'') @ s)"

definition upto_int :: "int \<Rightarrow> int list" where
  "upto_int n = map int [0..<nat n]"

text \<open>\<open>s.replace(old, new, count)\<close> for a non-empty \<open>old\<close>.\<close>

function replace_first :: "nat \<Rightarrow> string \<Rightarrow> string \<Rightarrow> string \<Rightarrow> string" where
  "replace_first n old new s =
     (if n = 0 \<or> old = [] \<or> s = [] then s
      else if startswith s old then new @ replace_first (n - 1) old new (drop (length old) s)
      else hd s # replace_first n old new (tl s))"
  by pat_completeness auto
termination by (relation "measure (\<lambda>(n, old, new, s). length s)") auto

declare replace_first.simps [simp del]

definition lines_text :: "string list \<Rightarrow> string" where
  "lines_text ls = join [NL] ls @ [NL]"

definition input_txt :: string where
  "input_txt = lines_text (map (\<lambda>i. ''line '' @ zero_pad 5 i @ '' needle value '' @ show_int (i mod 97)) (upto_int 20000))"

definition small_txt :: string where
  "small_txt = lines_text (map (\<lambda>i. ''short needle '' @ show_int i) (upto_int 100))"

definition input2_txt :: string where
  "input2_txt = replace_first 200 ''needle'' ''other'' input_txt"

definition input_json :: string where
  "input_json = ''{'' @ quoted ''items'' @ '':['' @
     join '','' (map (\<lambda>i. ''{'' @ quoted ''value'' @ '':'' @ show_int i @ '','' @ quoted ''name'' @ '':'' @
       quoted (''needle-'' @ show_int i) @ ''}'') (upto_int 1000)) @ '']}'' @ [NL]"

definition input_xml :: string where
  "input_xml = ''<root>'' @ concat (map (\<lambda>i. ''<item id='' @ quoted (show_int i) @ ''>needle-'' @ show_int i @
     ''</item>'') (upto_int 1000)) @ ''</root>'' @ [NL]"

definition input_m4 :: string where
  "input_m4 = concat (replicate 1000 (''define(`x'' @ [CHR 0x27] @ '', `needle'' @ [CHR 0x27] @ '')'' @ [NL] @ ''x'' @ [NL]))"

definition input_ppm :: string where
  "input_ppm = lines_text [''P3'', ''128 128'', ''255''] @
     concat (map (\<lambda>y. concat (map (\<lambda>x. show_int (x mod 256) @ '' '' @ show_int (y mod 256) @ '' '' @
       show_int (x * y mod 256) @ [NL]) (upto_int 128))) (upto_int 128))"

definition hex_val :: "char \<Rightarrow> nat" where
  "hex_val c = length (takeWhile (\<lambda>d. d \<noteq> c) ''0123456789abcdef'')"

fun from_hex :: "string \<Rightarrow> string" where
  "from_hex (a # b # s) = char_of (16 * hex_val a + hex_val b) # from_hex s"
| "from_hex _ = []"

definition input_gif :: string where
  "input_gif = from_hex ''47494638396101000100800000000000ffffff21f90401000000002c00000000010001000002024401003b''"

definition input_png :: string where
  "input_png = from_hex (''89504e470d0a1a0a0000000d4948445200000001000000010802000000907753de'' @
     ''0000000c49444154789c6360000000020001e221bc330000000049454e44ae426082'')"

definition write_tree_file :: "string \<Rightarrow> int \<Rightarrow> unit act" where
  "write_tree_file tree i = (let d = path_div tree (''dir'' @ show_int (i mod 10)) in
     thenA (mkdirA True d)
       (writeA (path_div d (''file'' @ show_int i @ ''.txt'')) (''needle '' @ show_int i @ [NL])))"

definition bench_files :: "(string \<times> string) list" where
  "bench_files =
    [(''input.txt'', input_txt), (''small.txt'', small_txt), (''input2.txt'', input2_txt),
     (''input.json'', input_json), (''input.xml'', input_xml),
     (''script.lua'', ''local s=0; for i=1,100000 do s=s+i end; print(s)'' @ [NL]),
     (''script.js'', ''var s=0; for (var i=0;i<100000;i++) s+=i; print(s);'' @ [NL]),
     (''input.m4'', input_m4),
     (''Makefile.small'', ''all:'' @ [NL, TAB] @ ''@echo needle'' @ [NL])]"

definition write_bench_inputs :: "string \<Rightarrow> unit act" where
  "write_bench_inputs bench =
     thenA (mkdirA True bench)
    (thenA (forA (\<lambda>(name, text). writeA (path_div bench name) text) bench_files)
    (thenA (removeA (path_div bench ''tree''))
    (thenA (forA (write_tree_file (path_div bench ''tree'')) (upto_int 50))
    (thenA (writeA (path_div bench ''input.ppm'') input_ppm)
    (thenA (writeA (path_div bench ''input.gif'') input_gif)
           (writeA (path_div bench ''input.png'') input_png))))))"

section \<open>Builds and runs\<close>

definition with_vars :: "(string \<times> string) list \<Rightarrow> environ \<Rightarrow> environ" where
  "with_vars kvs env = fold (\<lambda>(k, v). dset k v) kvs env"

text \<open>\<open>env.get(name, default)\<close> under the same name\<close>

definition kept_var :: "environ \<Rightarrow> string \<Rightarrow> string \<Rightarrow> string \<times> string" where
  "kept_var env name d = (name, dget env name d)"

definition base_env :: "environ \<Rightarrow> string \<Rightarrow> bool \<Rightarrow> string \<Rightarrow> string \<Rightarrow> int \<Rightarrow> environ" where
  "base_env env sanitizer disable_pass out_dir project_name jobs = with_vars
    [kept_var env ''LLVM_CONFIG'' ''llvm-config-18'',
     kept_var env ''OPT'' ''opt-18'',
     kept_var env ''CLANG'' ''clang-18'',
     kept_var env ''CLANGXX'' ''clang++-18'',
     kept_var env ''DESAN_LLVM_CONFIG'' (dget env ''LLVM_CONFIG'' ''llvm-config-18''),
     kept_var env ''DESAN_OPT'' (dget env ''OPT'' ''opt-18''),
     kept_var env ''DESAN_CLANG'' (dget env ''CLANG'' ''clang-18''),
     kept_var env ''DESAN_CLANGXX'' (dget env ''CLANGXX'' ''clang++-18''),
     kept_var env ''PLUGIN'' (path_div (path_div ROOT ''build'') ''DESANPass.so''),
     kept_var env ''DESAN_SPEC_FALLBACK'' ''1'',
     kept_var env ''DESAN_SPEC_PASS_TIMEOUT'' ''900'',
     kept_var env ''DESAN_SPEC_QUIET'' ''1'',
     kept_var env ''DESAN_PASS_ARGS'' ''-desan-core-top-n=0 -desan-core-min-ratio=0'',
     kept_var env ''ASAN_OPTIONS'' ''detect_leaks=0:alloc_dealloc_mismatch=0'',
     kept_var env ''LSAN_OPTIONS'' ''detect_leaks=0'',
     kept_var env ''UBSAN_OPTIONS'' ''halt_on_error=0:print_stacktrace=0'',
     kept_var env ''MSAN_OPTIONS'' ''halt_on_error=0:exit_code=0:report_umrs=0:print_stats=0'',
     (''CC'', CC_WRAPPER),
     (''CXX'', CXX_WRAPPER),
     (''CFLAGS'', ''-O0 -g -fno-omit-frame-pointer''),
     (''CXXFLAGS'', ''-O0 -g -fno-omit-frame-pointer''),
     (''JOBS'', show_int jobs),
     (''DESAN_OUT_DIR'', out_dir),
     (''DESAN_SPEC_BENCHMARK'', project_name),
     (''DESAN_SPEC_SANITIZER'', sanitizer),
     (''DESAN_SPEC_DISABLE_PASS'', if disable_pass then ''1'' else ''0'')] env"

definition build_dir_of :: "string \<Rightarrow> string \<Rightarrow> string" where
  "build_dir_of out_root label = path_div out_root (''build-'' @ label)"

definition build_variant ::
  "string \<Rightarrow> project \<Rightarrow> string \<Rightarrow> string \<Rightarrow> string \<Rightarrow> string \<Rightarrow> bool \<Rightarrow> int \<Rightarrow> string \<Rightarrow> int \<Rightarrow> string act" where
  "build_variant name project src_dir out_root label sanitizer disable_pass jobs logf timeout =
     (let build_dir = build_dir_of out_root label; variant_out = path_div out_root label in
      thenA (copy_source src_dir build_dir)
     (thenA (mkdirA True variant_out)
     (bindA environA (\<lambda>env0. let env = base_env env0 sanitizer disable_pass variant_out name jobs in
      thenA (appendA logf (''=== '' @ name @ '' '' @ label @ '' build ==='' @ [NL]))
     (bindA (keyA ''build'' (pj_build project)) (\<lambda>command.
      bindA (sh command build_dir (Some env) logf timeout) (\<lambda>rc.
      thenA (failing rc (name @ '' '' @ label @ '' build failed with '' @ show_int rc))
     (thenA (appendA logf (''=== '' @ name @ '' '' @ label @ '' build done ==='' @ [NL]))
     (returnA build_dir)))))))))"

text \<open>One timed run; a run over its time limit counts as a failed one.\<close>

definition catch_timeout :: "int act \<Rightarrow> int act" where
  "catch_timeout m = tryA m (\<lambda>e. case e of TimeoutErr _ _ \<Rightarrow> returnA 124 | _ \<Rightarrow> raiseA e)"

definition timed_run :: "string \<Rightarrow> string \<Rightarrow> string \<Rightarrow> environ \<Rightarrow> string \<Rightarrow> int \<Rightarrow> int \<Rightarrow> unit act" where
  "timed_run label command build_dir env logf timeout run =
     bindA clockA (\<lambda>start.
     bindA (catch_timeout (sh (''set -e; '' @ command) build_dir (Some env) logf timeout)) (\<lambda>rc.
     bindA clockA (\<lambda>now.
     rowA [label, show_int run, if rc = 0 then ''S'' else ''RE'', fmt_fixed 6 (now - start)])))"

definition run_numbers :: "int \<Rightarrow> int list" where
  "run_numbers runs = map (\<lambda>i. int i + 1) [0..<nat runs]"

text \<open>The runs of one variant, whatever variables the environment of a run gets.\<close>

definition measure_runs ::
  "(environ \<Rightarrow> environ) \<Rightarrow> string \<Rightarrow> project \<Rightarrow> string \<Rightarrow> string \<Rightarrow> int \<Rightarrow> int \<Rightarrow> string \<Rightarrow> unit act" where
  "measure_runs more_vars name project label build_dir runs timeout logf =
     (let artifact = (case pj_artifact project of None \<Rightarrow> '''' | Some a \<Rightarrow> a);
          app = (if artifact \<noteq> '''' then path_div build_dir artifact else build_dir);
          command = (case pj_run project of None \<Rightarrow> '''' | Some c \<Rightarrow> c) in
      bindA (existsA app) (\<lambda>there.
      if artifact \<noteq> '''' \<and> \<not> there then
        thenA (appendA logf (''missing artifact for '' @ name @ '' '' @ label @ '': '' @ app @ [NL]))
          (forA (\<lambda>run. rowA [label, show_int run, ''NR'', '''']) (run_numbers runs))
      else
        bindA environA (\<lambda>env. let env = more_vars (with_vars [(''APP'', app), (''BUILD'', build_dir)] env) in
        forA (timed_run label command build_dir env logf timeout) (run_numbers runs))))"

definition run_vars :: "string \<Rightarrow> int \<Rightarrow> environ \<Rightarrow> environ" where
  "run_vars bench loops env = with_vars
    [(''BENCH'', bench), (''LOOPS'', show_int loops),
     kept_var env ''ASAN_OPTIONS'' ''detect_leaks=0:alloc_dealloc_mismatch=0'',
     kept_var env ''LSAN_OPTIONS'' ''detect_leaks=0'',
     kept_var env ''UBSAN_OPTIONS'' ''halt_on_error=0:print_stacktrace=0'',
     kept_var env ''MSAN_OPTIONS'' ''halt_on_error=0:exit_code=0:report_umrs=0:print_stats=0''] env"

definition run_runtime ::
  "string \<Rightarrow> project \<Rightarrow> string \<Rightarrow> string \<Rightarrow> string \<Rightarrow> int \<Rightarrow> int \<Rightarrow> int \<Rightarrow> string \<Rightarrow> unit act" where
  "run_runtime name project label build_dir bench runs loops timeout logf =
     measure_runs (run_vars bench loops) name project label build_dir runs timeout logf"

section \<open>One job\<close>

definition job_name :: "string \<Rightarrow> string \<Rightarrow> string" where
  "job_name name sanitizer = name @ ''-'' @ sanitizer @ ''-after-read-check-elimination''"

definition job_root :: "string \<Rightarrow> string \<Rightarrow> string" where
  "job_root name sanitizer = path_div OUT_BASE (job_name name sanitizer)"

definition job_log :: "string \<Rightarrow> string \<Rightarrow> string" where
  "job_log name sanitizer = path_div OUT_BASE (name @ ''_'' @ sanitizer @ ''_after_read_check_elimination.nohup.log'')"

definition summary_file :: "string \<Rightarrow> string \<Rightarrow> string \<Rightarrow> string" where
  "summary_file name sanitizer suffix = path_div OUT_BASE (job_name name sanitizer @ ''-'' @ suffix)"

definition summary_argv :: "string \<Rightarrow> string \<Rightarrow> sanitizer \<Rightarrow> string \<Rightarrow> string list" where
  "summary_argv name sanitizer san out_root =
     [''python3'', path_div (path_div ROOT ''scripts'') ''opensource_summary.py'',
      ''--suite'', ''OpenSource'', ''--benchmark'', name,
      ''--records'', path_div (path_div (path_div out_root ''desan'') ''spec-logs'') ''compile_records.tsv'',
      ''--runtime-csv'', path_div out_root ''runtime.csv'',
      ''--before-variant'', sn_base_variant san, ''--after-variant'', ''desan'',
      ''--csv-out'', summary_file name sanitizer ''summary.csv''] @
     concat (map (\<lambda>p. [''--core-prefix'', p]) (sn_core_prefixes san))"

definition summarize :: "string \<Rightarrow> string \<Rightarrow> string \<Rightarrow> unit act" where
  "summarize name sanitizer out_root =
     bindA (keyA sanitizer (map_of SANITIZERS sanitizer)) (\<lambda>san.
     (let summary_md = summary_file name sanitizer ''summary.md'' in
      thenA (writeA summary_md '''')
        (bindA (procA \<lparr>pr_argv = summary_argv name sanitizer san out_root, pr_cwd = ROOT, pr_env = None,
            pr_timeout = None, pr_out = summary_md\<rparr>) (\<lambda>_. returnA ()))))"

definition runtime_header :: "string list" where
  "runtime_header = [''Variant'', ''Run'', ''Status'', ''Seconds'']"

definition job_body :: "string \<Rightarrow> string \<Rightarrow> project \<Rightarrow> batch_args \<Rightarrow> unit act" where
  "job_body name sanitizer project args =
     (let out_root = job_root name sanitizer; logf = job_log name sanitizer; bench = path_div out_root ''bench'';
          build = (\<lambda>src_dir label san disable. build_variant name project src_dir out_root label san disable
             (ba_jobs args) logf (ba_build_timeout args));
          measure = (\<lambda>label build_dir. run_runtime name project label build_dir bench (ba_runs args)
             (ba_loops args) (ba_run_timeout args) logf) in
      bindA (prepare_source name project logf) (\<lambda>src_dir.
      thenA (write_bench_inputs bench)
     (bindA (build src_dir ''native'' ''none'' True) (\<lambda>native_dir.
      bindA (keyA sanitizer (map_of SANITIZERS sanitizer)) (\<lambda>san. let base_label = sn_base_variant san in
      bindA (build src_dir base_label sanitizer True) (\<lambda>base_dir.
      bindA (build src_dir ''desan'' sanitizer False) (\<lambda>desan_dir.
      thenA (csvA (path_div out_root ''runtime.csv'')
        (thenA (rowA runtime_header)
        (thenA (measure ''native'' native_dir)
        (thenA (measure base_label base_dir)
               (measure ''desan'' desan_dir)))))
     (summarize name sanitizer out_root))))))))"

text \<open>The end of a job as its status row tells it: \<open>S\<close>, or \<open>FAIL\<close> with the exception's text.\<close>

definition reported :: "string \<Rightarrow> unit act \<Rightarrow> (string \<times> string) act" where
  "reported logf m =
     tryA (thenA m (returnA (''S'', '''')))
       (\<lambda>e. thenA (appendA logf (''FAILED: '' @ exn_text e @ [NL])) (returnA (''FAIL'', exn_text e)))"

text \<open>What an earlier run of the job left is removed, and its log is opened.\<close>

definition start_job :: "string \<Rightarrow> string \<Rightarrow> unit act" where
  "start_job name sanitizer =
     thenA (removeA (job_root name sanitizer))
    (thenA (forA (\<lambda>suffix. let p = summary_file name sanitizer suffix in
          bindA (existsA p) (\<lambda>there. whenA there (unlinkA p))) [''summary.md'', ''summary.csv''])
    (thenA (mkdirA True (job_root name sanitizer))
           (writeA (job_log name sanitizer) '''')))"

definition run_one :: "string \<Rightarrow> string \<Rightarrow> batch_args \<Rightarrow> string \<Rightarrow> unit act" where
  "run_one name sanitizer args status_path =
     bindA (keyA name (map_of PROJECTS name)) (\<lambda>project.
     thenA (start_job name sanitizer)
    (bindA (reported (job_log name sanitizer) (job_body name sanitizer project args)) (\<lambda>(status, message).
     statusA status_path [name, sanitizer, status, message])))"

section \<open>The batch\<close>

definition check_names :: "string \<Rightarrow> string list \<Rightarrow> string list \<Rightarrow> unit act" where
  "check_names what known names =
     forA (\<lambda>n. if n \<in> set known then returnA () else raiseA (ExitErr (''unknown '' @ what @ '': '' @ n))) names"

definition batch_names :: "string \<Rightarrow> string list" where
  "batch_names s = filter (\<lambda>w. w \<noteq> '''') (map strip (split_on (CHR '','') s))"

definition status_header :: "string list" where
  "status_header = [''Project'', ''Sanitizer'', ''Status'', ''Message'']"

definition default_status_file :: string where
  "default_status_file = path_div OUT_BASE ''oss-batch-after-read-check-elimination-status.csv''"

text \<open>The projects and sanitizers of a batch, and its jobs in order.\<close>

definition batch_projects :: "batch_args \<Rightarrow> string list" where
  "batch_projects args = (if ba_projects args \<noteq> '''' then batch_names (ba_projects args) else dkeys PROJECTS)"

definition batch_jobs :: "batch_args \<Rightarrow> (string \<times> string) list" where
  "batch_jobs args = List.product (batch_projects args) (batch_names (ba_sanitizers args))"

definition open_append :: "string \<Rightarrow> unit act" where
  "open_append path = bindA (existsA path) (\<lambda>there.
     if there then osA (\<lambda>fs. if map_of fs path = Some Dir then Inl (os_error 21 ''Is a directory'' path) else Inr fs)
     else writeA path '''')"

definition batch_main :: "batch_args \<Rightarrow> unit act" where
  "batch_main args =
     thenA (check_names ''project'' (dkeys PROJECTS) (batch_projects args))
    (thenA (check_names ''sanitizer'' (dkeys SANITIZERS) (batch_names (ba_sanitizers args)))
    (thenA (mkdirA True OUT_BASE)
    (bindA environA (\<lambda>env. let aggregate = path_str (dget env ''OSS_STATUS_FILE'' default_status_file) in
     bindA (existsA aggregate) (\<lambda>there.
     thenA (open_append aggregate)
    (thenA (whenA (\<not> there) (statusA aggregate status_header))
    (forA (\<lambda>(project, sanitizer).
        thenA (printA (''=== '' @ project @ '' '' @ sanitizer @ '' ===''))
              (run_one project sanitizer args aggregate)) (batch_jobs args))))))))"

end
