(* ===== verification/JobFrames.thy ===== *)
theory JobFrames
  imports BatchRunner
begin

text \<open>
  What the parts of a job keep: every part is composed of the operations of the interface
  \<open>file_frame\<close>, on paths below the ones it is given.
\<close>

context file_frame
begin

lemma keeps_sh: "A l \<Longrightarrow> keeps H R (sh c d e l t)"
  unfolding sh_def by (intro keeps_ops)

lemma keeps_key: "keeps H R (keyA k v)"
  unfolding keyA_def by (cases v) (auto intro: keeps_ops)

lemma keeps_failing: "keeps H R (failing rc m)"
  unfolding failing_def by (auto intro: keeps_ops)

lemma keeps_adopt:
  assumes "A a" "A b"
  shows "keeps H R (adopt a b)"
  unfolding adopt_def
proof (intro keeps_then keeps_check keeps_bind_get)
  fix h :: host and w :: world
  assume "H h"
  have c: "A c" if "children (w_fs w) a = [c]" for c
    using A_child [OF assms(1), of c "w_fs w"] that by simp
  show "keeps H R (case (children (w_fs w) a, w_fs w) of (names, fs) \<Rightarrow> (case names of
          [c] \<Rightarrow> if map_of fs c = Some Dir then thenA (osA (fs_rename c b)) (rmtreeA a) else osA (fs_rename a b)
        | _ \<Rightarrow> osA (fs_rename a b)))"
    using assms c by (auto split: list.splits intro!: keeps_ops)
qed

lemma keeps_archive:
  assumes "A BENCHMARKS" "plain_name name" "A l"
  shows "keeps H R (prepare_archive name u l)"
proof -
  have "A (source_dir name)" "A (extract_dir name)" "A archive_dir"
    using assms unfolding source_dir_def extract_dir_def archive_dir_def
    by (auto intro!: A_div simp: plain_name_def)
  with assms show ?thesis
    unfolding prepare_archive_def Let_def by (intro keeps_ops keeps_sh keeps_failing keeps_adopt)
qed

lemma keeps_git:
  assumes "A BENCHMARKS" "plain_name name" "A l"
  shows "keeps H R (prepare_git name repo ref l)"
proof -
  have "A (source_dir name)" 
    using assms unfolding source_dir_def by (auto intro!: A_div simp: plain_name_def)
  with assms show ?thesis
    unfolding prepare_git_def Let_def runs_sh_def
    by (auto intro!: keeps_ops keeps_sh keeps_failing)
qed

lemma keeps_source:
  assumes "A BENCHMARKS" "plain_name name" "A l"
  shows "keeps H R (prepare_source name project l)"
  unfolding prepare_source_def
  by (auto split: option.splits intro!: keeps_ops keeps_sh keeps_key keeps_failing keeps_archive keeps_git assms)

lemma keeps_inputs:
  assumes "A bench"
  shows "keeps H R (write_bench_inputs bench)"
proof -
  have n: "plain_name ''tree''" "plain_name ''input.ppm''" "plain_name ''input.gif''" "plain_name ''input.png''"
    by (simp_all add: plain_name_def)
  have t: "plain_name (''dir'' @ show_int i)" "plain_name (''file'' @ show_int i @ ''.txt'')" for i
    by (auto simp: plain_name_def list_all_iff is_digit_def dest: show_int_chars)
  have f: "plain_name a" if "(a, b) \<in> set bench_files" for a b
    using that by (auto simp: bench_files_def plain_name_def)
  have tree: "A (path_div bench ''tree'')" by (rule A_div [OF assms n(1)])
  have "keeps H R (write_tree_file (path_div bench ''tree'') i)" for i
    unfolding write_tree_file_def Let_def by (intro keeps_ops A_div tree t)
  with tree show ?thesis
    unfolding write_bench_inputs_def by (auto intro!: keeps_ops A_div assms n dest: f split: prod.splits)
qed

lemma keeps_build:
  assumes "A out_root" "plain_name label" "A l"
  shows "keeps H R (build_variant name project src out_root label san dis jobs l timeout)"
proof -
  have "plain_name (''build-'' @ label)" using assms(2) by (auto simp: plain_name_def)
  with assms have "A (build_dir_of out_root label)" "A (path_div out_root label)"
    unfolding build_dir_of_def by (auto intro: A_div)
  with assms(3) show ?thesis
    unfolding build_variant_def Let_def copy_source_def
    by (intro keeps_ops keeps_sh keeps_key keeps_failing)
qed

lemma keeps_measure:
  assumes "A l"
  shows "keeps H R (measure_runs vars name project label dir runs timeout l)"
proof -
  have "keeps H R (timed_run label c dir env l timeout i)" for c env i
    unfolding timed_run_def catch_timeout_def
    by (intro keeps_ops keeps_sh assms) (auto intro!: keeps_ops split: job_exn.splits)
  with assms show ?thesis
    unfolding measure_runs_def Let_def by (auto intro!: keeps_ops)
qed

text \<open>Where a job writes: below its own directory, its log, its summaries and the sources.\<close>

definition job_paths :: "string \<Rightarrow> string \<Rightarrow> string set" where
  "job_paths name sanitizer = {BENCHMARKS, job_root name sanitizer, job_log name sanitizer,
     summary_file name sanitizer ''summary.md'', summary_file name sanitizer ''summary.csv''}"

lemma sanitizer_variants:
  "map_of SANITIZERS sanitizer = Some san \<Longrightarrow> sn_base_variant san \<in> {''asan-base'', ''ubsan-base'', ''msan-base''}"
  by (auto simp: SANITIZERS_def split: if_splits)

lemma variant_plain: "label \<in> {''native'', ''desan'', ''asan-base'', ''ubsan-base'', ''msan-base''} \<Longrightarrow> plain_name label"
  by (auto simp: plain_name_def)

lemma keeps_job_body:
  assumes paths: "\<forall>p\<in>job_paths name sanitizer. A p" and name: "plain_name name"
  shows "keeps H R (job_body name sanitizer project args)"
proof -
  let ?out = "job_root name sanitizer" and ?log = "job_log name sanitizer"
  have A: "A BENCHMARKS" "A ?out" "A ?log" "A (summary_file name sanitizer ''summary.md'')"
    using paths by (auto simp: job_paths_def)
  have n: "plain_name ''bench''" "plain_name ''runtime.csv''" by (simp_all add: plain_name_def)
  have v: "plain_name (sn_base_variant san)" if "map_of SANITIZERS sanitizer = Some san" for san
    by (rule variant_plain) (use sanitizer_variants [OF that] in auto)
  have key: "keeps H R (bindA (keyA sanitizer (map_of SANITIZERS sanitizer)) f)"
    if "\<And>san. map_of SANITIZERS sanitizer = Some san \<Longrightarrow> keeps H R (f san)" for f :: "sanitizer \<Rightarrow> unit act"
  proof (cases "map_of SANITIZERS sanitizer")
    case None
    then show ?thesis by (simp add: keyA_def bindA_def raiseA_def keeps_def frame_refl)
  next
    case (Some san)
    with that [OF Some] show ?thesis by (simp add: keyA_def bindA_def returnA_def)
  qed
  have sum: "keeps H R (summarize name sanitizer ?out)"
    unfolding summarize_def Let_def by (intro keeps_ops keeps_key A)
  show ?thesis
    unfolding job_body_def Let_def run_runtime_def
    by (intro keeps_then keeps_bind keeps_csv keeps_row keeps_source keeps_inputs keeps_build keeps_measure
        sum A A_div n name key v variant_plain) simp_all
qed

lemma keeps_reported: "A l \<Longrightarrow> keeps H R m \<Longrightarrow> keeps H R (reported l m)"
  unfolding reported_def by (intro keeps_ops)

text \<open>All of a job up to its status row.\<close>

lemma keeps_start:
  assumes "\<forall>p\<in>job_paths name sanitizer. A p"
  shows "keeps H R (start_job name sanitizer)"
  using assms unfolding start_job_def by (auto simp: job_paths_def Let_def intro!: keeps_ops)

end

end
