(* ===== verification/BatchSpec.thy ===== *)
theory BatchSpec
  imports Host
begin

text \<open>
  What a batch promises, whoever runs its jobs: a machine whose state is the jobs that are left
  and the rows reported so far, and whose only step takes the next job and reports one row for
  it. A loop over jobs that each report one row runs in step with this machine, also when it is
  stopped by an exception.
\<close>

record 'j batch =
  todo :: "'j list"
  reports :: "string list list"

inductive batch_step :: "('j \<Rightarrow> string list \<Rightarrow> bool) \<Rightarrow> 'j batch \<Rightarrow> 'j batch \<Rightarrow> bool"
  for ok :: "'j \<Rightarrow> string list \<Rightarrow> bool" where
  report: "ok j r \<Longrightarrow> batch_step ok \<lparr>todo = j # js, reports = rs\<rparr> \<lparr>todo = js, reports = rs @ [r]\<rparr>"

inductive_cases batch_stepE: "batch_step ok b b'"

inductive_simps batch_step_simps: "batch_step ok \<lparr>todo = js, reports = rs\<rparr> b"

abbreviation batch_start :: "'j list \<Rightarrow> 'j batch" where
  "batch_start jobs \<equiv> \<lparr>todo = jobs, reports = []\<rparr>"

abbreviation batch_reaches :: "('j \<Rightarrow> string list \<Rightarrow> bool) \<Rightarrow> 'j batch \<Rightarrow> 'j batch \<Rightarrow> bool" where
  "batch_reaches ok \<equiv> (batch_step ok)\<^sup>*\<^sup>*"

text \<open>The invariant: the rows so far are those of the jobs that are done, in order.\<close>

definition batch_inv :: "('j \<Rightarrow> string list \<Rightarrow> bool) \<Rightarrow> 'j list \<Rightarrow> 'j batch \<Rightarrow> bool" where
  "batch_inv ok jobs b \<longleftrightarrow> (\<exists>finished. jobs = finished @ todo b \<and> list_all2 ok finished (reports b))"

lemma batch_inv_start: "batch_inv ok jobs (batch_start jobs)"
  by (simp add: batch_inv_def)

lemma batch_inv_step: "batch_step ok b b' \<Longrightarrow> batch_inv ok jobs b \<Longrightarrow> batch_inv ok jobs b'"
proof (erule batch_stepE)
  fix j r js rs
  assume b: "b = \<lparr>todo = j # js, reports = rs\<rparr>" "b' = \<lparr>todo = js, reports = rs @ [r]\<rparr>" and r: "ok j r"
  assume "batch_inv ok jobs b"
  then obtain finished where "jobs = finished @ j # js" "list_all2 ok finished rs"
    by (auto simp: batch_inv_def b)
  with r show "batch_inv ok jobs b'"
    unfolding batch_inv_def b by (intro exI [of _ "finished @ [j]"]) (simp add: list_all2_appendI)
qed

lemma batch_inv_reaches: "batch_reaches ok (batch_start jobs) b \<Longrightarrow> batch_inv ok jobs b"
  by (induction rule: rtranclp_induct) (auto intro: batch_inv_start batch_inv_step)

text \<open>The machine stops only when no job is left, if every job can be reported.\<close>

lemma batch_progress: "(\<And>j. \<exists>r. ok j r) \<Longrightarrow> todo b \<noteq> [] \<Longrightarrow> \<exists>b'. batch_step ok b b'"
  by (cases b; cases "todo b") (fastforce simp: batch_step_simps)+

section \<open>Runners\<close>

locale job_runner =
  fixes run_job :: "'j \<Rightarrow> unit act" and job_ok :: "'j \<Rightarrow> string list \<Rightarrow> bool"
  assumes job_reports: "run_job j h w = (r, w') \<Longrightarrow>
    (\<exists>row. job_ok j row \<and> w_status w' = w_status w @ [row]) \<or> (isl r \<and> w_status w' = w_status w)"
begin

lemma loop_reaches_from:
  "forA run_job jobs h w = (r, w') \<Longrightarrow>
   \<exists>b. batch_reaches job_ok \<lparr>todo = jobs, reports = rs\<rparr> b \<and> (isl r \<or> todo b = []) \<and>
     (\<exists>new. reports b = rs @ new \<and> w_status w' = w_status w @ new)"
proof (induction jobs arbitrary: w rs)
  case Nil
  then show ?case by (intro exI [of _ "\<lparr>todo = [], reports = rs\<rparr>"]) (auto simp: returnA_def)
next
  case (Cons j jobs)
  obtain q u where j: "run_job j h w = (q, u)" by (cases "run_job j h w")
  show ?case
  proof (cases q)
    case (Inl e)
    with Cons.prems j have r: "r = Inl e" "w' = u" by (auto simp: thenA_def bindA_def)
    from job_reports [OF j] consider (row) row where "job_ok j row" "w_status u = w_status w @ [row]"
      | (none) "w_status u = w_status w" by auto
    then show ?thesis
    proof cases
      case row
      then show ?thesis
        using r by (intro exI [of _ "\<lparr>todo = jobs, reports = rs @ [row]\<rparr>"]) (auto intro!: batch_step.report)
    next
      case none
      then show ?thesis using r by (intro exI [of _ "\<lparr>todo = j # jobs, reports = rs\<rparr>"]) auto
    qed
  next
    case (Inr x)
    with Cons.prems j have rest: "forA run_job jobs h u = (r, w')" by (auto simp: thenA_def bindA_def)
    from job_reports [OF j] Inr obtain row where row: "job_ok j row" "w_status u = w_status w @ [row]" by auto
    from Cons.IH [OF rest, of "rs @ [row]"] obtain b new where
      b: "batch_reaches job_ok \<lparr>todo = jobs, reports = rs @ [row]\<rparr> b" "isl r \<or> todo b = []"
        "reports b = (rs @ [row]) @ new" "w_status w' = w_status u @ new" by blast
    have "batch_reaches job_ok \<lparr>todo = j # jobs, reports = rs\<rparr> b"
      using row(1) b(1) by (meson batch_step.report converse_rtranclp_into_rtranclp)
    with b row(2) show ?thesis by auto
  qed
qed

lemma loop_reaches:
  assumes "forA run_job jobs h w = (r, w')"
  obtains b where "batch_reaches job_ok (batch_start jobs) b" "isl r \<or> todo b = []"
    "w_status w' = w_status w @ reports b"
  using loop_reaches_from [OF assms, of "[]"] by auto

lemma loop_reports:
  assumes "forA run_job jobs h w = (r, w')"
  obtains rs where "w_status w' = w_status w @ rs" "list_all2 job_ok (take (length rs) jobs) rs"
    "isl r \<or> length rs = length jobs"
proof -
  from loop_reaches [OF assms] obtain b where
    b: "batch_reaches job_ok (batch_start jobs) b" "isl r \<or> todo b = []" "w_status w' = w_status w @ reports b" .
  from batch_inv_reaches [OF b(1)] obtain finished where
    f: "jobs = finished @ todo b" "list_all2 job_ok finished (reports b)" by (auto simp: batch_inv_def)
  from f(2) have "length finished = length (reports b)" by (rule list_all2_lengthD)
  with f have "list_all2 job_ok (take (length (reports b)) jobs) (reports b)"
    "isl r \<or> length (reports b) = length jobs" using b(2) by auto
  with b(3) show thesis by (rule that)
qed

end

end
