(* ===== verification/BatchJobs.thy ===== *)
theory BatchJobs
  imports JobFrames BatchSpec
begin

text \<open>
  What the batch runner reports: one row per job, in step with the abstract machine of
  \<open>BatchSpec\<close>, whatever the host does.
\<close>

section \<open>One row per job\<close>

text \<open>A job's row: its names and \<open>S\<close> with no message, or \<open>FAIL\<close>.\<close>

definition job_report :: "string \<times> string \<Rightarrow> string list \<Rightarrow> bool" where
  "job_report = (\<lambda>(name, sanitizer) row. \<exists>status message. row = [name, sanitizer, status, message] \<and>
     (status = ''S'' \<and> message = '''' \<or> status = ''FAIL''))"

lemma bindA_cases:
  assumes "bindA m f h w = (r, w')"
  obtains (stop) e where "m h w = (Inl e, w')" "r = Inl e"
  | (go) x u where "m h w = (Inr x, u)" "f x h u = (r, w')"
  using assms by (auto simp: bindA_def split: prod.splits sum.splits)

lemma thenA_cases:
  assumes "thenA m n h w = (r, w')"
  obtains (stop) e where "m h w = (Inl e, w')" "r = Inl e"
  | (go) u where "m h w = (Inr (), u)" "n h u = (r, w')"
  using assms by (auto simp: thenA_def elim!: bindA_cases)

lemma reported_cases:
  assumes "reported l m h w = (Inr (status, message), w')"
  shows "status = ''S'' \<and> message = '''' \<or> status = ''FAIL''"
  using assms by (auto simp: reported_def tryA_def thenA_def bindA_def returnA_def split: prod.splits sum.splits job_exn.splits)

lemma statusA_status:
  "statusA path row h w = (r, w') \<Longrightarrow> w_status w' = w_status w @ [row]"
  using keepsD [OF status_frame.keeps_append [of path "row_text (CHR '','') row"], of h "w\<lparr>w_status := w_status w @ [row]\<rparr>" r w']
  by (simp add: statusA_def thenA_def bindA_def same_status_def)

lemma then_status:
  assumes "thenA m n h w = (r, w')" "keeps (\<lambda>_. True) same_status m"
  obtains (stop) "isl r" "w_status w' = w_status w" | (go) u where "n h u = (r, w')" "w_status u = w_status w"
  using assms(1)
proof (cases rule: thenA_cases)
  case (stop e)
  from keepsD [OF assms(2) TrueI stop(1)] have "w_status w' = w_status w" by (simp add: same_status_def)
  with stop(2) show ?thesis by (intro that(1)) auto
next
  case (go u)
  from keepsD [OF assms(2) TrueI go(1)] have "w_status u = w_status w" by (simp add: same_status_def)
  with go(2) show ?thesis by (rule that(2))
qed

lemma bind_status:
  assumes "bindA m f h w = (r, w')" "keeps (\<lambda>_. True) same_status m"
  obtains (stop) "isl r" "w_status w' = w_status w"
  | (go) x u where "m h w = (Inr x, u)" "f x h u = (r, w')" "w_status u = w_status w"
  using assms(1)
proof (cases rule: bindA_cases)
  case (stop e)
  from keepsD [OF assms(2) TrueI stop(1)] have "w_status w' = w_status w" by (simp add: same_status_def)
  with stop(2) show ?thesis by (intro that(1)) auto
next
  case (go x u)
  from keepsD [OF assms(2) TrueI go(1)] have "w_status u = w_status w" by (simp add: same_status_def)
  with go show ?thesis by (intro that(2))
qed

lemma bind_key_Some [simp]: "bindA (keyA k (Some x)) f = f x"
  by (rule ext)+ (simp add: keyA_def bindA_def returnA_def)

text \<open>
  Every project has its build command, its artifact and its run command, and exactly one place
  its source comes from; project names are single path components.
\<close>

definition complete_project :: "project \<Rightarrow> bool" where
  "complete_project p \<longleftrightarrow> (pj_archive p = None \<longleftrightarrow> pj_repo p \<noteq> None) \<and> pj_build p \<noteq> None \<and>
     pj_artifact p \<notin> {None, Some ''''} \<and> pj_run p \<notin> {None, Some ''''} \<and> (pj_submodules p \<longrightarrow> pj_repo p \<noteq> None)"

lemma registry_complete: "list_all (\<lambda>(k, p). complete_project p \<and> plain_name k) PROJECTS"
  by code_simp

lemma project_names_plain: "map_of PROJECTS name = Some p \<Longrightarrow> plain_name name"
  using registry_complete by (auto simp: list_all_iff dest!: map_of_SomeD)

lemma run_one_status:
  assumes "run_one name sanitizer args path h w = (r, w')"
  shows "(\<exists>row. job_report (name, sanitizer) row \<and> w_status w' = w_status w @ [row]) \<or> (isl r \<and> w_status w' = w_status w)"
proof (cases "map_of PROJECTS name")
  case None
  with assms show ?thesis by (auto simp: run_one_def Let_def keyA_def bindA_def raiseA_def)
next
  case (Some project)
  have start: "keeps (\<lambda>_. True) same_status (start_job name sanitizer)"
    by (intro status_frame.keeps_start) simp
  have body: "keeps (\<lambda>_. True) same_status (reported (job_log name sanitizer) (job_body name sanitizer project args))"
    by (intro status_frame.keeps_reported status_frame.keeps_job_body project_names_plain [OF Some]) simp_all
  have rep: ?thesis
    if "bindA (reported (job_log name sanitizer) (job_body name sanitizer project args))
        (\<lambda>(status, message). statusA path [name, sanitizer, status, message]) h u = (r, w')" "w_status u = w_status w" for u
  proof (cases rule: bind_status [OF that(1) body])
    case 1
    with that(2) show ?thesis by simp
  next
    case (2 x v)
    obtain status message where x: "x = (status, message)" by (cases x)
    with 2(2) have "w_status w' = w_status v @ [[name, sanitizer, status, message]]" by (auto dest: statusA_status)
    moreover from 2(1) x have "status = ''S'' \<and> message = '''' \<or> status = ''FAIL''" by (auto dest: reported_cases)
    ultimately show ?thesis using 2(3) that(2) by (auto simp: job_report_def)
  qed
  from assms Some have "thenA (start_job name sanitizer)
    (bindA (reported (job_log name sanitizer) (job_body name sanitizer project args))
      (\<lambda>(status, message). statusA path [name, sanitizer, status, message])) h w = (r, w')"
    by (simp add: run_one_def)
  then show ?thesis
    by (cases rule: then_status [OF _ start, case_names stop go]) (auto dest: rep)
qed

section \<open>The batch\<close>

definition batch_job :: "batch_args \<Rightarrow> string \<Rightarrow> string \<times> string \<Rightarrow> unit act" where
  "batch_job args path = (\<lambda>(project, sanitizer).
     thenA (printA (''=== '' @ project @ '' '' @ sanitizer @ '' ===''))
           (run_one project sanitizer args path))"

lemma print_status: "keeps H same_status (printA t)"
  by (simp add: keeps_def printA_def same_status_def)

interpretation desan: job_runner "batch_job args path" job_report
proof
  fix j :: "string \<times> string" and h w r w'
  obtain p s where j: "j = (p, s)" by (cases j)
  assume "batch_job args path j h w = (r, w')"
  with j have job: "thenA (printA (''=== '' @ p @ '' '' @ s @ '' ==='')) (run_one p s args path) h w = (r, w')"
    by (simp add: batch_job_def)
  show "(\<exists>row. job_report j row \<and> w_status w' = w_status w @ [row]) \<or> (isl r \<and> w_status w' = w_status w)"
  proof (cases rule: then_status [OF job print_status])
    case (2 u)
    from run_one_status [OF 2(1)] show ?thesis by (simp add: 2(2) j)
  qed simp
qed

lemma keeps_check_names: "keeps (\<lambda>_. True) same_status (check_names what known names)"
  unfolding check_names_def by (intro status_frame.keeps_for) (auto intro: status_frame.keeps_ops)

lemma keeps_open: "keeps (\<lambda>_. True) same_status (open_append p)"
  unfolding open_append_def by (intro status_frame.keeps_bind status_frame.keeps_exists) (auto intro!: same_status_os simp: writeA_def)

lemma batch_main_status:
  assumes "batch_main args h w = (r, w')"
  obtains (early) "isl r" "w_status w' = w_status w"
  | (header) "isl r" "w_status w' = w_status w @ [status_header]"
  | (jobs) u path pre where "forA (batch_job args path) (batch_jobs args) h u = (r, w')"
      "w_status u = w_status w @ pre" "pre = [] \<or> pre = [status_header]"
proof -
  let ?T = "\<lambda>_::host. True"
  have loop: thesis
    if "thenA (whenA (\<not> there) (statusA path status_header)) (forA (batch_job args path) (batch_jobs args)) h u = (r, w')"
      "w_status u = w_status w" for there path u
  proof (cases there)
    case True
    with that show thesis by (intro jobs [of path u "[]"]) (simp_all add: whenA_def thenA_def bindA_def returnA_def)
  next
    case False
    with that(1) have "thenA (statusA path status_header) (forA (batch_job args path) (batch_jobs args)) h u = (r, w')"
      by (simp add: whenA_def)
    then show thesis
    proof (cases rule: thenA_cases)
      case (stop e)
      with that(2) show thesis by (intro header) (auto dest: statusA_status)
    next
      case (go v)
      with that(2) show thesis by (intro jobs [of path v "[status_header]"]) (auto dest: statusA_status)
    qed
  qed
  have opened: thesis
    if op: "bindA (existsA path) (\<lambda>there. thenA (open_append path) (thenA (whenA (\<not> there) (statusA path status_header))
        (forA (batch_job args path) (batch_jobs args)))) h u = (r, w')" and st: "w_status u = w_status w" for path u
  proof (cases rule: bind_status [OF op status_frame.keeps_exists])
    case 1
    with st show thesis by (intro early) simp_all
  next
    case (2 there v)
    show thesis
    proof (cases rule: then_status [OF 2(2) keeps_open])
      case 1
      with st 2(3) show thesis by (intro early) simp_all
    next
      case (2 v2)
      with st \<open>w_status v = w_status u\<close> show thesis by (intro loop [OF 2(1)]) simp
    qed
  qed
  note main = assms [unfolded batch_main_def batch_job_def [symmetric] Let_def]
  show thesis
  proof (cases rule: then_status [OF main keeps_check_names])
    case 1
    then show thesis by (rule early)
  next
    case (2 u1)
    show thesis
    proof (cases rule: then_status [OF 2(1) keeps_check_names])
      case 1
      with 2(2) show thesis by (intro early) simp_all
    next
      case u2: (2 u2)
      show thesis
      proof (cases rule: then_status [OF u2(1) status_frame.keeps_mkdir [OF TrueI]])
        case 1
        with 2(2) u2(2) show thesis by (intro early) simp_all
      next
        case u3: (2 u3)
        show thesis
        proof (cases rule: bind_status [OF u3(1) status_frame.keeps_environ])
          case 1
          with 2(2) u2(2) u3(2) show thesis by (intro early) simp_all
        next
          case u4: (2 env u4)
          with 2(2) u2(2) u3(2) show thesis by (intro opened [OF u4(2)]) simp_all
        qed
      qed
    qed
  qed
qed


end
