(* ===== verification/PathNames.thy ===== *)
theory PathNames
  imports Host "HOL-Library.Sublist"
begin

text \<open>
  Absolute paths as lists of names. Over such lists the path operations of the library are list
  operations: \<open>/\<close> appends a name, the parent drops it, what lies below a path has its list as a
  prefix.
\<close>

definition path_of :: "string list \<Rightarrow> string" where
  "path_of ns = concat (map (\<lambda>n. CHR ''/'' # n) ns)"

definition plain_names :: "string list \<Rightarrow> bool" where
  "plain_names ns \<longleftrightarrow> (\<forall>n\<in>set ns. plain_name n)"

lemma path_of_simps [simp]:
  "path_of [] = []" "path_of (n # ns) = CHR ''/'' # n @ path_of ns" "path_of (ms @ ns) = path_of ms @ path_of ns"
  by (simp_all add: path_of_def)

lemma plain_names_simps [simp]:
  "plain_names []" "plain_names (n # ns) \<longleftrightarrow> plain_name n \<and> plain_names ns"
  "plain_names (ms @ ns) \<longleftrightarrow> plain_names ms \<and> plain_names ns"
  by (auto simp: plain_names_def)

lemma plain_nameD: "plain_name n \<Longrightarrow> n \<noteq> '''' \<and> CHR ''/'' \<notin> set n \<and> n \<noteq> ''.''"
  by (auto simp: plain_name_def list_all_iff)

section \<open>The names of a path\<close>

lemma split_by_sep: "P c \<Longrightarrow> split_by P (s @ c # t) = split_by P s @ split_by P t"
proof (induction s)
  case (Cons a s)
  then show ?case using split_by_nonempty [of P s] by (auto split: list.splits)
qed simp

lemma split_by_one: "\<forall>c\<in>set s. \<not> P c \<Longrightarrow> split_by P s = [s]"
  by (induction s) auto

lemma path_names_append: "path_names (p @ CHR ''/'' # q) = path_names p @ path_names q"
  by (simp add: path_names_def split_on_def split_by_sep)

lemma path_names_Nil [simp]: "path_names [] = []"
  by (simp add: path_names_def split_on_def)

lemma path_names_slash: "path_names (CHR ''/'' # q) = path_names q"
  using path_names_append [of "[]" q] by simp

lemma path_names_one: "plain_name x \<Longrightarrow> path_names x = [x]"
proof -
  assume "plain_name x"
  then have x: "x \<noteq> ''''" "CHR ''/'' \<notin> set x" "x \<noteq> ''.''" using plain_nameD by blast+
  then have "split_by (\<lambda>c. c = CHR ''/'') x = [x]" by (intro split_by_one) auto
  with x(1,3) show ?thesis by (simp add: path_names_def split_on_def)
qed

lemma path_names_of [simp]: "plain_names ns \<Longrightarrow> path_names (path_of ns) = ns"
proof (induction ns rule: rev_induct)
  case (snoc n ns)
  then show ?case using path_names_append [of "path_of ns" n] by (simp add: path_names_one)
qed simp

lemma path_of_inj: "plain_names ms \<Longrightarrow> plain_names ns \<Longrightarrow> path_of ms = path_of ns \<longleftrightarrow> ms = ns"
  by (metis path_names_of)

lemma names_no_slash: "n \<in> set (path_names s) \<Longrightarrow> CHR ''/'' \<notin> set n \<and> n \<noteq> '''' \<and> n \<noteq> ''.''"
  using split_by_no_sep [of n "\<lambda>c. c = CHR ''/''" s] by (auto simp: path_names_def split_on_def)

lemma names_join:
  assumes "\<forall>n\<in>set ns. CHR ''/'' \<notin> set n \<and> n \<noteq> '''' \<and> n \<noteq> ''.''"
  shows "path_names (join ''/'' ns) = ns"
proof -
  have "split_by (\<lambda>c. c = CHR ''/'') (join ''/'' ns) = ns" if "ns \<noteq> []"
    using that assms
  proof (induction ns)
    case (Cons n ns)
    then have n: "split_by (\<lambda>c. c = CHR ''/'') n = [n]" by (intro split_by_one) auto
    show ?case
    proof (cases ns)
      case (Cons m ms)
      with Cons.IH Cons.prems n show ?thesis by (simp add: split_by_sep)
    qed (simp add: n)
  qed simp
  with assms show ?thesis by (cases "ns = []") (auto simp: path_names_def split_on_def filter_id_conv)
qed

lemma names_str [simp]: "path_names (path_str s) = path_names s"
proof -
  have j: "path_names (join ''/'' (path_names s)) = path_names s"
    by (rule names_join) (auto dest: names_no_slash)
  have "path_names ''.'' = []" by (simp add: path_names_def split_on_def)
  then show ?thesis by (auto simp: path_str_def path_root_def j path_names_slash)
qed

lemma plain_root: "plain_name x \<Longrightarrow> path_root x = ''''"
  by (cases x) (auto simp: path_root_def startswith_def dest: plain_nameD)

lemma names_div: "plain_name x \<Longrightarrow> path_names (path_div p x) = path_names p @ [x]"
  by (simp add: path_div_def plain_root path_names_one path_names_append)

lemma names_under: "under p q \<Longrightarrow> prefix (path_names p) (path_names q)"
  by (auto simp: under_def startswith_iff path_names_append)

lemma names_ancestor: "a \<in> set (ancestors q) \<Longrightarrow> prefix (path_names a) (path_names q)"
proof -
  assume "a \<in> set (ancestors q)"
  then consider "a = ''/''" | i where "a = take i q" "i < length q" "q ! i = CHR ''/''"
    by (auto simp: ancestors_def)
  then show ?thesis
  proof cases
    case 1
    then show ?thesis using path_names_slash [of "[]"] by simp
  next
    case 2
    then have "q = a @ CHR ''/'' # drop (Suc i) q" using id_take_nth_drop [of i q] by simp
    then show ?thesis by (metis path_names_append prefixI)
  qed
qed

section \<open>Absolute paths with plain names\<close>

lemma join_path: "ns \<noteq> [] \<Longrightarrow> CHR ''/'' # join ''/'' ns = path_of ns"
proof (induction ns)
  case (Cons n ns)
  then show ?case by (cases ns) auto
qed simp

lemma path_root_of: "plain_names ns \<Longrightarrow> ns \<noteq> [] \<Longrightarrow> path_root (path_of ns) = ''/''"
proof -
  assume "plain_names ns" "ns \<noteq> []"
  then obtain n ms where n: "ns = n # ms" "plain_name n" by (cases ns) auto
  then obtain c t where "n = c # t" "c \<noteq> CHR ''/''" using plain_nameD [OF n(2)] by (cases n) auto
  with n show ?thesis by (simp add: path_root_def startswith_def)
qed

lemma path_str_of: "plain_names ns \<Longrightarrow> ns \<noteq> [] \<Longrightarrow> path_str (path_of ns) = path_of ns"
  using join_path [of ns] by (simp add: path_str_def path_root_of)

lemma path_div_of:
  assumes "plain_names ns" "ns \<noteq> []" "plain_name x"
  shows "path_div (path_of ns) x = path_of (ns @ [x])"
  using path_str_of [of "ns @ [x]"] assms by (simp add: path_div_def plain_root path_names_one)

lemma parent_of:
  assumes "plain_names ns" "ns \<noteq> []" "plain_name x"
  shows "path_parent (path_of (ns @ [x])) = path_of ns"
proof -
  have x: "\<forall>c\<in>set (rev x). c \<noteq> CHR ''/''" using plain_nameD [OF assms(3)] by auto
  then have "dropWhile (\<lambda>c. c \<noteq> CHR ''/'') (rev x @ CHR ''/'' # rev (path_of ns)) = CHR ''/'' # rev (path_of ns)"
    by (simp add: dropWhile_append)
  moreover have "path_of ns \<noteq> []" using assms(2) by (cases ns) auto
  ultimately show ?thesis by (simp add: path_parent_def)
qed

lemma under_of:
  assumes "plain_names ms" "plain_names ns"
  shows "under (path_of ms) (path_of ns) \<longleftrightarrow> strict_prefix ms ns"
proof
  assume u: "under (path_of ms) (path_of ns)"
  from names_under [OF u] assms have "prefix ms ns" by simp
  moreover have "ms \<noteq> ns" using u by (auto simp: under_def startswith_iff)
  ultimately show "strict_prefix ms ns" by (simp add: strict_prefix_def)
next
  assume "strict_prefix ms ns"
  then obtain c cs where "ns = ms @ c # cs" by (rule strict_prefixE')
  then show "under (path_of ms) (path_of ns)" by (simp add: under_def startswith_iff)
qed

text \<open>The ancestors of such a path are the root and the paths of its shorter prefixes.\<close>

lemma ancestors_snoc:
  assumes "ns \<noteq> []" "plain_name x"
  shows "ancestors (path_of (ns @ [x])) = ancestors (path_of ns) @ [path_of ns]"
proof -
  let ?p = "path_of ns" and ?q = "path_of ns @ CHR ''/'' # x"
  have l: "1 \<le> length ?p" using assms(1) by (cases ns) auto
  have cut: "[1..<length ?q] = [1..<length ?p] @ length ?p # [Suc (length ?p)..<length ?q]"
  proof -
    have "[1..<length ?q] = [1..<length ?p] @ [length ?p..<length ?q]"
      using upt_add_eq_append [OF l, of "length x + 1"] by (simp only: length_append list.size add_Suc_right add_0_right add_0 Suc_eq_plus1 add.assoc)
    moreover have "length ?p < length ?q" by simp
    ultimately show ?thesis by (simp only: upt_conv_Cons)
  qed
  have rest: "filter (\<lambda>i. ?q ! i = CHR ''/'') [Suc (length ?p)..<length ?q] = []"
    unfolding filter_empty_conv
  proof
    fix i assume "i \<in> set [Suc (length ?p)..<length ?q]"
    then obtain k where "i = Suc (length ?p) + k" "k < length x"
      by (metis add_Suc_right add_Suc_shift atLeastLessThan_iff le_Suc_ex length_Cons length_append nat_add_left_cancel_less set_upt Suc_less_eq)
    then have "?q ! i = x ! k" "k < length x" by (simp_all add: nth_append)
    with plain_nameD [OF assms(2)] show "?q ! i \<noteq> CHR ''/''" by (metis nth_mem)
  qed
  have old: "filter (\<lambda>i. ?q ! i = CHR ''/'') [1..<length ?p] = filter (\<lambda>i. ?p ! i = CHR ''/'') [1..<length ?p]"
    by (rule filter_cong) (auto simp: nth_append)
  have nth: "?q ! length ?p = CHR ''/''" by simp
  have take: "map (\<lambda>i. take i ?q) (filter (\<lambda>i. ?p ! i = CHR ''/'') [1..<length ?p]) =
      map (\<lambda>i. take i ?p) (filter (\<lambda>i. ?p ! i = CHR ''/'') [1..<length ?p])"
    by (rule map_cong) auto
  have "path_of (ns @ [x]) = ?q" by simp
  then show ?thesis
    unfolding ancestors_def by (simp only: cut filter_append filter.simps nth rest old map_append take if_True list.map) simp
qed

end
