(* ===== verification/KeptFiles.thy ===== *)
theory KeptFiles
  imports JobFrames PathNames
begin

text \<open>
  A file that no process touches and that is not on the way to, or below, the paths a job
  writes to: it stays as it is, whatever the job does.
\<close>

definition leaves :: "string \<Rightarrow> host \<Rightarrow> bool" where
  "leaves p h \<longleftrightarrow> (\<forall>w pr. map_of (snd (h_run h w pr)) p = map_of (w_fs w) p)"

definition same_node :: "string \<Rightarrow> world \<Rightarrow> world \<Rightarrow> bool" where
  "same_node p w w' \<longleftrightarrow> map_of (w_fs w') p = map_of (w_fs w) p"

definition apart :: "string \<Rightarrow> string \<Rightarrow> bool" where
  "apart p q \<longleftrightarrow> parallel (path_names p) (path_names q)"

lemma apart_neq: "apart p q \<Longrightarrow> p \<noteq> q"
  by (auto simp: apart_def)

lemma apart_prefix: "apart p q \<Longrightarrow> prefix (path_names q) (path_names r) \<Longrightarrow> apart p r"
  unfolding apart_def by (metis parallelD1 parallelD2 parallelI prefix_order.trans prefix_same_cases)

lemma apart_under: "apart p q \<Longrightarrow> under q r \<Longrightarrow> apart p r"
  using apart_prefix names_under by blast

lemma apart_below: "apart p q \<Longrightarrow> apart p (q @ CHR ''/'' # r)"
  by (erule apart_prefix) (simp add: path_names_append)

lemma apart_not_under: "apart p q \<Longrightarrow> \<not> under q p"
  using apart_under apart_neq by blast

lemma apart_ancestor: "apart p q \<Longrightarrow> p \<notin> set (ancestors q)"
  using names_ancestor by (auto simp: apart_def parallel_def)

lemma map_of_filter_key: "P k \<Longrightarrow> map_of (filter (\<lambda>(q, _). P q) d) k = map_of d k"
  by (induction d) auto

lemma map_of_rename:
  assumes "\<And>q. f q = k \<longleftrightarrow> q = k"
  shows "map_of (map (\<lambda>(q, n). (f q, n)) d) k = map_of d k"
proof (induction d)
  case (Cons x d)
  then show ?case using assms [of "fst x"] by (cases x) auto
qed simp

lemma fold_add_dir: "k \<notin> set ps \<Longrightarrow> map_of (fold add_dir ps fs) k = map_of fs k"
  by (induction ps arbitrary: fs) (auto simp: add_dir_def dict_simps)

lemma fold_copy: "k \<notin> fst ` set ns \<Longrightarrow> map_of (fold (\<lambda>(q, n). dset q n) ns fs) k = map_of fs k"
  by (induction ns arbitrary: fs) (auto simp: dict_simps)

lemma copied_below:
  "x \<in> set (copied i src dst fs) \<Longrightarrow> \<exists>r. fst x = dst @ CHR ''/'' # r"
  by (auto simp: copied_def List.map_filter_def under_def startswith_iff split: if_splits)

text \<open>The operations on the files, one by one.\<close>

named_theorems kept_fs \<open>file operations that leave a path alone\<close>

lemma kept_rmtree [kept_fs]: "fs_rmtree q fs = Inr fs' \<Longrightarrow> apart p q \<Longrightarrow> map_of fs' p = map_of fs p"
  by (auto simp: fs_rmtree_def map_of_filter_key apart_neq apart_not_under split: option.splits fnode.splits)

lemma kept_unlink [kept_fs]: "fs_unlink q fs = Inr fs' \<Longrightarrow> apart p q \<Longrightarrow> map_of fs' p = map_of fs p"
  by (auto simp: fs_unlink_def map_of_filter_key apart_neq split: option.splits fnode.splits)

lemma kept_mkdir [kept_fs]: "fs_mkdir b q fs = Inr fs' \<Longrightarrow> apart p q \<Longrightarrow> map_of fs' p = map_of fs p"
  by (auto simp: fs_mkdir_def fold_add_dir apart_ancestor apart_neq simp del: fold_append
      split: option.splits fnode.splits if_splits)

lemma kept_write [kept_fs]: "fs_write q t fs = Inr fs' \<Longrightarrow> apart p q \<Longrightarrow> map_of fs' p = map_of fs p"
  by (auto simp: fs_write_def dict_simps dest: apart_neq split: if_splits)

lemma kept_append [kept_fs]: "apart p q \<Longrightarrow> map_of (fs_append q t fs) p = map_of fs p"
  by (auto simp: fs_append_def dict_simps dest: apart_neq split: option.splits fnode.splits)

lemma kept_rename [kept_fs]:
  assumes "fs_rename a b fs = Inr fs'" "apart p a" "apart p b"
  shows "map_of fs' p = map_of fs p"
proof -
  let ?f = "\<lambda>q. if q = a \<or> under a q then b @ drop (length a) q else q"
  have fs': "fs' = map (\<lambda>(q, n). (?f q, n)) fs" using assms(1) by (auto simp: fs_rename_def split: if_splits)
  have n: "p \<noteq> a" "p \<noteq> b" "\<not> under a p" and b: "\<forall>r. p \<noteq> b @ CHR ''/'' # r"
    using assms(2,3) apart_neq apart_not_under apart_below by blast+
  have "?f q = p \<longleftrightarrow> q = p" for q
    using n b by (auto simp: under_def startswith_iff)
  then show ?thesis unfolding fs' by (rule map_of_rename)
qed

lemma kept_copytree [kept_fs]:
  assumes "fs_copytree i a b fs = Inr fs'" "apart p b"
  shows "map_of fs' p = map_of fs p"
proof -
  from assms(1) obtain fs0 where fs0: "fs_mkdir False b fs = Inr fs0" "fs' = fold (\<lambda>(q, n). dset q n) (copied i a b fs) fs0"
    by (auto simp: fs_copytree_def split: option.splits fnode.splits sum.splits)
  have "p \<notin> fst ` set (copied i a b fs)"
    using apart_neq [OF apart_below [OF assms(2)]] by (auto dest!: copied_below)
  with fs0 kept_mkdir [OF fs0(1) assms(2)] show ?thesis by (simp add: fold_copy)
qed

lemma keeps_os_node:
  assumes "\<And>fs fs'. f fs = Inr fs' \<Longrightarrow> map_of fs' p = map_of fs p"
  shows "keeps H (same_node p) (osA f)"
  using assms by (auto simp: keeps_def osA_def same_node_def Let_def split: option.splits sum.splits)

interpretation kept: file_frame "leaves p" "same_node p" "apart p" for p
proof (unfold_locales, goal_cases)
  case 1 show ?case by (simp add: same_node_def)
next
  case 2 then show ?case by (simp add: same_node_def)
next
  case (11 pr)
  show ?case
  proof (rule keepsI)
    fix h w assume "leaves p h"
    then have "map_of (snd (h_run h w pr)) p = map_of (w_fs w) p" by (simp add: leaves_def)
    then show "same_node p w (snd (procA pr h w))"
      by (auto simp: procA_def same_node_def Let_def split: prod.splits proc_end.splits)
  qed
next
  case (14 q x)
  then show ?case by (auto intro: apart_prefix simp: names_div)
next
  case (15 q c fs)
  then show ?case by (auto simp: children_def intro: apart_under)
next
  case (12 row)
  show ?case by (simp add: keeps_def rowA_def same_node_def)
next
  case 13
  show ?case by (simp add: keeps_def same_node_def)
next
  case (10 C e)
  show ?case by (rule keeps_os_node) (auto split: if_splits)
qed (auto simp: rmtreeA_def unlinkA_def mkdirA_def writeA_def appendA_def intro!: keeps_os_node dest: kept_fs)

end
