(* ===== verification/BatchTrace.thy ===== *)
theory BatchTrace
  imports BatchJobs KeptFiles
begin

text \<open>
  What a job does, in order, when no exception stops it: the processes it starts and the rows
  of its run time file.
\<close>

section \<open>Actions on files only\<close>

definition files_only :: "world \<Rightarrow> world \<Rightarrow> bool" where
  "files_only w w' \<longleftrightarrow> w_procs w' = w_procs w \<and> w_rows w' = w_rows w"

interpretation files_frame: frame "\<lambda>_. True" files_only
  by unfold_locales (simp_all add: files_only_def)

lemma files_only_os: "keeps (\<lambda>_. True) files_only (osA f)"
  by (simp add: keeps_def osA_def files_only_def Let_def split: option.splits sum.splits)

lemmas os_actions = rmtreeA_def unlinkA_def mkdirA_def writeA_def appendA_def existsA_def removeA_def

lemma files_only_actions:
  "keeps (\<lambda>_. True) files_only (removeA p)" "keeps (\<lambda>_. True) files_only (mkdirA b p)"
  "keeps (\<lambda>_. True) files_only (writeA p t)" "keeps (\<lambda>_. True) files_only (appendA p t)"
  "keeps (\<lambda>_. True) files_only (copy_source p q)" "keeps (\<lambda>_. True) files_only (write_bench_inputs p)"
  unfolding os_actions copy_source_def write_bench_inputs_def write_tree_file_def Let_def
  by (intro files_frame.keeps_rules files_only_os | clarify)+

text \<open>Processes are only added to the record of those that were started.\<close>

definition procs_grow :: "world \<Rightarrow> world \<Rightarrow> bool" where
  "procs_grow w w' \<longleftrightarrow> (\<exists>ps. w_procs w' = w_procs w @ ps)"

interpretation grow_frame: file_frame "\<lambda>_. True" procs_grow "\<lambda>_. True"
proof (unfold_locales, goal_cases)
  case 1
  show ?case by (simp add: procs_grow_def)
next
  case (2 u v w)
  then show ?case by (auto simp: procs_grow_def)
next
  case (11 pr)
  show ?case by (auto simp: keeps_def procs_grow_def procA_def Let_def split: prod.splits proc_end.splits)
next
  case (12 row)
  show ?case by (auto simp: keeps_def procs_grow_def rowA_def)
qed (auto simp: keeps_def procs_grow_def osA_def rmtreeA_def unlinkA_def mkdirA_def writeA_def appendA_def Let_def
    split: option.splits sum.splits)

section \<open>Inversion\<close>

lemma then_Inr:
  assumes "thenA m n h w = (Inr x, w')"
  obtains u where "m h w = (Inr (), u)" "n h u = (Inr x, w')"
  using assms by (auto elim!: thenA_cases)

lemma bind_Inr:
  assumes "bindA m f h w = (Inr x, w')"
  obtains y u where "m h w = (Inr y, u)" "f y h u = (Inr x, w')"
  using assms by (auto elim!: bindA_cases)

lemma files_thenD:
  assumes "thenA m n h w = (Inr x, w')" "keeps (\<lambda>_. True) files_only m"
  obtains u where "n h u = (Inr x, w')" "w_procs u = w_procs w" "w_rows u = w_rows w"
  using then_Inr [OF assms(1)] keepsD [OF assms(2) TrueI] by (metis files_only_def)

lemma bind_environ: "bindA environA f h w = f (h_environ h) h w"
  by (simp add: environA_def bindA_def getA_def)

lemma bind_exists: "bindA (existsA p) f h w = f (map_of (w_fs w) p \<noteq> None) h w"
  by (simp add: existsA_def bindA_def getA_def)

lemma bind_environE:
  assumes "bindA environA f h w = (r, w')"
  obtains "f (h_environ h) h w = (r, w')"
  using assms by (simp add: bind_environ)

lemma return_Inr [simp]: "returnA x h w = (Inr y, w') \<longleftrightarrow> y = x \<and> w' = w"
  by (auto simp: returnA_def)

lemma failing_Inr [simp]: "failing rc m h w = (Inr x, w') \<longleftrightarrow> rc = 0 \<and> w' = w"
  by (auto simp: failing_def returnA_def raiseA_def)

lemma procA_Inr:
  "procA p h w = (Inr rc, w') \<Longrightarrow> w_procs w' = w_procs w @ [(p, Exited rc)] \<and> w_rows w' = w_rows w"
  by (auto simp: procA_def Let_def split: prod.splits proc_end.splits)

lemma sh_Inr:
  assumes "sh c d e l t h w = (Inr rc, w')"
  shows "w_procs w' = w_procs w @ [(bash c d e l t, Exited rc)] \<and> w_rows w' = w_rows w"
  using assms unfolding sh_def
  by (rule files_thenD [OF _ files_only_actions(4)]) (auto dest: procA_Inr)

section \<open>Builds\<close>

definition build_proc ::
  "environ \<Rightarrow> string \<Rightarrow> project \<Rightarrow> string \<Rightarrow> string \<Rightarrow> string \<Rightarrow> bool \<Rightarrow> batch_args \<Rightarrow> string \<Rightarrow> proc" where
  "build_proc env name project out_root label sanitizer disable args logf =
     bash (the (pj_build project)) (build_dir_of out_root label)
       (Some (base_env env sanitizer disable (path_div out_root label) name (ba_jobs args))) logf (ba_build_timeout args)"

lemma build_Inr:
  assumes "build_variant name project src out_root label sanitizer disable (ba_jobs args) logf
      (ba_build_timeout args) h w = (Inr dir, w')"
  shows "dir = build_dir_of out_root label" "w_rows w' = w_rows w"
    "w_procs w' = w_procs w @
       [(build_proc (h_environ h) name project out_root label sanitizer disable args logf, Exited 0)]"
proof -
  let ?env = "base_env (h_environ h) sanitizer disable (path_div out_root label) name (ba_jobs args)"
  let ?rest = "\<lambda>command. bindA (sh command (build_dir_of out_root label) (Some ?env) logf (ba_build_timeout args)) (\<lambda>rc.
      thenA (failing rc (name @ '' '' @ label @ '' build failed with '' @ show_int rc))
     (thenA (appendA logf (''=== '' @ name @ '' '' @ label @ '' build done ==='' @ [NL]))
     (returnA (build_dir_of out_root label))))"
  note a = assms [unfolded build_variant_def Let_def]
  obtain ua where ua: "w_procs ua = w_procs w" "w_rows ua = w_rows w" and
    b: "thenA (mkdirA True (path_div out_root label)) (bindA environA (\<lambda>env0.
      thenA (appendA logf (''=== '' @ name @ '' '' @ label @ '' build ==='' @ [NL]))
     (bindA (keyA ''build'' (pj_build project)) (\<lambda>command.
      bindA (sh command (build_dir_of out_root label) (Some (base_env env0 sanitizer disable (path_div out_root label)
        name (ba_jobs args))) logf (ba_build_timeout args)) (\<lambda>rc.
      thenA (failing rc (name @ '' '' @ label @ '' build failed with '' @ show_int rc))
     (thenA (appendA logf (''=== '' @ name @ '' '' @ label @ '' build done ==='' @ [NL]))
     (returnA (build_dir_of out_root label)))))))) h ua = (Inr dir, w')"
    by (rule files_thenD [OF a files_only_actions(5)])
  obtain ub where ub: "w_procs ub = w_procs ua" "w_rows ub = w_rows ua" and
    c: "thenA (appendA logf (''=== '' @ name @ '' '' @ label @ '' build ==='' @ [NL]))
      (bindA (keyA ''build'' (pj_build project)) ?rest) h ub = (Inr dir, w')"
    by (rule files_thenD [OF b files_only_actions(2)], simp only: bind_environ)
  obtain u1 where uc: "w_procs u1 = w_procs ub" "w_rows u1 = w_rows ub"
    and u1_3: "bindA (keyA ''build'' (pj_build project)) ?rest h u1 = (Inr dir, w')"
    by (rule files_thenD [OF c files_only_actions(4)])
  have u1: "w_procs u1 = w_procs w" "w_rows u1 = w_rows w"
    by (simp_all only: ua ub uc)
  note u1 = u1 u1_3
  from u1(3) obtain command where cmd: "pj_build project = Some command"
    by (cases "pj_build project") (auto simp: keyA_def bindA_def raiseA_def)
  with u1(3) have "?rest command h u1 = (Inr dir, w')" by (simp only: bind_key_Some)
  then obtain rc u2 where
    s: "sh command (build_dir_of out_root label) (Some ?env) logf (ba_build_timeout args) h u1 = (Inr rc, u2)" and
    r: "thenA (failing rc (name @ '' '' @ label @ '' build failed with '' @ show_int rc))
     (thenA (appendA logf (''=== '' @ name @ '' '' @ label @ '' build done ==='' @ [NL]))
     (returnA (build_dir_of out_root label))) h u2 = (Inr dir, w')"
    by (elim bind_Inr)
  obtain u3 where u3: "rc = 0 \<and> u3 = u2" and
    e: "thenA (appendA logf (''=== '' @ name @ '' '' @ label @ '' build done ==='' @ [NL]))
     (returnA (build_dir_of out_root label)) h u3 = (Inr dir, w')"
    by (rule then_Inr [OF r], simp only: failing_Inr)
  obtain u4 where u4: "returnA (build_dir_of out_root label) h u4 = (Inr dir, w')"
    "w_procs u4 = w_procs u3" "w_rows u4 = w_rows u3"
    by (rule files_thenD [OF e files_only_actions(4)])
  from u4 u3 show "dir = build_dir_of out_root label" "w_rows w' = w_rows w"
    "w_procs w' = w_procs w @
       [(build_proc (h_environ h) name project out_root label sanitizer disable args logf, Exited 0)]"
    using sh_Inr [OF s] u1(1,2) cmd by (simp_all add: build_proc_def)
qed

section \<open>Runs\<close>

lemma catch_sh_Inr:
  assumes "catch_timeout (sh c d en l t) h w = (Inr rc, w')"
  obtains e where "w_procs w' = w_procs w @ [(bash c d en l t, e)]" "w_rows w' = w_rows w" "rc = 0 \<longleftrightarrow> e = Exited 0"
proof -
  obtain q u where a: "appendA l (''$ '' @ c @ [NL]) h w = (q, u)" by (cases "appendA l (''$ '' @ c @ [NL]) h w")
  have u: "w_procs u = w_procs w" "w_rows u = w_rows w"
    using keepsD [OF files_only_actions(4) TrueI a] by (simp_all add: files_only_def)
  obtain e fs where r: "h_run h u (bash c d en l t) = (e, fs)" by (cases "h_run h u (bash c d en l t)")
  show thesis
  proof (cases q)
    case (Inl x)
    with a have "\<exists>m. x = OsErr m"
      by (auto simp: appendA_def osA_def Let_def split: option.splits sum.splits)
    with assms a Inl show thesis
      by (auto simp: catch_timeout_def tryA_def sh_def thenA_def bindA_def raiseA_def)
  next
    case (Inr x)
    with assms a r u show thesis
      by (intro that [of e]; cases e)
        (auto simp: catch_timeout_def tryA_def sh_def thenA_def bindA_def raiseA_def procA_def Let_def)
  qed
qed

definition run_row :: "string \<Rightarrow> int \<Rightarrow> proc_end \<times> pyfloat \<Rightarrow> string list" where
  "run_row label i = (\<lambda>(e, t). [label, show_int i, if e = Exited 0 then ''S'' else ''RE'', fmt_fixed 6 t])"

definition missing_row :: "string \<Rightarrow> int \<Rightarrow> string list" where
  "missing_row label i = [label, show_int i, ''NR'', '''']"

lemma timed_run_Inr:
  assumes "timed_run label c d env l t i h w = (Inr (), w')"
  obtains e x where "w_procs w' = w_procs w @ [(bash (''set -e; '' @ c) d (Some env) l t, e)]"
    "w_rows w' = w_rows w @ [run_row label i (e, x)]"
proof -
  from assms obtain rc u where
    s: "catch_timeout (sh (''set -e; '' @ c) d (Some env) l t) h w = (Inr rc, u)" and
    r: "w' = u\<lparr>w_rows := w_rows u @ [[label, show_int i, if rc = 0 then ''S'' else ''RE'',
        fmt_fixed 6 (h_clock h (w_tick u) - h_clock h (w_tick w))]]\<rparr>"
    unfolding timed_run_def clockA_def getA_def rowA_def
    by (auto simp: bindA_def split: prod.splits sum.splits)
  from catch_sh_Inr [OF s] obtain e where
    "w_procs u = w_procs w @ [(bash (''set -e; '' @ c) d (Some env) l t, e)]" "w_rows u = w_rows w"
    "rc = 0 \<longleftrightarrow> e = Exited 0" .
  with r show thesis by (intro that) (auto simp: run_row_def)
qed

lemma runs_Inr:
  assumes "forA (timed_run label c d env l t) is h w = (Inr (), w')"
  shows "\<exists>rs. length rs = length is \<and>
    w_procs w' = w_procs w @ map (\<lambda>(e, x). (bash (''set -e; '' @ c) d (Some env) l t, e)) rs \<and>
    w_rows w' = w_rows w @ map2 (run_row label) is rs"
  using assms
proof (induction "is" arbitrary: w)
  case (Cons i "is")
  from Cons.prems obtain u where
    u: "timed_run label c d env l t i h w = (Inr (), u)" "forA (timed_run label c d env l t) is h u = (Inr (), w')"
    unfolding forA.simps by (rule then_Inr)
  from timed_run_Inr [OF u(1)] obtain e x where ex:
    "w_procs u = w_procs w @ [(bash (''set -e; '' @ c) d (Some env) l t, e)]"
    "w_rows u = w_rows w @ [run_row label i (e, x)]" .
  from Cons.IH [OF u(2)] obtain rs where rs: "length rs = length is"
    "w_procs w' = w_procs u @ map (\<lambda>(e, x). (bash (''set -e; '' @ c) d (Some env) l t, e)) rs"
    "w_rows w' = w_rows u @ map2 (run_row label) is rs" by blast
  with ex show ?case by (intro exI [of _ "(e, x) # rs"]) simp
qed simp

lemma rows_for_Inr:
  "forA (\<lambda>i. rowA (f i)) is h w = (Inr (), w') \<Longrightarrow> w_procs w' = w_procs w \<and> w_rows w' = w_rows w @ map f is"
  by (induction "is" arbitrary: w) (auto simp: rowA_def thenA_def bindA_def)

definition run_proc :: "environ \<Rightarrow> project \<Rightarrow> string \<Rightarrow> string \<Rightarrow> batch_args \<Rightarrow> string \<Rightarrow> proc" where
  "run_proc env project bench dir args logf =
     bash (''set -e; '' @ the (pj_run project)) dir
       (Some (run_vars bench (ba_loops args)
          (with_vars [(''APP'', path_div dir (the (pj_artifact project))), (''BUILD'', dir)] env))) logf (ba_run_timeout args)"

text \<open>
  What the runs of a variant add to the processes and to the rows: nothing and rows without a
  time when the artifact is missing, otherwise one process and one row for each run.
\<close>

definition variant_measured :: "string \<Rightarrow> int \<Rightarrow> proc \<Rightarrow> (proc \<times> proc_end) list \<Rightarrow> string list list \<Rightarrow> bool" where
  "variant_measured label runs p ps rows \<longleftrightarrow>
     (ps = [] \<and> rows = map (missing_row label) (run_numbers runs)) \<or>
     (\<exists>rs. length rs = nat runs \<and> ps = map (\<lambda>(e, x). (p, e)) rs \<and> rows = map2 (run_row label) (run_numbers runs) rs)"

lemma length_run_numbers [simp]: "length (run_numbers runs) = nat runs"
  by (simp add: run_numbers_def)

lemma run_runtime_Inr:
  assumes "run_runtime name project label dir bench (ba_runs args) (ba_loops args) (ba_run_timeout args) logf h w = (Inr (), w')"
    and "complete_project project"
  obtains ps rows where "w_procs w' = w_procs w @ ps" "w_rows w' = w_rows w @ rows"
    "variant_measured label (ba_runs args) (run_proc (h_environ h) project bench dir args logf) ps rows"
proof -
  from assms(2) obtain artifact command where
    p: "pj_artifact project = Some artifact" "artifact \<noteq> ''''" "pj_run project = Some command"
    by (auto simp: complete_project_def)
  let ?app = "path_div dir artifact"
  show thesis
  proof (cases "map_of (w_fs w) ?app = None")
    case True
    with assms(1) p have "thenA (appendA logf (''missing artifact for '' @ name @ '' '' @ label @ '': '' @ ?app @ [NL]))
          (forA (\<lambda>run. rowA [label, show_int run, ''NR'', '''']) (run_numbers (ba_runs args))) h w = (Inr (), w')"
      by (simp add: run_runtime_def measure_runs_def bind_exists Let_def)
    then obtain u where
      u: "forA (\<lambda>i. rowA [label, show_int i, ''NR'', '''']) (run_numbers (ba_runs args)) h u = (Inr (), w')"
      "w_procs u = w_procs w" "w_rows u = w_rows w"
      by (rule files_thenD [OF _ files_only_actions(4)])
    from rows_for_Inr [OF u(1)] u(2,3) show thesis
      by (intro that [of "[]" "map (missing_row label) (run_numbers (ba_runs args))"])
        (auto simp: variant_measured_def missing_row_def)
  next
    case False
    with assms(1) p have "forA (timed_run label command dir (run_vars bench (ba_loops args)
        (with_vars [(''APP'', ?app), (''BUILD'', dir)] (h_environ h))) logf (ba_run_timeout args))
        (run_numbers (ba_runs args)) h w = (Inr (), w')"
      by (simp add: run_runtime_def measure_runs_def bind_exists bind_environ Let_def)
    from runs_Inr [OF this] obtain rs where rs: "length rs = nat (ba_runs args)"
      "w_procs w' = w_procs w @ map (\<lambda>(e, x). (run_proc (h_environ h) project bench dir args logf, e)) rs"
      "w_rows w' = w_rows w @ map2 (run_row label) (run_numbers (ba_runs args)) rs"
      by (auto simp: run_proc_def p)
    then show thesis by (intro that) (auto simp: variant_measured_def)
  qed
qed

section \<open>A whole job\<close>

lemma osA_Inr: "osA f h w = (Inr (), w') \<Longrightarrow> f (w_fs w) = Inr (w_fs w')"
  by (auto simp: osA_def Let_def split: option.splits sum.splits)

lemma writeA_file: "writeA p t h w = (Inr (), w') \<Longrightarrow> map_of (w_fs w') p = Some (File t)"
proof -
  assume "writeA p t h w = (Inr (), w')"
  then have "w_fs w' = dset p (File t) (w_fs w)"
    unfolding writeA_def by (auto simp: fs_write_def dest!: osA_Inr split: if_splits)
  then show ?thesis by (simp add: dict_simps)
qed

lemma appendA_file:
  assumes "appendA p t h w = (Inr (), w')" "map_of (w_fs w) p = Some (File s)"
  shows "map_of (w_fs w') p = Some (File (s @ t))"
proof -
  from assms have "w_fs w' = dset p (File (s @ t)) (w_fs w)"
    unfolding appendA_def by (auto simp: fs_append_def dest!: osA_Inr)
  then show ?thesis by (simp add: dict_simps)
qed

text \<open>The run time file is empty when the rows are collected, and holds them in the end.\<close>

lemma csvA_Inr:
  assumes "csvA path m h w = (Inr x, w')"
  obtains u v where "m h u = (Inr (), v)" "w_rows u = []" "w_procs u = w_procs w"
    "w_procs w' = w_procs v" "w_rows w' = w_rows v"
    "map_of (w_fs v) path = map_of (w_fs u) path \<longrightarrow>
      map_of (w_fs w') path = Some (File (rows_text (CHR '','') (w_rows v)))"
proof -
  obtain u0 where
    a: "thenA (\<lambda>h w. (Inr (), w\<lparr>w_rows := []\<rparr>))
         (withA m (bindA (getA (\<lambda>h w. rows_text (CHR '','') (w_rows w))) (\<lambda>t. appendA path t))) h u0 = (Inr x, w')"
    "writeA path '''' h w = (Inr (), u0)"
    using assms unfolding csvA_def by (rule then_Inr)
  from keepsD [OF files_only_actions(3) TrueI a(2)] have u0: "w_procs u0 = w_procs w" by (simp add: files_only_def)
  let ?u = "u0\<lparr>w_rows := []\<rparr>"
  from a(1) obtain v where v: "m h ?u = (Inr (), v)"
    "appendA path (rows_text (CHR '','') (w_rows v)) h v = (Inr (), w')"
    by (auto simp: thenA_def bindA_def withA_def getA_def split: prod.splits sum.splits)
  from keepsD [OF files_only_actions(4) TrueI v(2)] have "w_procs w' = w_procs v" "w_rows w' = w_rows v"
    by (simp_all add: files_only_def)
  moreover have "map_of (w_fs w') path = Some (File (rows_text (CHR '','') (w_rows v)))"
    if "map_of (w_fs v) path = map_of (w_fs ?u) path"
    using that writeA_file [OF a(2)] appendA_file [OF v(2), of "[]"] by simp
  ultimately show thesis using v(1) u0 by (intro that [of ?u v]) simp_all
qed

lemma summarize_Inr:
  assumes "summarize name sanitizer out_root h w = (Inr x, w')" "map_of SANITIZERS sanitizer = Some san"
  obtains e where "w_procs w' = w_procs w @
    [(\<lparr>pr_argv = summary_argv name sanitizer san out_root, pr_cwd = ROOT, pr_env = None, pr_timeout = None,
       pr_out = summary_file name sanitizer ''summary.md''\<rparr>, e)]"
proof -
  from assms have "thenA (writeA (summary_file name sanitizer ''summary.md'') '''')
        (bindA (procA \<lparr>pr_argv = summary_argv name sanitizer san out_root, pr_cwd = ROOT, pr_env = None,
            pr_timeout = None, pr_out = summary_file name sanitizer ''summary.md''\<rparr>) (\<lambda>_. returnA ())) h w = (Inr x, w')"
    by (simp only: summarize_def bind_key_Some Let_def)
  then obtain u where
    u: "bindA (procA \<lparr>pr_argv = summary_argv name sanitizer san out_root, pr_cwd = ROOT, pr_env = None,
            pr_timeout = None, pr_out = summary_file name sanitizer ''summary.md''\<rparr>) (\<lambda>_. returnA ()) h u = (Inr x, w')"
    "w_procs u = w_procs w" "w_rows u = w_rows w"
    by (rule files_thenD [OF _ files_only_actions(3)])
  from bind_Inr [OF u(1)] obtain rc v where
    "procA \<lparr>pr_argv = summary_argv name sanitizer san out_root, pr_cwd = ROOT, pr_env = None,
            pr_timeout = None, pr_out = summary_file name sanitizer ''summary.md''\<rparr> h u = (Inr rc, v)"
    "returnA () h v = (Inr x, w')" .
  with procA_Inr [OF this(1)] u(2) show thesis by (intro that) simp
qed

text \<open>The processes of a job that ends well, after those that fetched the source.\<close>

definition job_trace ::
  "environ \<Rightarrow> string \<Rightarrow> string \<Rightarrow> project \<Rightarrow> sanitizer \<Rightarrow> batch_args \<Rightarrow> (proc \<times> proc_end) list \<Rightarrow> string list list \<Rightarrow> bool" where
  "job_trace env name sanitizer project san args ps rows \<longleftrightarrow>
     (let out_root = job_root name sanitizer; logf = job_log name sanitizer; bench = path_div out_root ''bench'';
          variants = [(''native'', ''none'', True), (sn_base_variant san, sanitizer, True), (''desan'', sanitizer, False)];
          build = (\<lambda>(label, s, disable). (build_proc env name project out_root label s disable args logf, Exited 0));
          run = (\<lambda>(label, s, disable). run_proc env project bench (build_dir_of out_root label) args logf) in
      \<exists>pss rss e. length pss = 3 \<and> length rss = 3 \<and>
        (\<forall>i<3. variant_measured (fst (variants ! i)) (ba_runs args) (run (variants ! i)) (pss ! i) (rss ! i)) \<and>
        ps = map build variants @ concat pss @
          [(\<lparr>pr_argv = summary_argv name sanitizer san out_root, pr_cwd = ROOT, pr_env = None,
             pr_timeout = None, pr_out = summary_file name sanitizer ''summary.md''\<rparr>, e)] \<and>
        rows = runtime_header # concat rss)"

definition job_times :: "string \<Rightarrow> string \<Rightarrow> string" where
  "job_times name sanitizer = path_div (job_root name sanitizer) ''runtime.csv''"

lemma sanitizer_names: "map_of SANITIZERS sanitizer = Some san \<Longrightarrow> sanitizer \<in> {''asan'', ''ubsan'', ''msan''}"
  by (auto simp: SANITIZERS_def split: if_splits)

lemma base_names: "path_names OUT_BASE = [''home'', ''dragon'', ''DESAN'', ''out'']"
  by code_simp

lemma plain_longer:
  assumes "plain_name s" "CHR ''/'' \<notin> set t" "2 \<le> length t"
  shows "plain_name (s @ t)"
proof -
  have "3 \<le> length (s @ t)" using assms plain_nameD [of s] by (cases s) auto
  then have "s @ t \<noteq> ''''" "s @ t \<noteq> ''.''" "s @ t \<noteq> ''..''" by fastforce+
  with assms show ?thesis unfolding plain_name_def by (auto simp: list_all_iff)
qed

lemma job_names_plain:
  assumes "plain_name name" "sanitizer \<in> {''asan'', ''ubsan'', ''msan''}"
  shows "plain_name (job_name name sanitizer)" "CHR ''/'' \<notin> set t \<Longrightarrow> plain_name (job_name name sanitizer @ ''-'' @ t)"
    "plain_name (name @ ''_'' @ sanitizer @ ''_after_read_check_elimination.nohup.log'')"
  unfolding job_name_def append_assoc
  by (rule plain_longer [OF assms(1)]; use assms(2) in auto)+

lemma parallel_simps [simp]:
  "parallel (xs @ ys) (xs @ zs) \<longleftrightarrow> parallel ys zs" "parallel (x # xs) (y # ys) \<longleftrightarrow> x \<noteq> y \<or> parallel xs ys"
  "\<not> parallel [] ys" "\<not> parallel xs []"
  by (auto simp: parallel_def)

lemma job_times_apart:
  assumes "plain_name name" "sanitizer \<in> {''asan'', ''ubsan'', ''msan''}"
  shows "apart (job_times name sanitizer) (job_log name sanitizer)"
    "apart (job_times name sanitizer) (summary_file name sanitizer ''summary.md'')"
proof -
  have n: "plain_name ''runtime.csv''" by (simp add: plain_name_def)
  have s: "plain_name (job_name name sanitizer @ ''-'' @ ''summary.md'')" using job_names_plain [OF assms] by simp
  show "apart (job_times name sanitizer) (job_log name sanitizer)"
    unfolding apart_def job_times_def job_root_def job_log_def names_div [OF n] names_div [OF job_names_plain(1) [OF assms]]
      names_div [OF job_names_plain(3) [OF assms]] base_names
    by (simp add: job_name_def)
  show "apart (job_times name sanitizer) (summary_file name sanitizer ''summary.md'')"
    unfolding apart_def job_times_def job_root_def summary_file_def names_div [OF n] names_div [OF job_names_plain(1) [OF assms]]
      names_div [OF s] base_names
    by simp
qed

lemma job_body_Inr:
  assumes body: "job_body name sanitizer project args h w = (Inr (), w')"
    and san: "map_of SANITIZERS sanitizer = Some san" and ok: "complete_project project"
    and name: "plain_name name"
  obtains prep ps rows where "w_procs w' = w_procs w @ prep @ ps"
    "job_trace (h_environ h) name sanitizer project san args ps rows"
    "leaves (job_times name sanitizer) h \<longrightarrow>
       map_of (w_fs w') (job_times name sanitizer) = Some (File (rows_text (CHR '','') rows))"
proof -
  let ?out = "job_root name sanitizer" and ?log = "job_log name sanitizer" and ?base = "sn_base_variant san"
  let ?bench = "path_div ?out ''bench''" and ?E = "h_environ h" and ?csv = "job_times name sanitizer"
  let ?build = "\<lambda>src label s d. build_variant name project src ?out label s d (ba_jobs args) ?log (ba_build_timeout args)"
  let ?run = "\<lambda>label dir. run_runtime name project label dir ?bench (ba_runs args) (ba_loops args) (ba_run_timeout args) ?log"
  obtain src u1 u2 u3 u4 u5 u6 nd bd dd where
    p: "prepare_source name project ?log h w = (Inr src, u1)" and
    i: "write_bench_inputs ?bench h u1 = (Inr (), u2)" and
    n: "?build src ''native'' ''none'' True h u2 = (Inr nd, u3)" and
    b: "?build src ?base sanitizer True h u3 = (Inr bd, u4)" and
    d: "?build src ''desan'' sanitizer False h u4 = (Inr dd, u5)" and
    c: "csvA ?csv (thenA (rowA runtime_header) (thenA (?run ''native'' nd)
        (thenA (?run ?base bd) (?run ''desan'' dd)))) h u5 = (Inr (), u6)" and
    s: "summarize name sanitizer ?out h u6 = (Inr (), w')"
    using body unfolding job_body_def Let_def san bind_key_Some job_times_def [symmetric]
    by (elim bind_Inr then_Inr) (rule that; assumption)
  from keepsD [OF grow_frame.keeps_source [OF TrueI name TrueI] TrueI p] obtain prep where
    prep: "w_procs u1 = w_procs w @ prep" by (auto simp: procs_grow_def)
  from keepsD [OF files_only_actions(6) TrueI i] have i': "w_procs u2 = w_procs u1" by (simp add: files_only_def)
  note n = build_Inr [OF n] and b = build_Inr [OF b] and d = build_Inr [OF d]
  from csvA_Inr [OF c] obtain v1 v2 where
    v: "thenA (rowA runtime_header) (thenA (?run ''native'' nd) (thenA (?run ?base bd) (?run ''desan'' dd))) h v1 = (Inr (), v2)"
      "w_rows v1 = []" "w_procs v1 = w_procs u5" "w_procs u6 = w_procs v2"
      "map_of (w_fs v2) ?csv = map_of (w_fs v1) ?csv \<longrightarrow> map_of (w_fs u6) ?csv = Some (File (rows_text (CHR '','') (w_rows v2)))" .
  from v(1) obtain v3 v4 v5 where
    "rowA runtime_header h v1 = (Inr (), v3)" and m: "?run ''native'' nd h v3 = (Inr (), v4)"
    "?run ?base bd h v4 = (Inr (), v5)" "?run ''desan'' dd h v5 = (Inr (), v2)"
    by (elim then_Inr) (rule that; assumption)
  then have v3: "w_procs v3 = w_procs u5" "w_rows v3 = [runtime_header]"
    using v(2,3) by (auto simp: rowA_def)
  from run_runtime_Inr [OF m(1) ok] obtain ps1 rs1 where m1: "w_procs v4 = w_procs v3 @ ps1" "w_rows v4 = w_rows v3 @ rs1"
    "variant_measured ''native'' (ba_runs args) (run_proc ?E project ?bench nd args ?log) ps1 rs1" .
  from run_runtime_Inr [OF m(2) ok] obtain ps2 rs2 where m2: "w_procs v5 = w_procs v4 @ ps2" "w_rows v5 = w_rows v4 @ rs2"
    "variant_measured ?base (ba_runs args) (run_proc ?E project ?bench bd args ?log) ps2 rs2" .
  from run_runtime_Inr [OF m(3) ok] obtain ps3 rs3 where m3: "w_procs v2 = w_procs v5 @ ps3" "w_rows v2 = w_rows v5 @ rs3"
    "variant_measured ''desan'' (ba_runs args) (run_proc ?E project ?bench dd args ?log) ps3 rs3" .
  from summarize_Inr [OF s san] obtain e where e: "w_procs w' = w_procs u6 @
    [(\<lparr>pr_argv = summary_argv name sanitizer san ?out, pr_cwd = ROOT, pr_env = None, pr_timeout = None,
       pr_out = summary_file name sanitizer ''summary.md''\<rparr>, e)]" .
  have t: "job_trace ?E name sanitizer project san args
      (map (\<lambda>(label, s, dis). (build_proc ?E name project ?out label s dis args ?log, Exited 0))
         [(''native'', ''none'', True), (?base, sanitizer, True), (''desan'', sanitizer, False)] @ concat [ps1, ps2, ps3] @
       [(\<lparr>pr_argv = summary_argv name sanitizer san ?out, pr_cwd = ROOT, pr_env = None, pr_timeout = None,
       pr_out = summary_file name sanitizer ''summary.md''\<rparr>, e)]) (w_rows v2)"
    unfolding job_trace_def Let_def
    by (intro exI [of _ "[ps1, ps2, ps3]"] exI [of _ "[rs1, rs2, rs3]"] exI [of _ e])
      (use m1 m2 m3 v3 n(1) b(1) d(1) in \<open>simp add: less_Suc_eq numeral_3_eq_3\<close>)
  have written: "leaves ?csv h \<longrightarrow> map_of (w_fs w') ?csv = Some (File (rows_text (CHR '','') (w_rows v2)))"
  proof
    assume l: "leaves ?csv h"
    note apart = job_times_apart [OF name sanitizer_names [OF san]]
    have "keeps (leaves ?csv) (same_node ?csv) (thenA (rowA runtime_header) (thenA (?run ''native'' nd)
        (thenA (?run ?base bd) (?run ''desan'' dd))))"
      unfolding run_runtime_def by (intro kept.keeps_then kept.keeps_row kept.keeps_measure apart)
    from keepsD [OF this l v(1)] v(5) have "map_of (w_fs u6) ?csv = Some (File (rows_text (CHR '','') (w_rows v2)))"
      by (simp add: same_node_def)
    moreover have "keeps (leaves ?csv) (same_node ?csv) (summarize name sanitizer ?out)"
      unfolding summarize_def Let_def by (intro kept.keeps_ops kept.keeps_key apart)
    from keepsD [OF this l s] have "map_of (w_fs w') ?csv = map_of (w_fs u6) ?csv" by (simp add: same_node_def)
    ultimately show "map_of (w_fs w') ?csv = Some (File (rows_text (CHR '','') (w_rows v2)))" by simp
  qed
  show thesis
    by (rule that [OF _ t written, of prep]) (use prep i' n(3) b(3) d(3) v(4) v3(1) m1(1) m2(1) m3(1) e in simp)
qed

end
