(* ===== verification/CalmHost.thy ===== *)
theory CalmHost
  imports BatchTrace
begin

text \<open>
  When a job must succeed: a small calculus of total correctness for actions, over what is
  known of the files. The jobs mean some paths to be directories and some to be files, and need
  some directories of others; the host is calm when the operating system refuses nothing and
  every process ends well, removes none of these directories and puts no file in the place of a
  directory, nor a directory in the place of a file.
\<close>

section \<open>Success\<close>

definition succeeds :: "(host \<Rightarrow> bool) \<Rightarrow> (filesys \<Rightarrow> bool) \<Rightarrow> 'a act \<Rightarrow> ('a \<Rightarrow> filesys \<Rightarrow> bool) \<Rightarrow> bool" where
  "succeeds H P m Q \<longleftrightarrow> (\<forall>h w. H h \<and> P (w_fs w) \<longrightarrow> (\<exists>x w'. m h w = (Inr x, w') \<and> Q x (w_fs w')))"

lemma succeedsE:
  fixes w :: world
  assumes "succeeds H P m Q" "H h" "P (w_fs w)"
  obtains x w' where "m h w = (Inr x, w')" "Q x (w_fs w')"
  using assms unfolding succeeds_def by blast

lemma succeeds_return: "(\<And>fs. P fs \<Longrightarrow> Q x fs) \<Longrightarrow> succeeds H P (returnA x) Q"
  by (simp add: succeeds_def returnA_def)

lemma succeeds_bind:
  assumes "succeeds H P m Q" "\<And>x. succeeds H (Q x) (f x) R"
  shows "succeeds H P (bindA m f) R"
  unfolding succeeds_def
proof (intro allI impI)
  fix h and w :: world assume h: "H h \<and> P (w_fs w)"
  then obtain x u where "m h w = (Inr x, u)" "Q x (w_fs u)" by (elim conjE succeedsE [OF assms(1)])
  moreover from this(2) h obtain y v where "f x h u = (Inr y, v)" "R y (w_fs v)"
    by (elim conjE succeedsE [OF assms(2)])
  ultimately show "\<exists>y v. bindA m f h w = (Inr y, v) \<and> R y (w_fs v)" by (auto simp: bindA_def)
qed

lemma succeeds_then: "succeeds H P m (\<lambda>_. Q) \<Longrightarrow> succeeds H Q n R \<Longrightarrow> succeeds H P (thenA m n) R"
  unfolding thenA_def by (rule succeeds_bind)

lemma succeeds_for:
  "(\<And>x. x \<in> set xs \<Longrightarrow> succeeds H P (f x) (\<lambda>_. P)) \<Longrightarrow> succeeds H P (forA f xs) (\<lambda>_. P)"
  by (induction xs) (auto intro: succeeds_then succeeds_return)

lemma succeeds_pre: "succeeds H P m Q \<Longrightarrow> (\<And>fs. P' fs \<Longrightarrow> P fs) \<Longrightarrow> succeeds H P' m Q"
  by (simp add: succeeds_def)

lemma succeeds_post: "succeeds H P m Q \<Longrightarrow> (\<And>x fs. Q x fs \<Longrightarrow> Q' x fs) \<Longrightarrow> succeeds H P m Q'"
  unfolding succeeds_def by meson

lemma succeeds_exists:
  assumes "succeeds H (\<lambda>fs. P fs \<and> map_of fs p \<noteq> None) (f True) R" "succeeds H (\<lambda>fs. P fs \<and> map_of fs p = None) (f False) R"
  shows "succeeds H P (bindA (existsA p) f) R"
  unfolding succeeds_def bind_exists
proof (intro allI impI)
  fix h and w :: world assume h: "H h \<and> P (w_fs w)"
  show "\<exists>x w'. f (map_of (w_fs w) p \<noteq> None) h w = (Inr x, w') \<and> R x (w_fs w')"
  proof (cases "map_of (w_fs w) p = None")
    case True
    with assms(2) h show ?thesis by (simp add: succeeds_def)
  next
    case False
    with assms(1) h show ?thesis by (simp add: succeeds_def)
  qed
qed

lemma succeeds_exists_known:
  assumes "\<And>fs. P fs \<Longrightarrow> map_of fs p \<noteq> None" "succeeds H P (f True) R"
  shows "succeeds H P (bindA (existsA p) f) R"
proof (rule succeeds_exists)
  show "succeeds H (\<lambda>fs. P fs \<and> map_of fs p \<noteq> None) (f True) R" using assms(2) by (rule succeeds_pre) simp
  show "succeeds H (\<lambda>fs. P fs \<and> map_of fs p = None) (f False) R" using assms(1) unfolding succeeds_def by blast
qed

lemma succeeds_environ: "(\<And>env. succeeds H P (f env) R) \<Longrightarrow> succeeds H P (bindA environA f) R"
  by (simp add: succeeds_def bind_environ)

lemma succeeds_clock: "(\<And>t. succeeds H P (f t) R) \<Longrightarrow> succeeds H P (bindA clockA f) R"
  by (simp add: succeeds_def clockA_def bindA_def getA_def)

lemma succeeds_row: "succeeds H P (rowA row) (\<lambda>_. P)"
  by (simp add: succeeds_def rowA_def)

lemma succeeds_os:
  assumes "\<And>h. H h \<Longrightarrow> h_os h = (\<lambda>t. None)" "\<And>fs. P fs \<Longrightarrow> \<exists>fs'. f fs = Inr fs' \<and> Q fs'"
  shows "succeeds H P (osA f) (\<lambda>_. Q)"
  unfolding succeeds_def
proof (intro allI impI)
  fix h and w :: world assume "H h \<and> P (w_fs w)"
  then obtain fs' where "h_os h = (\<lambda>t. None)" "f (w_fs w) = Inr fs'" "Q fs'" using assms by blast
  then show "\<exists>x w'. osA f h w = (Inr x, w') \<and> Q (w_fs w')" by (auto simp: osA_def)
qed

lemma succeeds_csv:
  assumes "succeeds H P (writeA p '''') (\<lambda>_. Q)" "succeeds H Q m (\<lambda>_. R)" "\<And>t. succeeds H R (appendA p t) (\<lambda>_. S)"
  shows "succeeds H P (csvA p m) (\<lambda>_. S)"
  unfolding csvA_def
proof (rule succeeds_then [OF assms(1)], rule succeeds_then)
  show "succeeds H Q (\<lambda>h w. (Inr (), w\<lparr>w_rows := []\<rparr>)) (\<lambda>_. Q)" by (simp add: succeeds_def)
  show "succeeds H Q (withA m (bindA (getA (\<lambda>h w. rows_text (CHR '','') (w_rows w))) (appendA p))) (\<lambda>_. S)"
    unfolding succeeds_def
  proof (intro allI impI)
    fix h and w :: world assume h: "H h \<and> Q (w_fs w)"
    with assms(2) obtain u where u: "m h w = (Inr (), u)" "R (w_fs u)" by (auto simp: succeeds_def)
    with h assms(3) [of "rows_text (CHR '','') (w_rows u)"] obtain v where
      "appendA p (rows_text (CHR '','') (w_rows u)) h u = (Inr (), v)" "S (w_fs v)" by (auto simp: succeeds_def)
    with u show "\<exists>x w'. withA m (bindA (getA (\<lambda>h w. rows_text (CHR '','') (w_rows w))) (appendA p)) h w = (Inr x, w') \<and> S (w_fs w')"
      by (auto simp: withA_def bindA_def getA_def)
  qed
qed

lemma succeeds_try: "succeeds H P m Q \<Longrightarrow> succeeds H P (tryA m f) Q"
  unfolding succeeds_def tryA_def by (force split: sum.splits)

lemma succeeds_key: "(\<And>fs. P fs \<Longrightarrow> Q x fs) \<Longrightarrow> succeeds H P (keyA k (Some x)) Q"
  unfolding keyA_def by (simp add: succeeds_return)

section \<open>What is known of the files\<close>

text \<open>
  \<open>ds\<close>: what is meant to be a directory; \<open>fl\<close>: what is meant to be a file; \<open>outer\<close>:
  directories of others; \<open>D\<close>: directories that are known to be there.
\<close>

definition conforms :: "string set \<Rightarrow> string set \<Rightarrow> filesys \<Rightarrow> bool" where
  "conforms ds fl fs \<longleftrightarrow> (\<forall>q\<in>ds. map_of fs q = None \<or> map_of fs q = Some Dir) \<and> (\<forall>q\<in>fl. map_of fs q \<noteq> Some Dir)"

definition known :: "string set \<Rightarrow> string set \<Rightarrow> string set \<Rightarrow> filesys \<Rightarrow> bool" where
  "known ds fl D fs \<longleftrightarrow> conforms ds fl fs \<and> (\<forall>d\<in>D. map_of fs d = Some Dir)"

definition calm :: "string set \<Rightarrow> string set \<Rightarrow> string set \<Rightarrow> host \<Rightarrow> bool" where
  "calm ds fl outer h \<longleftrightarrow> h_os h = (\<lambda>t. None) \<and>
     (\<forall>w p. fst (h_run h w p) = Exited 0 \<and>
        (conforms ds fl (w_fs w) \<longrightarrow> conforms ds fl (snd (h_run h w p))) \<and>
        (\<forall>q\<in>ds \<union> outer. map_of (w_fs w) q = Some Dir \<longrightarrow> map_of (snd (h_run h w p)) q = Some Dir))"

lemma calm_os: "calm ds fl outer h \<Longrightarrow> h_os h = (\<lambda>t. None)"
  by (simp add: calm_def)

lemma known_less: "known ds fl D fs \<Longrightarrow> D' \<subseteq> D \<Longrightarrow> known ds fl D' fs"
  by (auto simp: known_def)

lemma fold_add_dirs:
  "map_of (fold add_dir ps fs) q = (case map_of fs q of None \<Rightarrow> if q \<in> set ps then Some Dir else None | n \<Rightarrow> n)"
  by (induction ps arbitrary: fs) (auto simp: add_dir_def dict_simps split: option.splits)

lemma map_of_filter: "map_of (filter (\<lambda>(q, _). P q) d) k = (if P k then map_of d k else None)"
  by (induction d) auto

locale roles =
  fixes ds fl outer :: "string set"
  assumes roles_disjoint: "ds \<inter> fl = {}"
begin

abbreviation H :: "host \<Rightarrow> bool" where
  "H \<equiv> calm ds fl outer"

lemma succeeds_proc:
  assumes "D \<subseteq> ds \<union> outer"
  shows "succeeds H (known ds fl D) (procA p) (\<lambda>rc fs. rc = 0 \<and> known ds fl D fs)"
  unfolding succeeds_def
proof (intro allI impI)
  fix h and w :: world assume h: "H h \<and> known ds fl D (w_fs w)"
  obtain e fs where r: "h_run h w p = (e, fs)" by (cases "h_run h w p")
  with h have c: "fst (e, fs) = Exited 0 \<and> (conforms ds fl (w_fs w) \<longrightarrow> conforms ds fl (snd (e, fs))) \<and>
      (\<forall>q\<in>ds \<union> outer. map_of (w_fs w) q = Some Dir \<longrightarrow> map_of (snd (e, fs)) q = Some Dir)"
    unfolding calm_def by metis
  with h assms have "e = Exited 0" "known ds fl D fs" by (auto simp: known_def)
  with r show "\<exists>x w'. procA p h w = (Inr x, w') \<and> x = 0 \<and> known ds fl D (w_fs w')"
    by (simp add: procA_def)
qed

lemma mkdir_ok:
  assumes "known ds fl D fs" "p \<in> ds" "set (ancestors p) \<subseteq> D \<union> ds"
  shows "\<exists>fs'. fs_mkdir True p fs = Inr fs' \<and> known ds fl (insert p D) fs'"
    "map_of fs p = None \<Longrightarrow> \<exists>fs'. fs_mkdir False p fs = Inr fs' \<and> known ds fl (insert p D) fs'"
proof -
  let ?fs = "fold add_dir (ancestors p @ [p]) fs"
  have "map_of fs a = None \<or> map_of fs a = Some Dir" if "a \<in> set (ancestors p)" for a
    using that assms by (auto simp: known_def conforms_def)
  then have "\<not> list_ex (\<lambda>a. case map_of fs a of Some (File _) \<Rightarrow> True | _ \<Rightarrow> False) (ancestors p)"
    by (fastforce simp: list_ex_iff)
  then have m: "map_of fs p = None \<Longrightarrow> fs_mkdir b p fs = Inr ?fs" for b by (simp add: fs_mkdir_def)
  have new: "q \<in> ds" if "q \<in> set (ancestors p @ [p])" "map_of fs q = None" for q
  proof (rule ccontr)
    assume "q \<notin> ds"
    with that(1) assms(2,3) have "q \<in> D" by auto
    with assms(1) that(2) show False by (simp add: known_def)
  qed
  have at: "map_of ?fs q = (if q \<in> set (ancestors p @ [p]) \<and> map_of fs q = None then Some Dir else map_of fs q)" for q
    unfolding fold_add_dirs by (simp split: option.split)
  have k: "known ds fl (insert p D) ?fs" if "map_of fs p = None"
    using assms(1) new roles_disjoint that unfolding known_def conforms_def at by auto
  from m k show "map_of fs p = None \<Longrightarrow> \<exists>fs'. fs_mkdir False p fs = Inr fs' \<and> known ds fl (insert p D) fs'"
    by blast
  show "\<exists>fs'. fs_mkdir True p fs = Inr fs' \<and> known ds fl (insert p D) fs'"
  proof (cases "map_of fs p = None")
    case False
    with assms have "map_of fs p = Some Dir" by (auto simp: known_def conforms_def)
    with assms show ?thesis by (auto simp: fs_mkdir_def known_def)
  qed (use m k in blast)
qed

lemma succeeds_mkdir:
  assumes "p \<in> ds" "set (ancestors p) \<subseteq> D \<union> ds"
  shows "succeeds H (known ds fl D) (mkdirA True p) (\<lambda>_. known ds fl (insert p D))"
  unfolding mkdirA_def by (rule succeeds_os [OF calm_os mkdir_ok(1) [OF _ assms]])

lemma succeeds_mkdir_old:
  assumes "p \<in> D"
  shows "succeeds H (known ds fl D) (mkdirA True p) (\<lambda>_. known ds fl D)"
  unfolding mkdirA_def using assms by (intro succeeds_os [OF calm_os]) (auto simp: fs_mkdir_def known_def)

lemma known_set:
  assumes "known ds fl D fs" "p \<in> fl"
  shows "known ds fl D (dset p (File t) fs)"
  using assms roles_disjoint by (auto simp: known_def conforms_def dict_simps)

lemma succeeds_write:
  assumes "p \<in> fl" "path_parent p \<in> D"
  shows "succeeds H (known ds fl D) (writeA p t) (\<lambda>_. known ds fl D)"
  unfolding writeA_def
proof (rule succeeds_os [OF calm_os])
  fix fs assume k: "known ds fl D fs"
  then have "map_of fs (path_parent p) = Some Dir" "map_of fs p \<noteq> Some Dir"
    using assms by (auto simp: known_def conforms_def)
  with known_set [OF k assms(1)] show "\<exists>fs'. fs_write p t fs = Inr fs' \<and> known ds fl D fs'"
    by (simp add: fs_write_def)
qed

lemma succeeds_append: "succeeds H (known ds fl D) (appendA p t) (\<lambda>_. known ds fl D)"
  unfolding appendA_def
proof (rule succeeds_os [OF calm_os])
  fix fs assume "known ds fl D fs"
  then have "known ds fl D (fs_append p t fs)"
    by (auto simp: fs_append_def known_def conforms_def dict_simps split: option.splits fnode.splits)
  then show "\<exists>fs'. Inr (fs_append p t fs) = Inr fs' \<and> known ds fl D fs'" by blast
qed

lemma succeeds_sh:
  "D \<subseteq> ds \<union> outer \<Longrightarrow> succeeds H (known ds fl D) (sh c d e l t) (\<lambda>rc fs. rc = 0 \<and> known ds fl D fs)"
  unfolding sh_def by (intro succeeds_then [OF succeeds_append] succeeds_proc)

lemma succeeds_unlink:
  assumes "p \<in> fl"
  shows "succeeds H (known ds fl D) (bindA (existsA p) (\<lambda>there. whenA there (unlinkA p))) (\<lambda>_. known ds fl D)"
proof (rule succeeds_exists)
  show "succeeds H (\<lambda>fs. known ds fl D fs \<and> map_of fs p = None) (whenA False (unlinkA p)) (\<lambda>_. known ds fl D)"
    unfolding whenA_def if_False by (intro succeeds_return) simp
  show "succeeds H (\<lambda>fs. known ds fl D fs \<and> map_of fs p \<noteq> None) (whenA True (unlinkA p)) (\<lambda>_. known ds fl D)"
    unfolding whenA_def if_True unlinkA_def
  proof (rule succeeds_os [OF calm_os])
    fix fs assume k: "known ds fl D fs \<and> map_of fs p \<noteq> None"
    with assms have "map_of fs p \<noteq> Some Dir" by (auto simp: known_def conforms_def)
    with k obtain t where t: "map_of fs p = Some (File t)" by (cases "map_of fs p"; cases "the (map_of fs p)") auto
    with k have "known ds fl D (filter (\<lambda>(q, _). q \<noteq> p) fs)"
      unfolding known_def conforms_def map_of_filter by auto
    with t show "\<exists>fs'. fs_unlink p fs = Inr fs' \<and> known ds fl D fs'" by (simp add: fs_unlink_def)
  qed
qed

lemma rmtree_ok:
  assumes "known ds fl D fs" "p \<in> ds" "map_of fs p \<noteq> None" "\<forall>d\<in>D. d \<noteq> p \<and> \<not> under p d"
  shows "\<exists>fs'. fs_rmtree p fs = Inr fs' \<and> known ds fl D fs' \<and> map_of fs' p = None"
proof -
  from assms have "map_of fs p = Some Dir" by (auto simp: known_def conforms_def)
  then have r: "fs_rmtree p fs = Inr (filter (\<lambda>(q, _). q \<noteq> p \<and> \<not> under p q) fs)" by (simp add: fs_rmtree_def)
  have "known ds fl D (filter (\<lambda>(q, _). q \<noteq> p \<and> \<not> under p q) fs)"
    using assms(1,4) unfolding known_def conforms_def map_of_filter by auto
  with r show ?thesis by (auto simp: map_of_filter)
qed

lemma succeeds_remove:
  assumes "p \<in> ds" "\<forall>d\<in>D. d \<noteq> p \<and> \<not> under p d"
  shows "succeeds H (known ds fl D) (removeA p) (\<lambda>_ fs. known ds fl D fs \<and> map_of fs p = None)"
  unfolding removeA_def
proof (rule succeeds_exists)
  show "succeeds H (\<lambda>fs. known ds fl D fs \<and> map_of fs p \<noteq> None) (whenA True (rmtreeA p))
      (\<lambda>_ fs. known ds fl D fs \<and> map_of fs p = None)"
    unfolding whenA_def if_True rmtreeA_def
    by (rule succeeds_os [OF calm_os]) (use rmtree_ok [OF _ assms(1) _ assms(2)] in blast)+
  show "succeeds H (\<lambda>fs. known ds fl D fs \<and> map_of fs p = None) (whenA False (rmtreeA p))
      (\<lambda>_ fs. known ds fl D fs \<and> map_of fs p = None)"
    unfolding whenA_def if_False by (intro succeeds_return)
qed

text \<open>A copied tree adds nodes below its destination only.\<close>

lemma known_copied:
  assumes "known ds fl D fs" "\<forall>q\<in>ds \<union> fl \<union> D. \<not> under p q"
  shows "known ds fl D (fold (\<lambda>(q, n). dset q n) (copied i src p fs0) fs)"
proof -
  have "map_of (fold (\<lambda>(q, n). dset q n) (copied i src p fs0) fs) q = map_of fs q" if "q \<in> ds \<union> fl \<union> D" for q
  proof (rule fold_copy)
    show "q \<notin> fst ` set (copied i src p fs0)"
      using assms(2) that by (auto dest!: copied_below simp: under_def startswith_iff)
  qed
  with assms(1) show ?thesis by (simp add: known_def conforms_def)
qed

lemma succeeds_copy:
  assumes p: "p \<in> ds" "set (ancestors p) \<subseteq> D \<union> ds" "p \<notin> D"
    and below: "\<forall>q\<in>ds \<union> fl \<union> D. \<not> under p q" and src: "src \<in> D"
  shows "succeeds H (known ds fl D) (copy_source src p) (\<lambda>_. known ds fl D)"
  unfolding copy_source_def
proof (rule succeeds_then [OF succeeds_remove [OF p(1)]])
  show "\<forall>d\<in>D. d \<noteq> p \<and> \<not> under p d" using p(3) below by auto
  show "succeeds H (\<lambda>fs. known ds fl D fs \<and> map_of fs p = None) (osA (fs_copytree left_out src p)) (\<lambda>_. known ds fl D)"
  proof (rule succeeds_os [OF calm_os])
    fix fs assume k: "known ds fl D fs \<and> map_of fs p = None"
    with mkdir_ok(2) [OF _ p(1,2)] obtain fs' where
      m: "fs_mkdir False p fs = Inr fs'" "known ds fl (insert p D) fs'" by blast
    from k src have s: "map_of fs src = Some Dir" by (auto simp: known_def)
    from known_less [OF m(2)] have "known ds fl D fs'" by blast
    from known_copied [OF this below, of left_out src fs] m(1) s
    show "\<exists>fs'. fs_copytree left_out src p fs = Inr fs' \<and> known ds fl D fs'" by (simp add: fs_copytree_def)
  qed
qed

end

end
