(* ===== verification/BatchRoles.thy ===== *)
theory BatchRoles
  imports CalmHost
begin

text \<open>
  Which paths the jobs of a batch mean to be directories and which files, and which directories
  they need: as lists of names, so that the side conditions of the calculus are facts on lists.
\<close>

definition out_names :: "string list" where
  "out_names = [''home'', ''dragon'', ''DESAN'', ''out'']"

definition bench_names :: "string list" where
  "bench_names = [''home'', ''dragon'', ''DESAN'', ''benchmarks'']"

definition variant_labels :: "string set" where
  "variant_labels = {''native'', ''asan-base'', ''ubsan-base'', ''msan-base'', ''desan''}"

text \<open>Below the directory of a job.\<close>

definition dir_names :: "string list set" where
  "dir_names = {[], [''bench''], [''bench'', ''tree'']} \<union> range (\<lambda>i. [''bench'', ''tree'', ''dir'' @ show_int i]) \<union>
     (\<lambda>v. [v]) ` variant_labels \<union> (\<lambda>v. [''build-'' @ v]) ` variant_labels"

definition file_names :: "string list set" where
  "file_names = {[''runtime.csv'']} \<union>
     (\<lambda>f. [''bench'', f]) ` set (map fst bench_files @ [''input.ppm'', ''input.gif'', ''input.png'']) \<union>
     {[''bench'', ''tree'', ''dir'' @ show_int i, ''file'' @ show_int j @ ''.txt''] | i j. True}"

definition log_name :: "string \<Rightarrow> string \<Rightarrow> string" where
  "log_name name sanitizer = name @ ''_'' @ sanitizer @ ''_after_read_check_elimination.nohup.log''"

definition job_dirs :: "string \<times> string \<Rightarrow> string list set" where
  "job_dirs = (\<lambda>(name, sanitizer). (\<lambda>r. out_names @ job_name name sanitizer # r) ` dir_names)"

definition job_files :: "string \<times> string \<Rightarrow> string list set" where
  "job_files = (\<lambda>(name, sanitizer). (\<lambda>r. out_names @ job_name name sanitizer # r) ` file_names \<union>
     {out_names @ [log_name name sanitizer], out_names @ [job_name name sanitizer @ ''-summary.md''],
      out_names @ [job_name name sanitizer @ ''-summary.csv'']})"

definition status_name :: string where
  "status_name = ''oss-batch-after-read-check-elimination-status.csv''"

definition batch_dirs :: "(string \<times> string) list \<Rightarrow> string set" where
  "batch_dirs jobs = path_of ` (\<Union>j\<in>set jobs. job_dirs j)"

definition batch_files :: "(string \<times> string) list \<Rightarrow> string set" where
  "batch_files jobs = path_of ` (\<Union>j\<in>set jobs. job_files j) \<union> {path_of (out_names @ [status_name])}"

text \<open>What is there before the batch: the directories of the repository, and every checkout.\<close>

definition checkout :: "string \<Rightarrow> string list set" where
  "checkout name = {bench_names @ [name @ ''-src''], bench_names @ [name @ ''-src'', ''.git'']}"

definition batch_outer :: "(string \<times> string) list \<Rightarrow> string set" where
  "batch_outer jobs = insert ''/'' (path_of ` ({[''home''], [''home'', ''dragon''], [''home'', ''dragon'', ''DESAN''],
     bench_names, out_names} \<union> (\<Union>(name, sanitizer)\<in>set jobs. checkout name)))"

definition job_ok :: "string \<times> string \<Rightarrow> bool" where
  "job_ok = (\<lambda>(name, sanitizer). plain_name name \<and> sanitizer \<in> {''asan'', ''ubsan'', ''msan''})"

section \<open>The names are plain and apart\<close>

lemma out_plain [simp]: "plain_names out_names" "out_names \<noteq> []" "plain_names bench_names" "bench_names \<noteq> []"
  by (simp_all add: out_names_def bench_names_def plain_name_def)

lemma base_paths: "OUT_BASE = path_of out_names" "BENCHMARKS = path_of bench_names"
  by code_simp+

lemma show_plain [simp]: "plain_name (''dir'' @ show_int i)" "plain_name (''file'' @ show_int i @ ''.txt'')"
  by (auto simp: plain_name_def list_all_iff is_digit_def dest: show_int_chars)

lemma dir_names_plain: "r \<in> dir_names \<Longrightarrow> plain_names r"
  using show_plain(1) by (auto simp: dir_names_def variant_labels_def plain_name_def)

lemma file_names_plain: "r \<in> file_names \<Longrightarrow> plain_names r"
  using show_plain by (auto simp: file_names_def bench_files_def plain_name_def)

lemma job_names_ok:
  assumes "job_ok (name, sanitizer)"
  shows "plain_name (job_name name sanitizer)" "plain_name (log_name name sanitizer)"
    "plain_name (job_name name sanitizer @ ''-summary.md'')" "plain_name (job_name name sanitizer @ ''-summary.csv'')"
    "plain_name (name @ ''-src'')"
proof -
  from assms have a: "plain_name name" "sanitizer \<in> {''asan'', ''ubsan'', ''msan''}" by (auto simp: job_ok_def)
  show "plain_name (job_name name sanitizer)" "plain_name (log_name name sanitizer)"
    using job_names_plain [OF a] by (simp_all add: log_name_def)
  show "plain_name (job_name name sanitizer @ ''-summary.md'')" "plain_name (job_name name sanitizer @ ''-summary.csv'')"
    using job_names_plain(2) [OF a, of "''summary.md''"] job_names_plain(2) [OF a, of "''summary.csv''"] by simp_all
  show "plain_name (name @ ''-src'')" by (rule plain_longer [OF a(1)]) simp_all
qed

lemma status_plain: "plain_name status_name"
  by (simp add: status_name_def plain_name_def)

lemma job_dirs_plain: "job_ok j \<Longrightarrow> ns \<in> job_dirs j \<Longrightarrow> plain_names ns"
  using job_names_ok(1) dir_names_plain by (auto simp: job_dirs_def)

lemma job_files_plain: "job_ok j \<Longrightarrow> ns \<in> job_files j \<Longrightarrow> plain_names ns"
  using job_names_ok file_names_plain by (auto simp: job_files_def)

lemma job_paths_of:
  assumes "job_ok (n, s)"
  shows "job_root n s = path_of (out_names @ [job_name n s])" "job_log n s = path_of (out_names @ [log_name n s])"
    "summary_file n s ''summary.md'' = path_of (out_names @ [job_name n s @ ''-summary.md''])"
    "summary_file n s ''summary.csv'' = path_of (out_names @ [job_name n s @ ''-summary.csv''])"
    "source_dir n = path_of (bench_names @ [n @ ''-src''])"
  unfolding job_root_def job_log_def summary_file_def source_dir_def base_paths log_name_def [symmetric]
  using job_names_ok [OF assms] by (simp_all add: path_div_of del: path_of_simps)

lemma default_status: "default_status_file = path_of (out_names @ [status_name])" "path_str default_status_file = default_status_file"
  by code_simp+

lemma names_apart: "dir_names \<inter> file_names = {}"
  by (auto simp: dir_names_def file_names_def bench_files_def variant_labels_def)

lemma ends_apart:
  "job_name n s \<noteq> log_name m t" "job_name n s \<noteq> job_name m t @ ''-summary.md''"
  "job_name n s \<noteq> job_name m t @ ''-summary.csv''" "job_name n s \<noteq> status_name"
proof -
  have l: "last (job_name n s) = CHR ''n''" for n s by (simp add: job_name_def)
  show "job_name n s \<noteq> log_name m t" using l [of n s] by (auto simp: log_name_def)
  show "job_name n s \<noteq> job_name m t @ ''-summary.md''" "job_name n s \<noteq> job_name m t @ ''-summary.csv''"
    "job_name n s \<noteq> status_name"
    using l [of n s] by (auto simp: status_name_def)
qed

lemma dirs_apart: "ns \<in> job_dirs j \<Longrightarrow> ns \<notin> job_files k \<and> ns \<noteq> out_names @ [status_name]"
  using names_apart ends_apart ends_apart(2,3) [symmetric] unfolding job_dirs_def job_files_def
  by (auto split: prod.splits)

lemma batch_roles_disjoint:
  assumes "\<forall>j\<in>set jobs. job_ok j"
  shows "batch_dirs jobs \<inter> batch_files jobs = {}"
proof -
  have p: "plain_names ns" if "ns \<in> job_dirs j \<union> job_files j" "j \<in> set jobs" for ns j
    using that assms job_dirs_plain job_files_plain by blast
  have s: "plain_names (out_names @ [status_name])" using status_plain by simp
  have "path_of ns \<noteq> path_of ms" if "ns \<in> job_dirs j" "j \<in> set jobs" "ms \<in> job_files k" "k \<in> set jobs" for ns ms j k
    using path_of_inj [OF p p, of ns j ms k] that dirs_apart by blast
  moreover have "path_of ns \<noteq> path_of (out_names @ [status_name])" if "ns \<in> job_dirs j" "j \<in> set jobs" for ns j
    using path_of_inj [OF p s, of ns j] that dirs_apart by blast
  ultimately show ?thesis unfolding batch_dirs_def batch_files_def by blast
qed

end
