(* ===== verification/JobLiveness.thy ===== *)
theory JobLiveness
  imports BatchRoles
begin

text \<open>
  On a calm host, with every source checked out, every job of a batch runs to its end and
  reports \<open>S\<close>.
\<close>

text \<open>A registered project whose source is a git repository.\<close>

definition git_project :: "string \<Rightarrow> bool" where
  "git_project name \<longleftrightarrow> (case map_of PROJECTS name of Some p \<Rightarrow> pj_archive p = None | None \<Rightarrow> False)"

lemma ancestors_out: "ancestors (path_of out_names) = [''/'', ''/home'', ''/home/dragon'', ''/home/dragon/DESAN'']"
  by code_simp

lemma dirs_below:
  assumes "plain_name J" "r \<in> dir_names"
  shows "set (ancestors (path_of (out_names @ J # r))) \<subseteq> {''/'', ''/home'', ''/home/dragon'', ''/home/dragon/DESAN'', path_of out_names}
    \<union> path_of ` ((\<lambda>r. out_names @ J # r) ` dir_names)"
  using assms(2)
proof (induction r rule: rev_induct)
  case Nil
  then show ?case using ancestors_snoc [OF out_plain(2) assms(1)] by (simp add: ancestors_out)
next
  case (snoc x r)
  from snoc.prems have r: "r \<in> dir_names" "plain_name x"
    using dir_names_plain [OF snoc.prems] by (auto simp: dir_names_def)
  have "set (ancestors (path_of (out_names @ J # r @ [x]))) =
      insert (path_of (out_names @ J # r)) (set (ancestors (path_of (out_names @ J # r))))"
    using ancestors_snoc [of "out_names @ J # r" x] r(2) by simp
  with snoc.IH [OF r(1)] r(1) show ?case by (simp only: insert_subset) blast
qed

lemma not_below_shorter: "plain_names ms \<Longrightarrow> plain_names ns \<Longrightarrow> length ns \<le> length ms \<Longrightarrow> \<not> under (path_of ms) (path_of ns)"
  by (auto simp: under_of dest: prefix_length_less)

lemma not_below_root: "ms \<noteq> [] \<Longrightarrow> \<not> under (path_of ms) ''/''"
  by (cases ms) (auto simp: under_def startswith_iff)

lemma checks_pass: "set names \<subseteq> set ks \<Longrightarrow> check_names what ks names h w = (Inr (), w)"
  unfolding check_names_def by (induction names) (auto simp: thenA_def bindA_def returnA_def)

locale calm_batch =
  fixes jobs :: "(string \<times> string) list"
  assumes jobs_ok: "j \<in> set jobs \<Longrightarrow> job_ok j"
begin

sublocale roles "batch_dirs jobs" "batch_files jobs" "batch_outer jobs"
  by unfold_locales (use batch_roles_disjoint jobs_ok in blast)

abbreviation K :: "filesys \<Rightarrow> bool" where
  "K \<equiv> known (batch_dirs jobs) (batch_files jobs) (batch_outer jobs)"

text \<open>While a job runs its directory is there.\<close>

abbreviation R :: "string \<Rightarrow> string \<Rightarrow> filesys \<Rightarrow> bool" where
  "R n s \<equiv> known (batch_dirs jobs) (batch_files jobs) (insert (job_root n s) (batch_outer jobs))"

lemma job_dir: "(n, s) \<in> set jobs \<Longrightarrow> r \<in> dir_names \<Longrightarrow> path_of (out_names @ job_name n s # r) \<in> batch_dirs jobs"
  unfolding batch_dirs_def job_dirs_def by (intro imageI UN_I) auto

lemma job_file: "(n, s) \<in> set jobs \<Longrightarrow> r \<in> file_names \<Longrightarrow> path_of (out_names @ job_name n s # r) \<in> batch_files jobs"
  unfolding batch_files_def job_files_def by (intro UnI1 imageI UN_I) auto

lemma job_reports:
  assumes "(n, s) \<in> set jobs"
  shows "path_of (out_names @ [log_name n s]) \<in> batch_files jobs"
    "path_of (out_names @ [job_name n s @ ''-summary.md'']) \<in> batch_files jobs"
    "path_of (out_names @ [job_name n s @ ''-summary.csv'']) \<in> batch_files jobs"
  unfolding batch_files_def job_files_def by (intro UnI1 imageI UN_I [OF assms]; simp)+

lemma outer_dirs:
  "{''/'', ''/home'', ''/home/dragon'', ''/home/dragon/DESAN'', path_of out_names, path_of bench_names} \<subseteq> batch_outer jobs"
  by (auto simp: batch_outer_def)

lemma outer_checkout: "(n, s) \<in> set jobs \<Longrightarrow> ns \<in> checkout n \<Longrightarrow> path_of ns \<in> batch_outer jobs"
  unfolding batch_outer_def by blast

lemma job_ancestors:
  assumes "(n, s) \<in> set jobs" "r \<in> dir_names"
  shows "set (ancestors (path_of (out_names @ job_name n s # r))) \<subseteq> batch_outer jobs \<union> batch_dirs jobs"
proof -
  have "path_of ` ((\<lambda>r. out_names @ job_name n s # r) ` dir_names) \<subseteq> batch_dirs jobs"
    using job_dir [OF assms(1)] by blast
  with dirs_below [OF job_names_ok(1) [OF jobs_ok [OF assms(1)]] assms(2)] outer_dirs show ?thesis by blast
qed

text \<open>What the batch needs from others is not below a directory of a job, nor one of them.\<close>

lemma outer_shape:
  assumes "p \<in> batch_outer jobs"
  obtains "p = ''/''" | ns where "p = path_of ns" "plain_names ns" "length ns \<le> 4"
  | n r where "p = path_of (bench_names @ n # r)" "plain_names (bench_names @ n # r)"
proof -
  have short: "plain_names ns \<and> length ns \<le> 4"
    if "ns \<in> {[''home''], [''home'', ''dragon''], [''home'', ''dragon'', ''DESAN''], bench_names, out_names}" for ns
    using that by (auto simp: bench_names_def out_names_def plain_name_def)
  have git: "plain_name ''.git''" by (simp add: plain_name_def)
  from assms consider (root) "p = ''/''"
    | (short) ns where "p = path_of ns" "ns \<in> {[''home''], [''home'', ''dragon''], [''home'', ''dragon'', ''DESAN''], bench_names, out_names}"
    | (checkout) n s ns where "p = path_of ns" "(n, s) \<in> set jobs" "ns \<in> checkout n"
    unfolding batch_outer_def by blast
  then show thesis
  proof cases
    case root
    then show thesis by (rule that(1))
  next
    case s: (short ns)
    with short show thesis by (intro that(2)) auto
  next
    case (checkout n s ns)
    from checkout(3) obtain r where "ns = bench_names @ (n @ ''-src'') # r" "r = [] \<or> r = [''.git'']"
      by (auto simp: checkout_def)
    with checkout(1) job_names_ok(5) [OF jobs_ok [OF checkout(2)]] git show thesis
      by (intro that(3) [of "n @ ''-src''" r]) auto
  qed
qed

lemma outer_not_below:
  assumes "plain_name J" "plain_names r" "p \<in> batch_outer jobs"
  shows "\<not> under (path_of (out_names @ J # r)) p \<and> p \<noteq> path_of (out_names @ J # r)"
  using assms(3)
proof (cases rule: outer_shape)
  case 1
  with not_below_root [of "out_names @ J # r"] show ?thesis by (auto simp: out_names_def)
next
  case (2 ns)
  have "\<not> strict_prefix (out_names @ J # r) ns" "ns \<noteq> out_names @ J # r"
    using 2(3) prefix_length_less [of "out_names @ J # r" ns] by (auto simp: out_names_def)
  with 2 assms show ?thesis by (simp add: under_of path_of_inj del: path_of_simps)
next
  case (3 n q)
  have "\<not> strict_prefix (out_names @ J # r) (bench_names @ n # q)" "bench_names @ n # q \<noteq> out_names @ J # r"
    by (simp_all add: out_names_def bench_names_def)
  with 3 assms show ?thesis by (simp add: under_of path_of_inj del: path_of_simps)
qed

lemma nothing_below_build:
  assumes "plain_name J" "v \<in> variant_labels" "q \<in> batch_dirs jobs \<union> batch_files jobs"
  shows "\<not> under (path_of (out_names @ [J, ''build-'' @ v])) q"
proof -
  have b: "plain_name (''build-'' @ v)" using assms(2) by (auto simp: variant_labels_def plain_name_def)
  have long: "r \<in> dir_names \<union> file_names \<Longrightarrow> \<not> strict_prefix [''build-'' @ v] r" for r
    by (auto simp: dir_names_def file_names_def bench_files_def strict_prefix_def)
  from assms(3) obtain ns where q: "q = path_of ns" "plain_names ns"
    and ns: "(\<exists>x. ns = out_names @ [x]) \<or> (\<exists>J' r. ns = out_names @ J' # r \<and> r \<in> dir_names \<union> file_names)"
  proof -
    from assms(3) consider (dir) j ns where "q = path_of ns" "j \<in> set jobs" "ns \<in> job_dirs j"
      | (afile) j ns where "q = path_of ns" "j \<in> set jobs" "ns \<in> job_files j"
      | (status) "q = path_of (out_names @ [status_name])"
      unfolding batch_dirs_def batch_files_def by blast
    then show thesis
    proof cases
      case (dir j ns)
      with job_dirs_plain [OF jobs_ok] show thesis by (intro that) (auto simp: job_dirs_def)
    next
      case (afile j ns)
      with job_files_plain [OF jobs_ok] show thesis by (intro that) (auto simp: job_files_def)
    next
      case status
      with status_plain show thesis by (intro that) auto
    qed
  qed
  have "\<not> strict_prefix (out_names @ [J, ''build-'' @ v]) ns"
    using ns long by (auto simp: strict_prefix_def)
  with q assms(1) b show ?thesis by (simp add: under_of del: path_of_simps)
qed

section \<open>The parts of a job\<close>

lemma succeeds_bind_value:
  assumes "succeeds H P m (\<lambda>x fs. x = v \<and> Q fs)" "succeeds H Q (f v) S"
  shows "succeeds H P (bindA m f) S"
proof (rule succeeds_bind [OF assms(1)])
  show "succeeds H (\<lambda>fs. x = v \<and> Q fs) (f x) S" for x
    using assms(2) by (cases "x = v") (auto intro: succeeds_pre simp: succeeds_def)
qed

lemma root_known: "path_of out_names \<in> insert p (batch_outer jobs)"
  using outer_dirs by blast

lemma succeeds_start:
  assumes j: "(n, s) \<in> set jobs"
  shows "succeeds H K (start_job n s) (\<lambda>_. R n s)"
proof -
  note names = job_names_ok [OF jobs_ok [OF j]] and paths = job_paths_of [OF jobs_ok [OF j]] and reports = job_reports [OF j]
  have n: "[] \<in> dir_names" by (simp add: dir_names_def)
  have "succeeds H K (removeA (job_root n s)) (\<lambda>_. K)"
    unfolding paths by (rule succeeds_post [OF succeeds_remove [OF job_dir [OF j n]]])
      (use outer_not_below [OF names(1) plain_names_simps(1)] in auto)
  moreover have "succeeds H K (forA (\<lambda>suffix. bindA (existsA (summary_file n s suffix))
      (\<lambda>there. whenA there (unlinkA (summary_file n s suffix)))) [''summary.md'', ''summary.csv'']) (\<lambda>_. K)"
    using reports(2,3) by (intro succeeds_for succeeds_unlink) (auto simp: paths simp del: path_of_simps)
  moreover have "succeeds H K (mkdirA True (job_root n s)) (\<lambda>_. R n s)"
    using succeeds_mkdir [OF job_dir [OF j n] job_ancestors [OF j n]] by (simp only: paths)
  moreover have "succeeds H (R n s) (writeA (job_log n s) '''') (\<lambda>_. R n s)"
    using names(2) reports(1) by (intro succeeds_write) (simp_all add: paths parent_of root_known del: path_of_simps insert_iff)
  ultimately show ?thesis
    unfolding start_job_def Let_def by (intro succeeds_then)
qed

lemma R_sub: "(n, s) \<in> set jobs \<Longrightarrow> insert (job_root n s) (batch_outer jobs) \<subseteq> batch_dirs jobs \<union> batch_outer jobs"
  using job_dir [of n s "[]"] by (auto simp: dir_names_def job_paths_of(1) [OF jobs_ok] simp del: path_of_simps)

lemmas succeeds_job_sh = succeeds_sh [OF R_sub]

lemma succeeds_failing: "succeeds H (\<lambda>fs. rc = 0 \<and> P fs) (failing rc m) (\<lambda>_. P)"
  by (auto simp: failing_def succeeds_def returnA_def)

lemma succeeds_runs_sh: "(n, s) \<in> set jobs \<Longrightarrow> succeeds H (R n s) (runs_sh c l t) (\<lambda>_. R n s)"
  unfolding runs_sh_def by (rule succeeds_bind [OF succeeds_job_sh]) (auto intro!: succeeds_return)

lemma succeeds_checked:
  "(n, s) \<in> set jobs \<Longrightarrow> succeeds H (R n s) (bindA (sh c d e l t) (\<lambda>rc. failing rc m)) (\<lambda>_. R n s)"
  by (rule succeeds_bind [OF succeeds_job_sh]) (auto simp: failing_def succeeds_def returnA_def raiseA_def)

lemma succeeds_source:
  assumes j: "(n, s) \<in> set jobs" and p: "pj_archive project = None" "pj_repo project = Some repo"
  shows "succeeds H (R n s) (prepare_source n project l) (\<lambda>src fs. src = source_dir n \<and> R n s fs)"
proof -
  note paths = job_paths_of [OF jobs_ok [OF j]]
  have git: "path_div (source_dir n) ''.git'' = path_of (bench_names @ [n @ ''-src'', ''.git''])"
    unfolding paths using path_div_of [of "bench_names @ [n @ ''-src'']" "''.git''"] job_names_ok(5) [OF jobs_ok [OF j]]
    by (simp add: plain_name_def)
  have there: "map_of fs (path_div (source_dir n) ''.git'') \<noteq> None" if "R n s fs" for fs
    using that outer_checkout [OF j, of "bench_names @ [n @ ''-src'', ''.git'']"] unfolding git known_def
    by (simp add: checkout_def del: path_of_simps)
  have "BENCHMARKS \<in> insert p (batch_outer jobs)" for p unfolding base_paths using outer_dirs by blast
  then have "succeeds H (R n s) (prepare_git n repo ref l) (\<lambda>src fs. src = source_dir n \<and> R n s fs)" for ref
    unfolding prepare_git_def Let_def whenA_def
    by (intro succeeds_then [where Q = "R n s"] succeeds_mkdir_old succeeds_exists_known [OF there])
      (auto intro!: succeeds_then [OF succeeds_runs_sh [OF j]] succeeds_runs_sh [OF j] succeeds_return succeeds_then [where Q = "R n s"])
  moreover have "succeeds H (\<lambda>fs. src = source_dir n \<and> R n s fs) (thenA (whenA (pj_submodules project)
      (bindA (sh (git src ''submodule update --init --recursive --depth 1'') ROOT None l 1800)
            (\<lambda>rc. failing rc (''git submodule update failed for '' @ n)))) (returnA src)) (\<lambda>src fs. src = source_dir n \<and> R n s fs)" for src
    using succeeds_checked [OF j] unfolding whenA_def
    by (intro succeeds_then [where Q = "\<lambda>fs. src = source_dir n \<and> R n s fs"])
      (auto intro!: succeeds_return simp: succeeds_def)
  ultimately show ?thesis
    unfolding prepare_source_def p option.case bind_key_Some by (rule succeeds_bind)
qed

text \<open>A file of the job, in a directory that is known.\<close>

lemma succeeds_job_write:
  assumes j: "(n, s) \<in> set jobs" and r: "r @ [x] \<in> file_names" and d: "path_of (out_names @ job_name n s # r) \<in> D"
  shows "succeeds H (known (batch_dirs jobs) (batch_files jobs) D)
    (writeA (path_of (out_names @ job_name n s # r @ [x])) t) (\<lambda>_. known (batch_dirs jobs) (batch_files jobs) D)"
proof (rule succeeds_write [OF job_file [OF j r]])
  have "plain_names (out_names @ job_name n s # r)" "plain_name x"
    using job_names_ok(1) [OF jobs_ok [OF j]] file_names_plain [OF r] by simp_all
  with d show "path_parent (path_of (out_names @ job_name n s # r @ [x])) \<in> D"
    using parent_of [of "out_names @ job_name n s # r" x] by (simp del: path_of_simps)
qed

lemma succeeds_job_mkdir:
  assumes j: "(n, s) \<in> set jobs" and r: "r \<in> dir_names"
  shows "succeeds H (known (batch_dirs jobs) (batch_files jobs) (D \<union> batch_outer jobs)) (mkdirA True (path_of (out_names @ job_name n s # r)))
    (\<lambda>_. known (batch_dirs jobs) (batch_files jobs) (insert (path_of (out_names @ job_name n s # r)) (D \<union> batch_outer jobs)))"
  by (rule succeeds_mkdir [OF job_dir [OF j r]]) (use job_ancestors [OF j r] in blast)

lemma job_div:
  assumes j: "(n, s) \<in> set jobs" and r: "plain_names r" "plain_name x"
  shows "path_div (path_of (out_names @ job_name n s # r)) x = path_of (out_names @ job_name n s # r @ [x])"
  using path_div_of [of "out_names @ job_name n s # r" x] job_names_ok(1) [OF jobs_ok [OF j]] r by simp

abbreviation B :: "string \<Rightarrow> string \<Rightarrow> filesys \<Rightarrow> bool" where
  "B n s \<equiv> known (batch_dirs jobs) (batch_files jobs)
     ({path_of (out_names @ [job_name n s, ''bench'']), job_root n s} \<union> batch_outer jobs)"

lemma succeeds_tree_file:
  assumes j: "(n, s) \<in> set jobs"
  shows "succeeds H (B n s) (write_tree_file (path_of (out_names @ [job_name n s, ''bench'', ''tree''])) i) (\<lambda>_. B n s)"
proof -
  let ?d = "[''bench'', ''tree'', ''dir'' @ show_int (i mod 10)]" and ?f = "''file'' @ show_int i @ ''.txt''"
  have p: "plain_name ''bench''" "plain_name ''tree''" by (simp_all add: plain_name_def)
  have d: "path_div (path_of (out_names @ [job_name n s, ''bench'', ''tree''])) (''dir'' @ show_int (i mod 10)) =
      path_of (out_names @ job_name n s # ?d)"
    using job_div [OF j _ show_plain(1), of "[''bench'', ''tree'']" "i mod 10"] p by (simp del: path_of_simps)
  have f: "path_div (path_of (out_names @ job_name n s # ?d)) ?f = path_of (out_names @ job_name n s # ?d @ [?f])"
    using job_div [OF j _ show_plain(2), of ?d i] p show_plain(1) by (simp del: path_of_simps)
  have n: "?d \<in> dir_names" "?d @ [?f] \<in> file_names"
    by (auto simp: dir_names_def file_names_def)
  show ?thesis
    unfolding write_tree_file_def Let_def d f
    by (rule succeeds_then [OF succeeds_job_mkdir [OF j n(1)]],
        rule succeeds_post [OF succeeds_job_write [OF j n(2)]]) (auto elim: known_less)
qed

lemma succeeds_inputs:
  assumes j: "(n, s) \<in> set jobs"
  shows "succeeds H (R n s) (write_bench_inputs (path_div (job_root n s) ''bench'')) (\<lambda>_. R n s)"
proof -
  let ?b = "path_of (out_names @ [job_name n s, ''bench''])" and ?t = "path_of (out_names @ [job_name n s, ''bench'', ''tree''])"
  note names = job_names_ok(1) [OF jobs_ok [OF j]]
  have p: "plain_name ''bench''" "plain_name ''tree''" by (simp_all add: plain_name_def)
  have n: "[''bench''] \<in> dir_names" "[''bench'', ''tree''] \<in> dir_names" by (simp_all add: dir_names_def)
  have b: "path_div (job_root n s) ''bench'' = ?b"
    using job_div [OF j, of "[]" "''bench''"] p by (simp add: job_paths_of [OF jobs_ok [OF j]] del: path_of_simps)
  have t: "path_div ?b ''tree'' = ?t" using job_div [OF j, of "[''bench'']" "''tree''"] p by (simp del: path_of_simps)
  have mk: "succeeds H (R n s) (mkdirA True ?b) (\<lambda>_. B n s)"
    using succeeds_job_mkdir [OF j n(1), of "{job_root n s}"] by (simp add: insert_commute del: path_of_simps)
  have wr: "succeeds H (B n s) (writeA (path_div ?b x) y) (\<lambda>_. B n s)"
    if "x \<in> set (map fst bench_files @ [''input.ppm'', ''input.gif'', ''input.png''])" for x y
  proof -
    have f: "[''bench''] @ [x] \<in> file_names" using that by (auto simp: file_names_def)
    then have "path_div ?b x = path_of (out_names @ job_name n s # [''bench''] @ [x])"
      using job_div [OF j, of "[''bench'']" x] file_names_plain [OF f] by (simp del: path_of_simps)
    with succeeds_job_write [OF j f] show ?thesis by (simp del: path_of_simps)
  qed
  have rm: "succeeds H (B n s) (removeA ?t) (\<lambda>_. B n s)"
  proof (rule succeeds_post [OF succeeds_remove [OF job_dir [OF j n(2)]]])
    have "\<not> under ?t q \<and> q \<noteq> ?t" if "q \<in> batch_outer jobs" for q
      using outer_not_below [OF names _ that, of "[''bench'', ''tree'']"] p by (simp del: path_of_simps)
    moreover have "\<not> under ?t q \<and> q \<noteq> ?t" if "q \<in> {?b, job_root n s}" for q
      using that names p by (auto simp: under_of path_of_inj job_paths_of(1) [OF jobs_ok [OF j]] strict_prefix_def simp del: path_of_simps)
    ultimately show "\<forall>d\<in>{?b, job_root n s} \<union> batch_outer jobs. d \<noteq> ?t \<and> \<not> under ?t d" by blast
  qed simp
  have each: "succeeds H (B n s) ((\<lambda>(name, text). writeA (path_div ?b name) text) x) (\<lambda>_. B n s)" if "x \<in> set bench_files" for x
  proof -
    from that have "fst x \<in> set (map fst bench_files @ [''input.ppm'', ''input.gif'', ''input.png''])" by simp
    from wr [OF this, of "snd x"] show ?thesis by (simp add: case_prod_unfold)
  qed
  have "succeeds H (R n s) (write_bench_inputs ?b) (\<lambda>_. B n s)"
    unfolding write_bench_inputs_def t
    by (intro succeeds_then [OF mk] succeeds_then [where Q = "B n s"] succeeds_for rm succeeds_tree_file j wr each) simp_all
  then show ?thesis unfolding b by (rule succeeds_post) (auto elim: known_less)
qed

section \<open>Builds, runs, the summary\<close>

lemma succeeds_build:
  assumes j: "(n, s) \<in> set jobs" and v: "v \<in> variant_labels" and p: "pj_build project = Some command"
  shows "succeeds H (R n s) (build_variant n project (source_dir n) (job_root n s) v san dis k (job_log n s) t) (\<lambda>_. R n s)"
proof -
  note names = job_names_ok(1) [OF jobs_ok [OF j]]
  have pv: "plain_name v" "plain_name (''build-'' @ v)" using v by (auto simp: variant_labels_def plain_name_def)
  have n: "[''build-'' @ v] \<in> dir_names" "[v] \<in> dir_names" using v by (auto simp: dir_names_def)
  have b: "build_dir_of (job_root n s) v = path_of (out_names @ [job_name n s, ''build-'' @ v])"
    "path_div (job_root n s) v = path_of (out_names @ [job_name n s, v])"
    using job_div [OF j, of "[]"] pv by (simp_all add: build_dir_of_def job_paths_of [OF jobs_ok [OF j]] del: path_of_simps)
  let ?D = "insert (job_root n s) (batch_outer jobs)"
  have src: "source_dir n \<in> ?D"
    using outer_checkout [OF j, of "bench_names @ [n @ ''-src'']"] by (simp add: checkout_def job_paths_of [OF jobs_ok [OF j]] del: path_of_simps)
  have out: "\<not> under (path_of (out_names @ [job_name n s, ''build-'' @ v])) q \<and> q \<noteq> path_of (out_names @ [job_name n s, ''build-'' @ v])"
    if "q \<in> ?D" for q
  proof (cases "q = job_root n s")
    case True
    with names pv(2) show ?thesis
      by (auto simp: under_of path_of_inj job_paths_of(1) [OF jobs_ok [OF j]] strict_prefix_def simp del: path_of_simps)
  next
    case False
    with that outer_not_below [OF names, of "[''build-'' @ v]" q] pv(2) show ?thesis by (simp del: path_of_simps)
  qed
  have copy: "succeeds H (R n s) (copy_source (source_dir n) (build_dir_of (job_root n s) v)) (\<lambda>_. R n s)"
    unfolding b
  proof (rule succeeds_copy [OF job_dir [OF j n(1)] _ _ _ src])
    show "set (ancestors (path_of (out_names @ [job_name n s, ''build-'' @ v]))) \<subseteq> ?D \<union> batch_dirs jobs"
      using job_ancestors [OF j n(1)] by blast
    show "path_of (out_names @ [job_name n s, ''build-'' @ v]) \<notin> ?D" using out by blast
    show "\<forall>q\<in>batch_dirs jobs \<union> batch_files jobs \<union> ?D. \<not> under (path_of (out_names @ [job_name n s, ''build-'' @ v])) q"
      using out nothing_below_build [OF names v] by blast
  qed
  have mk: "succeeds H (R n s) (mkdirA True (path_div (job_root n s) v)) (\<lambda>_. R n s)"
    using succeeds_job_mkdir [OF j n(2), of "{job_root n s}"] unfolding b
    by (rule succeeds_pre [OF succeeds_post]) (auto elim: known_less simp del: path_of_simps)
  show ?thesis
    unfolding build_variant_def Let_def p bind_key_Some
    by (intro succeeds_then [OF copy] succeeds_then [OF mk] succeeds_environ succeeds_then [OF succeeds_append]
        succeeds_bind [OF succeeds_job_sh [OF j]] succeeds_then [OF succeeds_failing] succeeds_return)
qed

lemma succeeds_measure:
  assumes j: "(n, s) \<in> set jobs"
  shows "succeeds H (R n s) (run_runtime n project v dir bench runs loops t l) (\<lambda>_. R n s)"
proof -
  have run: "succeeds H (R n s) (timed_run v c d env l t i) (\<lambda>_. R n s)" for c d env i
    unfolding timed_run_def catch_timeout_def
    by (intro succeeds_clock succeeds_bind [OF succeeds_try [OF succeeds_job_sh [OF j]]] succeeds_clock)
      (rule succeeds_pre [OF succeeds_row], simp)
  have many: "succeeds H P (bindA environA (\<lambda>env. f env)) (\<lambda>_. R n s)" if "\<And>env. succeeds H P (f env) (\<lambda>_. R n s)" for P f
    using that by (rule succeeds_environ)
  have after: "succeeds H (\<lambda>fs. R n s fs \<and> X fs) m Y" if "succeeds H (R n s) m Y" for X m Y
    using that by (rule succeeds_pre) simp
  show ?thesis
    unfolding run_runtime_def measure_runs_def Let_def
    by (intro succeeds_exists) (auto intro!: after succeeds_then [OF succeeds_append] succeeds_for succeeds_row succeeds_environ run)
qed

lemma succeeds_summarize:
  assumes j: "(n, s) \<in> set jobs" and s: "map_of SANITIZERS s = Some san"
  shows "succeeds H (R n s) (summarize n s out_root) (\<lambda>_. R n s)"
proof -
  note names = job_names_ok(3) [OF jobs_ok [OF j]]
  have "succeeds H (R n s) (writeA (summary_file n s ''summary.md'') '''') (\<lambda>_. R n s)"
    using names job_reports(2) [OF j]
    by (intro succeeds_write) (simp_all add: job_paths_of [OF jobs_ok [OF j]] parent_of root_known del: path_of_simps insert_iff)
  then show ?thesis
    unfolding summarize_def Let_def s bind_key_Some
    by (intro succeeds_then [where Q = "R n s"] succeeds_bind [OF succeeds_proc [OF R_sub [OF j]]] succeeds_return) simp_all
qed

lemma succeeds_job:
  assumes j: "(n, s) \<in> set jobs" and p: "pj_archive project = None" "complete_project project"
    and s: "map_of SANITIZERS s = Some san"
  shows "succeeds H (R n s) (job_body n s project args) (\<lambda>_. R n s)"
proof -
  from p obtain repo command where pr: "pj_repo project = Some repo" "pj_build project = Some command"
    by (auto simp: complete_project_def)
  have v: "''native'' \<in> variant_labels" "''desan'' \<in> variant_labels" "sn_base_variant san \<in> variant_labels"
    using status_frame.sanitizer_variants [OF s] by (auto simp: variant_labels_def)
  have n: "[] @ [''runtime.csv''] \<in> file_names" by (simp add: file_names_def)
  have csv: "path_div (job_root n s) ''runtime.csv'' = path_of (out_names @ job_name n s # [] @ [''runtime.csv''])"
    using job_div [OF j, of "[]" "''runtime.csv''"] by (simp add: job_paths_of [OF jobs_ok [OF j]] plain_name_def del: path_of_simps)
  have wr: "succeeds H (R n s) (writeA (path_div (job_root n s) ''runtime.csv'') t) (\<lambda>_. R n s)" for t
    unfolding csv by (rule succeeds_job_write [OF j n]) (simp add: job_paths_of [OF jobs_ok [OF j]] del: path_of_simps)
  show ?thesis
    unfolding job_body_def Let_def s bind_key_Some
    by (rule succeeds_bind_value [OF succeeds_source [OF j p(1) pr(1)]])
      (intro succeeds_then [where Q = "R n s"] succeeds_bind [where Q = "\<lambda>_. R n s"] succeeds_inputs [OF j]
        succeeds_build [OF j _ pr(2)] v succeeds_csv [OF wr _ succeeds_append] succeeds_row succeeds_measure [OF j]
        succeeds_summarize [OF j s])
qed

section \<open>A job's row, and the batch\<close>

lemma succeeds_reported:
  assumes "succeeds H P m (\<lambda>_. Q)"
  shows "succeeds H P (reported l m) (\<lambda>x fs. x = (''S'', '''') \<and> Q fs)"
  unfolding reported_def by (intro succeeds_try succeeds_then [OF assms] succeeds_return) simp

lemma job_runs:
  fixes w :: world
  assumes j: "(n, s) \<in> set jobs" and p: "git_project n" and s: "map_of SANITIZERS s = Some san"
    and h: "H h" "K (w_fs w)"
  obtains w' where "run_one n s args path h w = (Inr (), w')" "K (w_fs w')" "w_status w' = w_status w @ [[n, s, ''S'', '''']]"
proof -
  from p obtain project where project: "map_of PROJECTS n = Some project" "pj_archive project = None"
    by (auto simp: git_project_def split: option.splits)
  from registry_complete project(1) have c: "complete_project project"
    by (auto simp: list_all_iff dest!: map_of_SomeD)
  let ?rep = "reported (job_log n s) (job_body n s project args)" and ?row = "[n, s, ''S'', '''']"
  from succeeds_start [OF j] h obtain u where u: "start_job n s h w = (Inr (), u)" "R n s (w_fs u)"
    by (auto elim: succeedsE)
  from succeeds_reported [OF succeeds_job [OF j project(2) c s]] h(1) u(2) obtain v where
    v: "?rep h u = (Inr (''S'', ''''), v)" "R n s (w_fs v)"
    by (rule succeedsE) auto
  have "succeeds H (R n s) (appendA path (row_text (CHR '','') ?row)) (\<lambda>_. R n s)" by (rule succeeds_append)
  then obtain w' where w': "appendA path (row_text (CHR '','') ?row) h (v\<lparr>w_status := w_status v @ [?row]\<rparr>) = (Inr (), w')" "R n s (w_fs w')"
    using h(1) v(2) by (auto elim: succeedsE [where w = "v\<lparr>w_status := w_status v @ [?row]\<rparr>"])
  have row: "statusA path ?row h v = (Inr (), w')" using w'(1) by (simp add: statusA_def thenA_def bindA_def)
  have run: "run_one n s args path h w = (Inr (), w')"
    using u(1) v(1) row by (simp add: run_one_def project keyA_def returnA_def thenA_def bindA_def)
  from run_one_status [OF run] have "\<exists>row. w_status w' = w_status w @ [row]" by auto
  with statusA_status [OF row] have "w_status w' = w_status w @ [?row]" by auto
  moreover have "K (w_fs w')" by (rule known_less [OF w'(2)]) blast
  ultimately show thesis using run by (intro that)
qed

lemma batch_runs:
  fixes w :: world
  assumes js: "set js \<subseteq> set jobs" and ok: "\<forall>(n, s)\<in>set js. git_project n \<and> map_of SANITIZERS s \<noteq> None"
    and h: "H h" "K (w_fs w)"
  obtains w' where "forA (batch_job args path) js h w = (Inr (), w')" "K (w_fs w')"
    "w_status w' = w_status w @ map (\<lambda>(n, s). [n, s, ''S'', '''']) js"
  using assms
proof (induction js arbitrary: w thesis)
  case Nil
  then show ?case by (simp add: returnA_def)
next
  case (Cons j js)
  obtain n s where j: "j = (n, s)" by (cases j)
  with Cons.prems(3) obtain san where ns: "git_project n" "map_of SANITIZERS s = Some san" by auto
  let ?w = "w\<lparr>w_prints := w_prints w @ [''=== '' @ n @ '' '' @ s @ '' ==='']\<rparr>"
  have "(n, s) \<in> set jobs" "K (w_fs ?w)" using Cons.prems j by simp_all
  from job_runs [OF this(1) ns Cons.prems(4) this(2)] obtain u where
    u: "run_one n s args path h ?w = (Inr (), u)" "K (w_fs u)" "w_status u = w_status ?w @ [[n, s, ''S'', '''']]" .
  from Cons.IH [OF _ _ _ Cons.prems(4) u(2)] Cons.prems(2,3) obtain w' where
    w': "forA (batch_job args path) js h u = (Inr (), w')" "K (w_fs w')" "w_status w' = w_status u @ map (\<lambda>(n, s). [n, s, ''S'', '''']) js"
    by auto
  have "forA (batch_job args path) (j # js) h w = (Inr (), w')"
    using u(1) w'(1) by (simp add: j batch_job_def printA_def thenA_def bindA_def)
  with w' u(3) j show ?case by (intro Cons.prems(1)) simp_all
qed

lemma succeeds_open:
  assumes "p \<in> batch_files jobs" "path_parent p \<in> batch_outer jobs"
  shows "succeeds H K (open_append p) (\<lambda>_. K)"
  unfolding open_append_def
proof (rule succeeds_exists)
  have "succeeds H (\<lambda>fs. K fs \<and> map_of fs p \<noteq> None)
      (osA (\<lambda>fs. if map_of fs p = Some Dir then Inl (os_error 21 ''Is a directory'' p) else Inr fs)) (\<lambda>_. K)"
    by (rule succeeds_os [OF calm_os]) (use assms(1) in \<open>auto simp: known_def conforms_def\<close>)
  then show "succeeds H (\<lambda>fs. K fs \<and> map_of fs p \<noteq> None)
      (if True then osA (\<lambda>fs. if map_of fs p = Some Dir then Inl (os_error 21 ''Is a directory'' p) else Inr fs)
       else writeA p '''') (\<lambda>_. K)" by simp
  show "succeeds H (\<lambda>fs. K fs \<and> map_of fs p = None)
      (if False then osA (\<lambda>fs. if map_of fs p = Some Dir then Inl (os_error 21 ''Is a directory'' p) else Inr fs)
       else writeA p '''') (\<lambda>_. K)"
    unfolding if_False by (rule succeeds_pre [OF succeeds_write [OF assms]]) simp
qed

lemma status_path: "default_status_file \<in> batch_files jobs" "path_parent default_status_file \<in> batch_outer jobs"
proof -
  have "path_parent default_status_file = path_of out_names" by code_simp
  then show "path_parent default_status_file \<in> batch_outer jobs" using outer_dirs by auto
  show "default_status_file \<in> batch_files jobs" by (simp add: default_status batch_files_def del: path_of_simps)
qed

text \<open>A file system with nothing but what the batch needs is ready.\<close>

lemma only_outer:
  assumes "fs = map (\<lambda>p. (p, Dir)) ps" "set ps = batch_outer jobs"
  shows "K fs"
proof -
  have at: "map_of fs q = (if q \<in> batch_outer jobs then Some Dir else None)" for q
  proof -
    have "map_of (map (\<lambda>p. (p, Dir)) ps) q = (if q \<in> set ps then Some Dir else None)" by (induction ps) auto
    with assms show ?thesis by simp
  qed
  have "q \<notin> batch_outer jobs" if "q \<in> batch_files jobs" for q
  proof -
    from that consider (job) j ns where "q = path_of ns" "j \<in> set jobs" "ns \<in> job_files j"
      | (status) "q = path_of (out_names @ [status_name])"
      unfolding batch_files_def by blast
    then obtain x r where "q = path_of (out_names @ x # r)" "plain_name x" "plain_names r"
    proof cases
      case (job j ns)
      from job_files_plain [OF jobs_ok [OF job(2)] job(3)] have "plain_names ns" .
      moreover from job(3) obtain x r where "ns = out_names @ x # r" by (auto simp: job_files_def split: prod.splits)
      ultimately show thesis using job(1) by (intro that [of x r]) simp_all
    next
      case status
      with status_plain show thesis by (intro that [of status_name "[]"]) simp_all
    qed
    with outer_not_below show ?thesis by blast
  qed
  then show ?thesis by (auto simp: known_def conforms_def at)
qed

lemma batch_main_runs:
  fixes w :: world
  assumes js: "jobs = batch_jobs args" and ok: "\<forall>(n, s)\<in>set jobs. git_project n \<and> map_of SANITIZERS s \<noteq> None"
    and names: "set (batch_projects args) \<subseteq> set (dkeys PROJECTS)" "set (batch_names (ba_sanitizers args)) \<subseteq> set (dkeys SANITIZERS)"
    and h: "H h" "K (w_fs w)" and env: "map_of (h_environ h) ''OSS_STATUS_FILE'' = None"
  obtains w' where "batch_main args h w = (Inr (), w')"
    "w_status w' = w_status w @ (if map_of (w_fs w) default_status_file = None then [status_header] else []) @
      map (\<lambda>(n, s). [n, s, ''S'', '''']) jobs"
proof -
  let ?path = default_status_file and ?new = "map_of (w_fs w) default_status_file = None"
  let ?u = "w\<lparr>w_tick := w_tick w + 1\<rparr>"
  have target: "path_str (dget (h_environ h) ''OSS_STATUS_FILE'' ?path) = ?path"
    using env by (simp add: dget_def default_status(2))
  from h(2) have "map_of (w_fs w) OUT_BASE = Some Dir" using outer_dirs by (auto simp: known_def base_paths)
  then have "fs_mkdir True OUT_BASE (w_fs w) = Inr (w_fs w)" by (simp add: fs_mkdir_def)
  with calm_os [OF h(1)] have mk: "mkdirA True OUT_BASE h w = (Inr (), ?u)" by (simp add: mkdirA_def osA_def)
  have "K (w_fs ?u)" using h(2) by simp
  from succeedsE [OF succeeds_open [OF status_path] h(1) this] obtain v where
    v: "open_append ?path h ?u = (Inr (), v)" "K (w_fs v)" by auto
  have vs: "w_status v = w_status w" using keepsD [OF keeps_open TrueI v(1)] by (simp add: same_status_def)
  have "succeeds H K (appendA ?path t) (\<lambda>_. K)" for t by (rule succeeds_append)
  from succeedsE [OF this h(1), of "v\<lparr>w_status := w_status v @ [status_header]\<rparr>" "row_text (CHR '','') status_header"] v(2)
  obtain x where x: "statusA ?path status_header h v = (Inr (), x)" "K (w_fs x)"
    by (auto simp: statusA_def thenA_def bindA_def)
  have xs: "w_status x = w_status w @ [status_header]" using statusA_status [OF x(1)] vs by simp
  obtain y where y: "whenA ?new (statusA ?path status_header) h v = (Inr (), y)" "K (w_fs y)"
    "w_status y = w_status w @ (if ?new then [status_header] else [])"
  proof (cases ?new)
    case True
    with x xs show thesis by (intro that [of x]) (simp_all add: whenA_def)
  next
    case False
    with v(2) vs show thesis by (intro that [of v]) (simp_all only: whenA_def returnA_def if_False append_Nil2 simp_thms)
  qed
  from batch_runs [OF subset_refl ok h(1) y(2), of args ?path] obtain w' where
    w': "forA (batch_job args ?path) jobs h y = (Inr (), w')" "w_status w' = w_status y @ map (\<lambda>(n, s). [n, s, ''S'', '''']) jobs" .
  have "batch_main args h w = (Inr (), w')"
    unfolding batch_main_def batch_job_def [symmetric] Let_def js [symmetric]
    using mk v(1) y(1) w'(1) checks_pass [OF names(1)] checks_pass [OF names(2)]
    by (simp add: thenA_def bindA_def environA_def existsA_def getA_def target)
  with w'(2) y(3) show thesis by (intro that) simp_all
qed

end

text \<open>Every job of the registry, with every sanitizer, has plain names.\<close>

definition every_job :: "(string \<times> string) list" where
  "every_job = List.product (dkeys PROJECTS) (dkeys SANITIZERS)"

interpretation every: calm_batch every_job
proof
  fix j assume "j \<in> set every_job"
  then show "job_ok j"
    using registry_complete by (auto simp: every_job_def job_ok_def SANITIZERS_def list_all_iff)
qed

lemma git_project_registered: "git_project n \<Longrightarrow> n \<in> set (dkeys PROJECTS) \<and> plain_name n"
  using registry_complete
  by (auto simp: git_project_def list_all_iff split: option.splits dest!: map_of_SomeD intro: rev_image_eqI)

text \<open>
  C8: on a calm host, with every project of the batch a git project that is checked out and
  nothing in the way, the batch runs to its end and reports \<open>S\<close> for every job, in order.
\<close>

theorem batch_succeeds:
  fixes w :: world
  assumes projects: "\<forall>p\<in>set (batch_projects args). git_project p"
    and sanitizers: "set (batch_names (ba_sanitizers args)) \<subseteq> set (dkeys SANITIZERS)"
    and calm: "calm (batch_dirs (batch_jobs args)) (batch_files (batch_jobs args)) (batch_outer (batch_jobs args)) h"
    and ready: "known (batch_dirs (batch_jobs args)) (batch_files (batch_jobs args)) (batch_outer (batch_jobs args)) (w_fs w)"
    and env: "map_of (h_environ h) ''OSS_STATUS_FILE'' = None"
  shows "\<exists>w'. batch_main args h w = (Inr (), w') \<and>
    w_status w' = w_status w @ (if map_of (w_fs w) default_status_file = None then [status_header] else []) @
      map (\<lambda>(project, sanitizer). [project, sanitizer, ''S'', '''']) (batch_jobs args)"
proof -
  have s: "s \<in> {''asan'', ''ubsan'', ''msan''} \<and> map_of SANITIZERS s \<noteq> None" if "s \<in> set (dkeys SANITIZERS)" for s
    using that by (auto simp: SANITIZERS_def)
  have batch: "calm_batch (batch_jobs args)"
  proof
    fix j assume "j \<in> set (batch_jobs args)"
    then obtain n t where j: "j = (n, t)" "n \<in> set (batch_projects args)" "t \<in> set (batch_names (ba_sanitizers args))"
      by (auto simp: batch_jobs_def)
    with projects sanitizers have "git_project n" "t \<in> set (dkeys SANITIZERS)" by blast+
    with s git_project_registered show "job_ok j" unfolding j(1) job_ok_def by blast
  qed
  have ok: "\<forall>(n, t)\<in>set (batch_jobs args). git_project n \<and> map_of SANITIZERS t \<noteq> None"
    using projects sanitizers s unfolding batch_jobs_def set_product by blast
  have registered: "set (batch_projects args) \<subseteq> set (dkeys PROJECTS)" using projects git_project_registered by blast
  show ?thesis
    by (rule calm_batch.batch_main_runs [OF batch refl ok registered sanitizers calm ready env]) blast
qed

section \<open>A calm host\<close>

text \<open>
  Such a host exists: every process ends well at once and leaves the files alone. With one
  checkout, zlib's, it runs a batch of one job.
\<close>

definition quiet_host :: host where
  "quiet_host = \<lparr>h_run = \<lambda>w p. (Exited 0, w_fs w), h_os = \<lambda>t. None, h_clock = \<lambda>t. Fin (of_nat t), h_environ = []\<rparr>"

definition quiet_args :: batch_args where
  "quiet_args = \<lparr>ba_projects = '' zlib,'', ba_sanitizers = ''asan'', ba_runs = 2, ba_loops = 1, ba_jobs = 1,
     ba_build_timeout = 60, ba_run_timeout = 60\<rparr>"

definition quiet_world :: world where
  "quiet_world = \<lparr>w_fs = map (\<lambda>p. (p, Dir)) [''/'', ''/home'', ''/home/dragon'', ''/home/dragon/DESAN'',
       ''/home/dragon/DESAN/benchmarks'', ''/home/dragon/DESAN/benchmarks/zlib-src'',
       ''/home/dragon/DESAN/benchmarks/zlib-src/.git'', ''/home/dragon/DESAN/out''],
     w_tick = 0, w_procs = [], w_rows = [], w_status = [], w_prints = []\<rparr>"

lemma quiet_jobs: "batch_jobs quiet_args = [(''zlib'', ''asan'')]"
  by code_simp

lemma quiet_git: "git_project ''zlib''"
  by code_simp

lemma quiet_calm: "calm ds fl outer quiet_host"
  by (simp add: calm_def quiet_host_def)

lemma quiet_batch: "calm_batch [(''zlib'', ''asan'')]"
  by unfold_locales (simp add: job_ok_def plain_name_def)

lemma quiet_ready:
  "known (batch_dirs [(''zlib'', ''asan'')]) (batch_files [(''zlib'', ''asan'')]) (batch_outer [(''zlib'', ''asan'')]) (w_fs quiet_world)"
proof -
  let ?ps = "map fst (w_fs quiet_world)"
  have "w_fs quiet_world = map (\<lambda>p. (p, Dir)) ?ps" by (simp add: quiet_world_def)
  moreover have "set ?ps = batch_outer [(''zlib'', ''asan'')]"
    by (auto simp: quiet_world_def batch_outer_def checkout_def out_names_def bench_names_def)
  ultimately show ?thesis by (rule calm_batch.only_outer [OF quiet_batch])
qed

theorem batch_succeeds_witness:
  "\<exists>w'. batch_main quiet_args quiet_host quiet_world = (Inr (), w') \<and>
     w_status w' = [status_header, [''zlib'', ''asan'', ''S'', '''']]"
proof -
  have "batch_projects quiet_args = [''zlib'']" "batch_names (ba_sanitizers quiet_args) = [''asan'']"
    "dkeys SANITIZERS = [''asan'', ''ubsan'', ''msan'']" "w_status quiet_world = []"
    "map_of (w_fs quiet_world) default_status_file = None"
    by code_simp+
  then show ?thesis
    using batch_succeeds [of quiet_args quiet_host quiet_world] quiet_git quiet_calm quiet_ready
    by (simp add: quiet_jobs quiet_host_def)
qed

lemma quiet_run:
  obtains w' where "run_one ''zlib'' ''asan'' quiet_args default_status_file quiet_host quiet_world = (Inr (), w')"
    "w_status w' = w_status quiet_world @ [[''zlib'', ''asan'', ''S'', '''']]"
proof -
  have "map_of SANITIZERS ''asan'' = Some (the (map_of SANITIZERS ''asan''))" by (simp add: SANITIZERS_def)
  from calm_batch.job_runs [OF quiet_batch _ quiet_git this quiet_calm quiet_ready, of quiet_args default_status_file] that
  show thesis by auto
qed

lemma quiet_batch_run:
  obtains w' where "batch_main quiet_args quiet_host quiet_world = (Inr (), w')"
proof -
  have n: "set (batch_projects quiet_args) \<subseteq> set (dkeys PROJECTS)"
    "set (batch_names (ba_sanitizers quiet_args)) \<subseteq> set (dkeys SANITIZERS)"
    by code_simp+
  have ok: "\<forall>(n, s)\<in>set [(''zlib'', ''asan'')]. git_project n \<and> map_of SANITIZERS s \<noteq> None"
    using quiet_git by (simp add: SANITIZERS_def)
  have env: "map_of (h_environ quiet_host) ''OSS_STATUS_FILE'' = None" by (simp add: quiet_host_def)
  show thesis
    by (rule calm_batch.batch_main_runs [OF quiet_batch quiet_jobs [symmetric] ok n quiet_calm quiet_ready env]) (rule that)
qed

end
