(* ===== verification/FloatText.thy ===== *)
theory FloatText
  imports PyFloat
begin

text \<open>
  A float printed with a fixed number of digits and read back: the value is the one rounded to
  that many digits, rounded again to a float.
\<close>

lemma digit_lower: "is_digit c \<Longrightarrow> lower_char c = c"
  by (auto simp: is_digit_def lower_char_def Let_def)

lemma dec_val_zeros: "dec_val (replicate k (CHR ''0'') @ s) = dec_val s"
  by (induction k) (simp_all add: dec_val_def digit_val_def)

lemma fixed_digits_parts:
  assumes "0 \<le> m"
  obtains ip fp where "fixed_digits d m = ip @ CHR ''.'' # fp" "ip \<noteq> []" "length fp = d"
    "list_all is_digit ip" "list_all is_digit fp" "dec_val (ip @ fp) = m"
proof -
  define p where "p = replicate (Suc d - length (show_digits m)) (CHR ''0'') @ show_digits m"
  have l: "d < length p" by (simp add: p_def)
  have digits: "list_all is_digit p"
    using show_digits_digits [OF assms] by (auto simp: p_def list_all_iff is_digit_def)
  show thesis
  proof (rule that)
    show "fixed_digits d m = take (length p - d) p @ CHR ''.'' # drop (length p - d) p"
      by (simp only: fixed_digits_def p_def Let_def)
    show "take (length p - d) p \<noteq> []" using l by auto
    show "length (drop (length p - d) p) = d" using l by simp
    show "list_all is_digit (take (length p - d) p)" "list_all is_digit (drop (length p - d) p)"
      using digits by (auto simp: list_all_iff dest: in_set_takeD in_set_dropD)
    show "dec_val (take (length p - d) p @ drop (length p - d) p) = m"
      using assms unfolding append_take_drop_id by (simp add: p_def dec_val_zeros)
  qed
qed

lemma parse_fixed_digits:
  assumes "0 \<le> m"
  shows "parse_decimal (fixed_digits d m) = Some (of_int m / 10 ^ d)"
proof -
  from fixed_digits_parts [OF assms] obtain ip fp where
    p: "fixed_digits d m = ip @ CHR ''.'' # fp" "ip \<noteq> []" "length fp = d"
    "list_all is_digit ip" "list_all is_digit fp" "dec_val (ip @ fp) = m" .
  have nd: "\<not> is_digit (CHR ''.'')" by (simp add: is_digit_def)
  have t: "takeWhile is_digit (ip @ CHR ''.'' # fp) = ip" "dropWhile is_digit (ip @ CHR ''.'' # fp) = CHR ''.'' # fp"
    "takeWhile is_digit fp = fp" "dropWhile is_digit fp = []"
    using p nd by (auto simp: list_all_iff takeWhile_append2 dropWhile_append2)
  have "parse_decimal (ip @ CHR ''.'' # fp) = Some (of_int m / 10 ^ d)"
    using p(2) by (simp add: parse_decimal_def ten_pow_def Let_def t p(3,6))
  then show ?thesis by (simp add: p(1))
qed

definition reread :: "nat \<Rightarrow> pyfloat \<Rightarrow> pyfloat" where
  "reread d x = (if \<not> is_finite x then x
     else of_exact (signbit x) (of_int ((if signbit x then -1 else 1) * rhe (\<bar>fval x\<bar> * 10 ^ d)) / 10 ^ d))"

text \<open>Text of digits with one dot, with or without a minus sign.\<close>

lemma py_float_decimal:
  assumes "s = ip @ CHR ''.'' # fp" "ip \<noteq> []" "list_all is_digit ip" "list_all is_digit fp" "fp \<noteq> []"
    and "parse_decimal s = Some q"
  shows "py_float s = Inr (of_exact False q)" "py_float (CHR ''-'' # s) = Inr (of_exact True (- q))"
proof -
  have c: "\<forall>c\<in>set s. is_digit c \<or> c = CHR ''.''" using assms by (auto simp: list_all_iff)
  then have u: "CHR ''_'' \<notin> set s" by (auto simp: is_digit_def)
  obtain a s' where s: "s = a # s'" "is_digit a" using assms(1,2,3) by (cases ip) auto
  have l: "is_digit (last s)" using assms by (auto simp: list_all_iff)
  have "num_strip s = s" "num_strip (CHR ''-'' # s) = CHR ''-'' # s"
    using s l by (auto intro!: num_strip_id simp: digit_not_num_space, simp add: num_space_def)
  moreover have "take_sign s = (False, s)" "take_sign (CHR ''-'' # s) = (True, s)"
    using s digit_not_sign [OF s(2)] by (simp_all add: take_sign_def)
  moreover have "lower s \<noteq> ''inf'' \<and> lower s \<noteq> ''infinity'' \<and> lower s \<noteq> ''nan''"
    using s digit_lower [OF s(2)] by (auto simp: lower_def is_digit_def)
  ultimately show "py_float s = Inr (of_exact False q)" "py_float (CHR ''-'' # s) = Inr (of_exact True (- q))"
    using assms(6) u by (simp_all add: py_float_def drop_underscores_none underscores_ok_none)
qed

lemma py_float_fmt_fixed:
  assumes "0 < d"
  shows "py_float (fmt_fixed d x) = Inr (reread d x)"
proof (cases "is_finite x")
  case True
  let ?m = "rhe (\<bar>fval x\<bar> * 10 ^ d)"
  have m: "0 \<le> ?m" by (simp add: rhe_nonneg)
  from fixed_digits_parts [OF m] obtain ip fp where
    p: "fixed_digits d ?m = ip @ CHR ''.'' # fp" "ip \<noteq> []" "length fp = d"
    "list_all is_digit ip" "list_all is_digit fp" .
  have f: "fmt_fixed d x = (if signbit x then ''-'' else '''') @ fixed_digits d ?m"
    using True by (cases x) (simp_all add: fmt_fixed_def)
  have "fp \<noteq> []" using p(3) assms by auto
  from py_float_decimal [OF p(1,2,4,5) this parse_fixed_digits [OF m]] f True
  show ?thesis by (simp add: reread_def)
next
  case False
  then consider "x = NaN" | "x = PosInf" | "x = NegInf" by (cases x) auto
  then show ?thesis
    by cases (simp add: fmt_fixed_def reread_def, code_simp, simp add: fmt_fixed_def reread_def, code_simp,
      simp add: fmt_fixed_def reread_def, code_simp)
qed

end
