(* ===== verification/JobReport.thy ===== *)
theory JobReport
  imports JobLiveness OssRuntime FloatText
begin

text \<open>
  A job that reports \<open>S\<close>: what it has started, and what the summary script reads from the run
  time file it has written.
\<close>

section \<open>Inversion of a job\<close>

lemma start_files_only: "keeps (\<lambda>_. True) files_only (start_job name sanitizer)"
  unfolding start_job_def Let_def unlinkA_def existsA_def
  by (intro files_frame.keeps_rules files_only_os files_only_actions)

lemma statusA_files_only: "keeps (\<lambda>_. True) files_only (statusA path row)"
  unfolding statusA_def
  by (intro files_frame.keeps_then files_only_actions) (simp add: keeps_def files_only_def)

lemma reported_S:
  assumes "reported l m h w = (Inr (''S'', message), w')"
  shows "m h w = (Inr (), w')"
  using assms
  by (auto simp: reported_def tryA_def thenA_def bindA_def returnA_def split: prod.splits sum.splits job_exn.splits)

lemma job_body_sanitizer:
  assumes "job_body name sanitizer project args h w = (Inr (), w')"
  obtains san where "map_of SANITIZERS sanitizer = Some san"
proof (cases "map_of SANITIZERS sanitizer")
  case None
  from assms show thesis
    unfolding job_body_def Let_def None keyA_def option.case
    by (elim bind_Inr then_Inr) (simp add: bindA_def raiseA_def)
qed

lemma run_one_S:
  assumes "run_one name sanitizer args path h w = (r, w')"
    and "w_status w' = w_status w @ [[name, sanitizer, ''S'', '''']]"
  obtains project san u v where "map_of PROJECTS name = Some project" "map_of SANITIZERS sanitizer = Some san"
    "job_body name sanitizer project args h u = (Inr (), v)" "w_procs u = w_procs w" "w_procs w' = w_procs v"
    "statusA path [name, sanitizer, ''S'', ''''] h v = (r, w')"
proof (cases "map_of PROJECTS name")
  case None
  with assms show thesis by (auto simp: run_one_def keyA_def bindA_def raiseA_def)
next
  case (Some project)
  let ?rep = "reported (job_log name sanitizer) (job_body name sanitizer project args)"
  let ?last = "\<lambda>(status, message). statusA path [name, sanitizer, status, message]"
  have start: "keeps (\<lambda>_. True) same_status (start_job name sanitizer)"
    by (intro status_frame.keeps_start) simp
  have rep: "keeps (\<lambda>_. True) same_status ?rep"
    by (intro status_frame.keeps_reported status_frame.keeps_job_body project_names_plain [OF Some]) simp_all
  from assms(1) Some have "thenA (start_job name sanitizer) (bindA ?rep ?last) h w = (r, w')"
    by (simp add: run_one_def)
  then obtain u where u: "start_job name sanitizer h w = (Inr (), u)" "bindA ?rep ?last h u = (r, w')"
    using keepsD [OF start TrueI] assms(2) by (cases rule: thenA_cases) (auto simp: same_status_def)
  from keepsD [OF start TrueI u(1)] have us: "w_status u = w_status w" by (simp add: same_status_def)
  from u(2) obtain x v where v: "?rep h u = (Inr x, v)" "?last x h v = (r, w')"
    using keepsD [OF rep TrueI] assms(2) us by (cases rule: bindA_cases) (auto simp: same_status_def)
  from keepsD [OF rep TrueI v(1)] us have vs: "w_status v = w_status w" by (simp add: same_status_def)
  obtain status message where x: "x = (status, message)" by (cases x)
  with v(2) have st: "statusA path [name, sanitizer, status, message] h v = (r, w')" by simp
  from statusA_status [OF this] vs assms(2) have sm: "status = ''S''" "message = ''''" by auto
  with v(1) x have body: "job_body name sanitizer project args h u = (Inr (), v)" by (auto dest: reported_S)
  from job_body_sanitizer [OF body] obtain san where san: "map_of SANITIZERS sanitizer = Some san" .
  from keepsD [OF start_files_only TrueI u(1)] keepsD [OF statusA_files_only TrueI st]
  have "w_procs u = w_procs w" "w_procs w' = w_procs v" by (simp_all add: files_only_def)
  with Some san body st sm show thesis by (intro that [of project san u v]) simp_all
qed

lemma base_env_flag [simp]:
  "map_of (base_env env s dis out name jobs) ''DESAN_SPEC_DISABLE_PASS'' = Some (if dis then ''1'' else ''0'')"
  unfolding base_env_def with_vars_def kept_var_def by (simp only: fold.simps comp_def id_def prod.case map_of_dset fun_upd_apply) simp

lemma job_trace_flags:
  assumes "job_trace env name sanitizer project san args ps rows"
  shows "map (\<lambda>(p, e). (map_option (\<lambda>env. map_of env ''DESAN_SPEC_DISABLE_PASS'') (pr_env p), e)) (take 3 ps) =
      [(Some (Some ''1''), Exited 0), (Some (Some ''1''), Exited 0), (Some (Some ''0''), Exited 0)]"
  using assms unfolding job_trace_def Let_def by (auto simp: build_proc_def bash_def numeral_3_eq_3)

lemma projects_complete: "map_of PROJECTS name = Some p \<Longrightarrow> complete_project p"
  using registry_complete by (auto simp: list_all_iff dest!: map_of_SomeD)



section \<open>The run time file read back\<close>

lemma fixed_text_chars: "c \<in> set (fmt_fixed (Suc d) x) \<Longrightarrow> \<not> is_space c"
proof -
  have dg: "is_digit c \<Longrightarrow> \<not> is_space c" for c by (rule is_digit_not_space)
  have sp: "\<not> is_space (CHR ''-'')" "\<not> is_space (CHR ''.'')" "\<not> is_space (CHR ''n'')" "\<not> is_space (CHR ''a'')"
    "\<not> is_space (CHR ''i'')" "\<not> is_space (CHR ''f'')" by (simp_all add: is_space_def)
  assume c: "c \<in> set (fmt_fixed (Suc d) x)"
  obtain ip fp where p: "fixed_digits (Suc d) (rhe (\<bar>fval x\<bar> * 10 ^ Suc d)) = ip @ CHR ''.'' # fp"
    "list_all is_digit ip" "list_all is_digit fp"
    by (rule fixed_digits_parts [of "rhe (\<bar>fval x\<bar> * 10 ^ Suc d)" "Suc d"]) (auto simp: rhe_nonneg)
  show ?thesis
  proof (cases "is_finite x")
    case True
    then have "fmt_fixed (Suc d) x = (if signbit x then ''-'' else '''') @ ip @ CHR ''.'' # fp"
      using p(1) by (cases x) (simp_all add: fmt_fixed_def)
    with c p(2,3) show ?thesis using dg sp by (auto simp: list_all_iff split: if_splits)
  next
    case False
    with c sp show ?thesis by (cases x) (auto simp: fmt_fixed_def)
  qed
qed

lemma fixed_text_long: "fmt_fixed (Suc d) x \<noteq> '''' \<and> fmt_fixed (Suc d) x \<noteq> ''--''"
proof -
  have "py_float '''' = Inl ValueError" "py_float ''--'' = Inl ValueError" by code_simp+
  with py_float_fmt_fixed [of "Suc d" x] show ?thesis by auto
qed

lemma numeric_fixed: "numeric (Some (fmt_fixed (Suc d) x)) = Some (reread (Suc d) x)"
proof -
  have "fmt_fixed (Suc d) x \<noteq> ''''" using fixed_text_long by blast
  then have "trimmed (fmt_fixed (Suc d) x)"
    using fixed_text_chars hd_in_set last_in_set unfolding trimmed_def by blast
  then have "strip (fmt_fixed (Suc d) x) = fmt_fixed (Suc d) x" by (rule strip_trimmed)
  then show ?thesis using fixed_text_long [of d x] py_float_fmt_fixed [of "Suc d" x] by (simp add: numeric_def)
qed

lemma numeric_empty: "numeric (Some '''') = None"
  by (simp add: numeric_def strip_def lstrip_def rstrip_def)

lemma runtime_row:
  "row_get_or (dict_row runtime_header [a, b, c, d]) ''Variant'' x = Some a"
  "row_get_or (dict_row runtime_header [a, b, c, d]) ''Status'' x = Some c"
  "row_get (dict_row runtime_header [a, b, c, d]) ''Seconds'' = Some d"
  by (simp_all add: dict_row_def runtime_header_def row_get_or_def row_get_def)

text \<open>What the reader keeps for a variant of the rows of a run time file.\<close>

definition read_runs :: "string \<Rightarrow> string list list \<Rightarrow> (string option \<times> pyfloat option) list" where
  "read_runs label rows = map (\<lambda>row. (row_get_or row ''Status'' '''', numeric (row_get row ''Seconds'')))
     (filter (\<lambda>row. row_get_or row ''Variant'' '''' = Some label) (map (dict_row runtime_header) rows))"

lemma read_runs_append: "read_runs label (xs @ ys) = read_runs label xs @ read_runs label ys"
  by (simp add: read_runs_def)

text \<open>
  The runs of a variant as they are read: \<open>n\<close> entries without a time when nothing was run,
  otherwise one for each run, \<open>S\<close> when it ended with exit code 0, with its time as it reads back.
\<close>

definition runs_read :: "int \<Rightarrow> (proc \<times> proc_end) list \<Rightarrow> (string option \<times> pyfloat option) list \<Rightarrow> bool" where
  "runs_read n ps es \<longleftrightarrow>
     (ps = [] \<and> es = replicate (nat n) (Some ''NR'', None)) \<or>
     (length ps = nat n \<and> list_all2 (\<lambda>(p, e) (s, t). s = Some (if e = Exited 0 then ''S'' else ''RE'') \<and>
        (\<exists>x. t = Some (reread 6 x))) ps es)"

lemma read_missing: "read_runs label (map (missing_row l) is) = (if l = label then replicate (length is) (Some ''NR'', None) else [])"
  by (induction "is") (auto simp: read_runs_def missing_row_def runtime_row numeric_empty)

lemma read_run_row:
  "read_runs label [run_row l i (e, x)] =
     (if l = label then [(Some (if e = Exited 0 then ''S'' else ''RE''), Some (reread 6 x))] else [])"
  using numeric_fixed [of 5 x] by (simp add: read_runs_def run_row_def runtime_row)

lemma read_run_rows:
  "length rs = length is \<Longrightarrow> read_runs label (map2 (run_row l) is rs) =
     (if l = label then map (\<lambda>(e, x). (Some (if e = Exited 0 then ''S'' else ''RE''), Some (reread 6 x))) rs else [])"
proof (induction "is" arbitrary: rs)
  case (Cons i "is")
  then obtain e x qs where rs: "rs = (e, x) # qs" "length qs = length is" by (cases rs) auto
  have "read_runs label (map2 (run_row l) (i # is) rs) =
      read_runs label [run_row l i (e, x)] @ read_runs label (map2 (run_row l) is qs)"
    unfolding rs(1) by (simp flip: read_runs_append)
  then show ?case by (simp add: read_run_row Cons.IH [OF rs(2)] rs(1))
qed (simp add: read_runs_def)

lemma measured_read:
  assumes "variant_measured l n p ps rows"
  shows "if l = label then runs_read n ps (read_runs label rows) else read_runs label rows = []"
  using assms unfolding variant_measured_def
proof (elim disjE exE conjE)
  fix rs assume "length rs = nat n" "ps = map (\<lambda>(e, x). (p, e)) rs" "rows = map2 (run_row l) (run_numbers n) rs"
  then show ?thesis by (auto simp: read_run_rows runs_read_def list_all2_map1 list_all2_map2 intro!: list_all2_refl)
qed (simp_all add: read_missing runs_read_def)

lemma good_times_runs:
  assumes "runs_read n ps (dget runs (Some label) [])"
  shows "good_times runs label = [] \<longleftrightarrow> \<not> list_ex (\<lambda>(p, e). e = Exited 0) ps"
proof -
  have "concat (map (\<lambda>(status, seconds). case seconds of None \<Rightarrow> [] | Some x \<Rightarrow> if status = Some ''S'' then [x] else []) es) = []
      \<longleftrightarrow> \<not> list_ex (\<lambda>(p, e). e = Exited 0) ps" if "runs_read n ps es" for es
    using that unfolding runs_read_def
  proof (elim disjE conjE)
    assume "list_all2 (\<lambda>(p, e) (s, t). s = Some (if e = Exited 0 then ''S'' else ''RE'') \<and> (\<exists>x. t = Some (reread 6 x))) ps es"
    then show ?thesis by (induction rule: list_all2_induct) (auto split: if_splits)
  qed auto
  with assms show ?thesis by (simp add: good_times_def)
qed

lemma OUT_BASE_names: "OUT_BASE = path_of [''home'', ''dragon'', ''DESAN'', ''out'']"
  "plain_names [''home'', ''dragon'', ''DESAN'', ''out'']"
  by code_simp+

lemma job_times_names:
  assumes "plain_name name" "sanitizer \<in> {''asan'', ''ubsan'', ''msan''}"
  shows "job_times name sanitizer = path_of ([''home'', ''dragon'', ''DESAN'', ''out''] @ [job_name name sanitizer] @ [''runtime.csv''])"
    "path_str (job_times name sanitizer) = job_times name sanitizer"
proof -
  have n: "plain_name ''runtime.csv''" by (simp add: plain_name_def)
  note j = job_names_plain(1) [OF assms]
  have root: "job_root name sanitizer = path_of ([''home'', ''dragon'', ''DESAN'', ''out''] @ [job_name name sanitizer])"
    unfolding job_root_def OUT_BASE_names(1) by (rule path_div_of [OF OUT_BASE_names(2) _ j]) simp
  have pn: "plain_names ([''home'', ''dragon'', ''DESAN'', ''out''] @ [job_name name sanitizer])"
    using OUT_BASE_names(2) j by (simp only: plain_names_simps)
  show f: "job_times name sanitizer = path_of ([''home'', ''dragon'', ''DESAN'', ''out''] @ [job_name name sanitizer] @ [''runtime.csv''])"
    unfolding job_times_def root by (subst path_div_of [OF pn _ n]) simp_all
  have "plain_names ([''home'', ''dragon'', ''DESAN'', ''out''] @ [job_name name sanitizer] @ [''runtime.csv''])"
    using OUT_BASE_names(2) j n by (simp only: plain_names_simps)
  then show "path_str (job_times name sanitizer) = job_times name sanitizer"
    unfolding f by (rule path_str_of) simp
qed

lemma statusA_node: "statusA path row h w = (r, w') \<Longrightarrow> p \<noteq> path \<Longrightarrow> map_of (w_fs w') p = map_of (w_fs w) p"
  by (auto simp: statusA_def thenA_def bindA_def appendA_def osA_def Let_def fs_append_def dict_simps
      split: option.splits fnode.splits)

lemma job_trace_parts:
  assumes "job_trace env name sanitizer project san args ps rows"
  obtains b1 b2 b3 p1 p2 p3 r1 r2 r3 a b c final where
    "ps = b1 # b2 # b3 # p1 @ p2 @ p3 @ [final]" "rows = runtime_header # r1 @ r2 @ r3"
    "variant_measured ''native'' (ba_runs args) a p1 r1" "variant_measured (sn_base_variant san) (ba_runs args) b p2 r2"
    "variant_measured ''desan'' (ba_runs args) c p3 r3"
proof -
  have three: "length xs = 3 \<Longrightarrow> \<exists>x y z. xs = [x, y, z]" for xs :: "'a list"
    by (auto simp: numeral_3_eq_3 length_Suc_conv)
  have all: "(\<forall>i<3. P i) \<longleftrightarrow> P 0 \<and> P 1 \<and> P (2::nat)" for P
    by (auto simp: numeral_3_eq_3 less_Suc_eq numeral_2_eq_2)
  from assms show thesis
    unfolding job_trace_def Let_def all
    by (elim exE conjE) (drule three, drule three, elim exE, simp, rule that, assumption+)
qed

lemma trace_rows_wide:
  assumes "job_trace env name sanitizer project san args ps rows"
  shows "\<forall>row\<in>set rows. row \<noteq> []"
proof -
  have w: "variant_measured l n p qs rs \<Longrightarrow> [] \<notin> set rs" for l n p qs rs
    by (auto simp: variant_measured_def missing_row_def run_row_def dest!: set_zip_rightD)
  show ?thesis by (cases rule: job_trace_parts [OF assms]) (auto simp: runtime_header_def dest: w)
qed

lemma trace_read:
  assumes "job_trace env name sanitizer project san args ps rows" "map_of SANITIZERS sanitizer = Some san"
  obtains builds pss final where "ps = builds @ concat pss @ [final]"
    "list_all2 (\<lambda>label qs. runs_read (ba_runs args) qs (read_runs label (tl rows))) [''native'', sn_base_variant san, ''desan''] pss"
proof -
  obtain b1 b2 b3 p1 p2 p3 r1 r2 r3 a b c final where
    ps: "ps = b1 # b2 # b3 # p1 @ p2 @ p3 @ [final]" and rows: "rows = runtime_header # r1 @ r2 @ r3" and
    m: "variant_measured ''native'' (ba_runs args) a p1 r1" "variant_measured (sn_base_variant san) (ba_runs args) b p2 r2"
    "variant_measured ''desan'' (ba_runs args) c p3 r3"
    by (rule job_trace_parts [OF assms(1)])
  have d: "sn_base_variant san \<noteq> ''native''" "''native'' \<noteq> sn_base_variant san"
    "sn_base_variant san \<noteq> ''desan''" "''desan'' \<noteq> sn_base_variant san"
    using status_frame.sanitizer_variants [OF assms(2)] by auto
  note read = measured_read [OF m(1)] measured_read [OF m(2)] measured_read [OF m(3)]
  have "list_all2 (\<lambda>label qs. runs_read (ba_runs args) qs (read_runs label (tl rows)))
      [''native'', sn_base_variant san, ''desan''] [p1, p2, p3]"
    using read [of "''native''"] read [of "sn_base_variant san"] read [of "''desan''"] d
    by (simp add: rows read_runs_append)
  with ps show thesis by (intro that [of "[b1, b2, b3]" "[p1, p2, p3]" final]) simp_all
qed

lemma summarize_status:
  assumes "parse_runtime_csv_oss fs path = Inr runs" "runs_read n ps (dget runs (Some label) [])"
  shows "\<exists>t. summarize_runtime runs label = Inr (t, if list_ex (\<lambda>(p, e). e = Exited 0) ps then ''S'' else ''NR'')"
proof (cases "good_times runs label = []")
  case True
  with good_times_runs [OF assms(2)] have "\<not> list_ex (\<lambda>(p, e). e = Exited 0) ps" by blast
  with True show ?thesis by (simp add: summarize_runtime_def)
next
  case False
  with good_times_runs [OF assms(2)] have "list_ex (\<lambda>(p, e). e = Exited 0) ps" by blast
  moreover from summarize_total [OF assms(1), of label] obtain t s where s: "summarize_runtime runs label = Inr (t, s)" .
  with False have "s = ''S''" by (auto simp: summarize_runtime_def Let_def res_simps)
  ultimately show ?thesis using s by simp
qed



end
