(* ===== verification/AsanmmRunner.thy ===== *)
theory AsanmmRunner
  imports BatchJobs SanrazorApply
begin

text \<open>
  \<open>scripts/run_oss_asanmm_comparison.py\<close>: for every project it builds three variants (plain,
  ASan and ASAN--, by two other compilers), runs them, starts the ASAN-- summary script and
  writes one row to the status file; at last it collects the summaries of the default projects
  into one CSV and one Markdown file. It borrows the preparation of the sources, the shell and
  the inputs from the batch runner, and so does the model.
\<close>

section \<open>Paths of the tools\<close>

definition ASANMM_ROOT :: "environ \<Rightarrow> string" where
  "ASANMM_ROOT env = path_str (dget env ''ASANMM_ROOT'' ''/home/dragon/ASAN--'')"

definition tool_path :: "environ \<Rightarrow> string \<Rightarrow> string \<Rightarrow> string" where
  "tool_path env var rel = path_str (dget env var (path_div (ASANMM_ROOT env) rel))"

definition ASANMM_CLANG :: "environ \<Rightarrow> string" where
  "ASANMM_CLANG env = tool_path env ''ASANMM_CLANG'' ''llvm-4.0.0-project/ASan--Build/bin/clang''"

definition ASANMM_CLANGXX :: "environ \<Rightarrow> string" where
  "ASANMM_CLANGXX env = tool_path env ''ASANMM_CLANGXX'' ''llvm-4.0.0-project/ASan--Build/bin/clang++''"

definition VANILLA_CLANG :: "environ \<Rightarrow> string" where
  "VANILLA_CLANG env = tool_path env ''VANILLA_CLANG'' ''vanilla_llvm/ASan_Build/bin/clang''"

definition VANILLA_CLANGXX :: "environ \<Rightarrow> string" where
  "VANILLA_CLANGXX env = tool_path env ''VANILLA_CLANGXX'' ''vanilla_llvm/ASan_Build/bin/clang++''"

text \<open>The projects; none of the overridden names is missing.\<close>

definition compare_projects :: "(string, project) dict" where
  "compare_projects = (case ASANMM_PROJECTS of Inl e \<Rightarrow> [] | Inr ps \<Rightarrow> ps)"

section \<open>Arguments\<close>

record compare_args =
  ca_projects :: string
  ca_runs :: int
  ca_loops :: int
  ca_jobs :: int
  ca_build_timeout :: int
  ca_run_timeout :: int

definition default_compare_args :: "environ \<Rightarrow> compare_args res" where
  "default_compare_args env =
     bindE (env_int env ''RUNS'' ''3'') (\<lambda>runs.
     bindE (env_int env ''OSS_WORKLOAD_LOOPS'' ''3'') (\<lambda>loops.
     bindE (env_int env ''JOBS'' ''2'') (\<lambda>jobs.
     bindE (env_int env ''OSS_BUILD_TIMEOUT'' ''7200'') (\<lambda>build_timeout.
     bindE (env_int env ''OSS_RUN_TIMEOUT'' ''300'') (\<lambda>run_timeout.
     Inr \<lparr>ca_projects = join '','' DEFAULT_PROJECTS, ca_runs = runs, ca_loops = loops,
          ca_jobs = jobs, ca_build_timeout = build_timeout, ca_run_timeout = run_timeout\<rparr>)))))"

section \<open>Builds and runs\<close>

text \<open>The compilers and the sanitizer of a variant; other labels raise.\<close>

definition variant_tools :: "environ \<Rightarrow> string \<Rightarrow> (string \<times> string \<times> string) option" where
  "variant_tools env label =
     (if label = ''asanmm'' then Some (ASANMM_CLANG env, ASANMM_CLANGXX env, ''asan'')
      else if label = ''asan-base'' then Some (VANILLA_CLANG env, VANILLA_CLANGXX env, ''asan'')
      else if label = ''native'' then Some (VANILLA_CLANG env, VANILLA_CLANGXX env, ''none'')
      else None)"

definition compare_asan_options :: string where
  "compare_asan_options =
     ''detect_leaks=0:strict_string_checks=0:strict_memcmp=0:halt_on_error=0:abort_on_error=0:exitcode=0''"

definition compare_env :: "environ \<Rightarrow> string \<Rightarrow> string \<Rightarrow> string \<Rightarrow> int \<Rightarrow> job_exn + environ" where
  "compare_env env name label out_dir jobs = (case variant_tools env label of
      None \<Rightarrow> Inl (ValueErr (''unknown label: '' @ label))
    | Some (clang, clangxx, sanitizer) \<Rightarrow> Inr (with_vars
       [kept_var env ''LLVM_CONFIG'' ''llvm-config-18'',
        kept_var env ''OPT'' ''opt-18'',
        (''CLANG'', clang),
        (''CLANGXX'', clangxx),
        kept_var env ''DESAN_LLVM_CONFIG'' (dget env ''LLVM_CONFIG'' ''llvm-config-18''),
        kept_var env ''DESAN_OPT'' (dget env ''OPT'' ''opt-18''),
        (''DESAN_CLANG'', clang),
        (''DESAN_CLANGXX'', clangxx),
        kept_var env ''DESAN_SPEC_LINK_CC'' ''clang-18'',
        kept_var env ''DESAN_SPEC_LINK_CXX'' ''clang++-18'',
        kept_var env ''DESAN_CXX_STDLIB_GXX'' ''g++-12'',
        kept_var env ''PLUGIN'' (path_div (path_div ROOT ''build'') ''DESANPass.so''),
        kept_var env ''DESAN_SPEC_FALLBACK'' ''1'',
        kept_var env ''DESAN_SPEC_QUIET'' ''1'',
        kept_var env ''DESAN_SPEC_RECORD_IR_ON_DISABLE'' ''1'',
        kept_var env ''DESAN_SPEC_KEEP_VALUE_NAMES'' ''0'',
        kept_var env ''DESAN_ASAN_RECOVER'' ''1'',
        kept_var env ''ASAN_OPTIONS'' compare_asan_options,
        kept_var env ''LSAN_OPTIONS'' ''detect_leaks=0'',
        (''LDFLAGS'', strip (dget env ''LDFLAGS'' '''' @ '' -no-pie'')),
        (''CC'', CC_WRAPPER),
        (''CXX'', CXX_WRAPPER),
        (''CFLAGS'', ''-O0 -g -fno-omit-frame-pointer''),
        (''CXXFLAGS'', ''-O0 -g -fno-omit-frame-pointer''),
        (''JOBS'', show_int jobs),
        (''DESAN_OUT_DIR'', out_dir),
        (''DESAN_SPEC_BENCHMARK'', name),
        (''DESAN_SPEC_SANITIZER'', sanitizer),
        (''DESAN_SPEC_DISABLE_PASS'', ''1'')] env))"

definition liftA :: "job_exn + 'a \<Rightarrow> 'a act" where
  "liftA r = (case r of Inl e \<Rightarrow> raiseA e | Inr x \<Rightarrow> returnA x)"

definition compare_build ::
  "string \<Rightarrow> project \<Rightarrow> string \<Rightarrow> string \<Rightarrow> string \<Rightarrow> int \<Rightarrow> string \<Rightarrow> int \<Rightarrow> string act" where
  "compare_build name project src_dir out_root label jobs logf timeout =
     (let build_dir = build_dir_of out_root label; variant_out = path_div out_root label in
      thenA (copy_source src_dir build_dir)
     (thenA (mkdirA True variant_out)
     (bindA environA (\<lambda>env0.
      bindA (liftA (compare_env env0 name label variant_out jobs)) (\<lambda>env.
      thenA (appendA logf (''=== '' @ name @ '' '' @ label @ '' build ==='' @ [NL]))
     (bindA (keyA ''build'' (pj_build project)) (\<lambda>command.
      bindA (sh command build_dir (Some env) logf timeout) (\<lambda>rc.
      thenA (failing rc (name @ '' '' @ label @ '' build failed with '' @ show_int rc))
     (thenA (appendA logf (''=== '' @ name @ '' '' @ label @ '' build done ==='' @ [NL]))
     (returnA build_dir))))))))))"

definition compare_vars :: "string \<Rightarrow> int \<Rightarrow> environ \<Rightarrow> environ" where
  "compare_vars bench loops env = with_vars
    [(''BENCH'', bench), (''LOOPS'', show_int loops),
     kept_var env ''ASAN_OPTIONS'' compare_asan_options,
     kept_var env ''LSAN_OPTIONS'' ''detect_leaks=0''] env"

definition compare_runtime ::
  "string \<Rightarrow> project \<Rightarrow> string \<Rightarrow> string \<Rightarrow> string \<Rightarrow> int \<Rightarrow> int \<Rightarrow> int \<Rightarrow> string \<Rightarrow> unit act" where
  "compare_runtime name project label build_dir bench runs loops timeout logf =
     measure_runs (compare_vars bench loops) name project label build_dir runs timeout logf"

section \<open>One project\<close>

definition compare_name :: "string \<Rightarrow> string" where
  "compare_name name = name @ ''-asanmm-after-check-elimination''"

definition compare_root :: "string \<Rightarrow> string" where
  "compare_root name = path_div OUT_BASE (compare_name name)"

definition compare_log :: "string \<Rightarrow> string" where
  "compare_log name = path_div OUT_BASE (name @ ''_asanmm_after_check_elimination.nohup.log'')"

definition compare_file :: "string \<Rightarrow> string \<Rightarrow> string" where
  "compare_file name t = path_div OUT_BASE (compare_name name @ ''-'' @ t)"

definition records_path :: "string \<Rightarrow> string \<Rightarrow> string" where
  "records_path out_root label = path_div (path_div (path_div out_root label) ''spec-logs'') ''compile_records.tsv''"

definition compare_argv :: "string \<Rightarrow> string \<Rightarrow> string list" where
  "compare_argv name out_root =
     [''python3'', path_div (path_div ROOT ''scripts'') ''opensource_asanmm_summary.py'',
      ''--suite'', ''OpenSource'', ''--benchmark'', name,
      ''--base-records'', records_path out_root ''asan-base'',
      ''--asanmm-records'', records_path out_root ''asanmm'',
      ''--runtime-csv'', path_div out_root ''runtime.csv'',
      ''--csv-out'', compare_file name ''summary.csv'']"

definition summarize_one :: "string \<Rightarrow> string \<Rightarrow> unit act" where
  "summarize_one name out_root = (let summary_md = compare_file name ''summary.md'' in
     thenA (writeA summary_md '''')
       (bindA (procA \<lparr>pr_argv = compare_argv name out_root, pr_cwd = ROOT, pr_env = None,
          pr_timeout = None, pr_out = summary_md\<rparr>) (\<lambda>_. returnA ())))"

definition compare_body :: "string \<Rightarrow> project \<Rightarrow> compare_args \<Rightarrow> unit act" where
  "compare_body name project args =
     (let out_root = compare_root name; logf = compare_log name; bench = path_div out_root ''bench'';
          build = (\<lambda>src_dir label. compare_build name project src_dir out_root label
             (ca_jobs args) logf (ca_build_timeout args));
          measure = (\<lambda>label build_dir. compare_runtime name project label build_dir bench (ca_runs args)
             (ca_loops args) (ca_run_timeout args) logf) in
      bindA (prepare_source name project logf) (\<lambda>src_dir.
      thenA (write_bench_inputs bench)
     (bindA (build src_dir ''native'') (\<lambda>native_dir.
      bindA (build src_dir ''asan-base'') (\<lambda>base_dir.
      bindA (build src_dir ''asanmm'') (\<lambda>asanmm_dir.
      thenA (csvA (path_div out_root ''runtime.csv'')
        (thenA (rowA runtime_header)
        (thenA (measure ''native'' native_dir)
        (thenA (measure ''asan-base'' base_dir)
               (measure ''asanmm'' asanmm_dir)))))
     (summarize_one name out_root)))))))"

definition compare_start :: "string \<Rightarrow> unit act" where
  "compare_start name =
     thenA (removeA (compare_root name))
    (thenA (forA (\<lambda>t. let p = compare_file name t in
          bindA (existsA p) (\<lambda>there. whenA there (unlinkA p))) [''summary.md'', ''summary.csv''])
    (thenA (mkdirA True (compare_root name))
           (writeA (compare_log name) '''')))"

definition compare_one :: "string \<Rightarrow> compare_args \<Rightarrow> string \<Rightarrow> unit act" where
  "compare_one name args status_path =
     bindA (keyA name (map_of compare_projects name)) (\<lambda>project.
     thenA (compare_start name)
    (bindA (reported (compare_log name) (compare_body name project args)) (\<lambda>(status, message).
     statusA status_path [name, status, message])))"

section \<open>Collecting the summaries\<close>

definition results_csv :: string where
  "results_csv = path_div OUT_BASE ''oss-asanmm-after-check-elimination-results.csv''"

definition results_md :: string where
  "results_md = path_div OUT_BASE ''oss-asanmm-after-check-elimination-results.md''"

fun read_summaries :: "string list \<Rightarrow> xrow list act" where
  "read_summaries [] = returnA []"
| "read_summaries (p # ps) = bindA (existsA (compare_file p ''summary.csv'')) (\<lambda>there.
     if there then bindA (readA (compare_file p ''summary.csv'')) (\<lambda>t.
        bindA (read_summaries ps) (\<lambda>rows. returnA (full_reader t @ rows)))
     else read_summaries ps)"

text \<open>
  The text of a value in a CSV row; a list is written as Python shows it. The message of the
  \<open>ValueError\<close> lists a set of names, here in the order of the row.
\<close>

definition value_text :: "pyval \<Rightarrow> string" where
  "value_text v = (case v of VStr s \<Rightarrow> s | VList l \<Rightarrow> ''['' @ join '', '' (map py_repr l) @ '']''
     | VInt i \<Rightarrow> show_int i | _ \<Rightarrow> '''')"

definition key_text :: "string option \<Rightarrow> string" where
  "key_text k = (case k of None \<Rightarrow> '''' | Some s \<Rightarrow> s)"

definition key_repr :: "string option \<Rightarrow> string" where
  "key_repr k = (case k of None \<Rightarrow> ''None'' | Some s \<Rightarrow> py_repr s)"

definition write_dict :: "string option list \<Rightarrow> xrow \<Rightarrow> unit act" where
  "write_dict names row = (case dict_cells names row of
      Inl e \<Rightarrow> raiseA (ValueErr (''dict contains fields not in fieldnames: '' @
        join '', '' (map key_repr (filter (\<lambda>k. k \<notin> set names) (dkeys row)))))
    | Inr cells \<Rightarrow> rowA (map value_text cells))"

definition results_fields :: "string list" where
  "results_fields = [''Benchmark'', ''Original Checks'', ''ASAN-- Checks'', ''Removed Checks'', ''Removed / Original'',
     ''Core / All Original'', ''Removed Read Checks'', ''Removed Store Checks'', ''Runtime Native'', ''Runtime ASan'',
     ''Runtime ASAN--'', ''Overhead Reduction %'']"

definition results_headers :: "string list" where
  "results_headers = [''Benchmark'', ''Original'', ''ASAN--'', ''Removed'', ''Removed/Orig'', ''Core/All'', ''Read Removed'',
     ''Store Removed'', ''Native(s)'', ''ASan(s)'', ''ASAN--(s)'', ''Overhead Reduction'', ''Status'']"

text \<open>\<open>row[k]\<close>, for all the columns in order.\<close>

fun lookup_all :: "xrow \<Rightarrow> string list \<Rightarrow> job_exn + pyval list" where
  "lookup_all row [] = Inr []"
| "lookup_all row (k # ks) = (case map_of row (Some k) of
      None \<Rightarrow> Inl (KeyErr k)
    | Some v \<Rightarrow> (case lookup_all row ks of Inl e \<Rightarrow> Inl e | Inr vs \<Rightarrow> Inr (v # vs)))"

text \<open>\<open>" | ".join\<close>, which takes strings only.\<close>

fun join_cells :: "nat \<Rightarrow> pyval list \<Rightarrow> job_exn + string list" where
  "join_cells i [] = Inr []"
| "join_cells i (VStr s # vs) = (case join_cells (Suc i) vs of Inl e \<Rightarrow> Inl e | Inr ws \<Rightarrow> Inr (s # ws))"
| "join_cells i (v # vs) = Inl (TypeErr (''sequence item '' @ show_int (int i) @ '': expected str instance, NoneType found''))"

definition results_line :: "xrow \<Rightarrow> job_exn + string" where
  "results_line row = (case lookup_all row (results_fields @ [''Native Status'', ''ASan Status'', ''ASAN-- Status'']) of
      Inl e \<Rightarrow> Inl e
    | Inr vs \<Rightarrow> (case join_cells 0 (take 12 vs @ [VStr (join ''->'' (map status_text (drop 12 vs)))]) of
          Inl e \<Rightarrow> Inl e
        | Inr ws \<Rightarrow> Inr (table_line ws @ [NL])))"

definition collect_results :: "string list \<Rightarrow> unit act" where
  "collect_results projects =
     bindA (read_summaries projects) (\<lambda>rows.
     thenA (case rows of
        [] \<Rightarrow> returnA ()
      | row # _ \<Rightarrow> csvA results_csv
          (thenA (rowA (map key_text (dkeys row))) (forA (write_dict (dkeys row)) rows)))
    (thenA (writeA results_md '''')
    (thenA (appendA results_md (table_line results_headers @ [NL]))
    (thenA (appendA results_md (table_rule (length results_headers) @ [NL]))
           (forA (\<lambda>row. bindA (liftA (results_line row)) (appendA results_md)) rows)))))"

section \<open>main\<close>

definition compare_status_header :: "string list" where
  "compare_status_header = [''Project'', ''Status'', ''Message'']"

definition compare_status_file :: string where
  "compare_status_file = path_div OUT_BASE ''oss-asanmm-after-check-elimination-status.csv''"

definition check_tools :: "string list \<Rightarrow> unit act" where
  "check_tools paths = forA (\<lambda>p. bindA (existsA p) (\<lambda>there.
     whenA (\<not> there) (raiseA (ExitErr (''missing ASAN-- toolchain binary: '' @ p))))) paths"

definition compare_job :: "compare_args \<Rightarrow> string \<Rightarrow> string \<Rightarrow> unit act" where
  "compare_job args path = (\<lambda>project.
     thenA (printA (''=== '' @ project @ '' asanmm ==='')) (compare_one project args path))"

definition compare_main :: "compare_args \<Rightarrow> unit act" where
  "compare_main args = (let projects = batch_names (ca_projects args) in
     thenA (check_names ''project'' (dkeys compare_projects) projects)
    (bindA environA (\<lambda>env.
     thenA (check_tools [ASANMM_CLANG env, ASANMM_CLANGXX env, VANILLA_CLANG env, VANILLA_CLANGXX env])
    (thenA (mkdirA True OUT_BASE)
    (let status_path = path_str (dget env ''OSS_ASANMM_STATUS_FILE'' compare_status_file) in
     thenA (writeA status_path '''')
    (thenA (statusA status_path compare_status_header)
    (thenA (forA (compare_job args status_path) projects)
           (collect_results DEFAULT_PROJECTS))))))))"

end
