(* ===== verification/AsanmmJobs.thy ===== *)
theory AsanmmJobs
  imports AsanmmRunner BatchTrace
begin

text \<open>
  What the comparison runner keeps and promises: one status row per project, on the same
  interface and the same machine as the batch runner; and what it collects in the end.
\<close>

section \<open>One row per project\<close>

context file_frame
begin

lemma keeps_lift: "keeps H R (liftA r)"
  unfolding liftA_def by (cases r) (auto intro: keeps_ops)

lemma keeps_compare_build:
  assumes "A out_root" "plain_name label" "A l"
  shows "keeps H R (compare_build name project src out_root label jobs l timeout)"
proof -
  have "plain_name (''build-'' @ label)" using assms(2) by (auto simp: plain_name_def)
  with assms have "A (build_dir_of out_root label)" "A (path_div out_root label)"
    unfolding build_dir_of_def by (auto intro: A_div)
  with assms(3) show ?thesis
    unfolding compare_build_def Let_def copy_source_def
    by (intro keeps_ops keeps_sh keeps_key keeps_failing keeps_lift)
qed

lemma keeps_compare_body:
  assumes "A BENCHMARKS" "A (compare_root name)" "A (compare_log name)" "A (compare_file name ''summary.md'')"
    and name: "plain_name name"
  shows "keeps H R (compare_body name project args)"
proof -
  have n: "plain_name ''bench''" "plain_name ''runtime.csv''" "plain_name ''native''" "plain_name ''asan-base''"
    "plain_name ''asanmm''" by (simp_all add: plain_name_def)
  have "keeps H R (summarize_one name (compare_root name))"
    unfolding summarize_one_def Let_def by (intro keeps_ops assms)
  then show ?thesis
    unfolding compare_body_def Let_def compare_runtime_def
    by (intro keeps_then keeps_bind keeps_csv keeps_row keeps_source keeps_inputs keeps_compare_build keeps_measure
        assms A_div n name)
qed

lemma keeps_compare_start:
  assumes "A (compare_root name)" "A (compare_log name)"
    and "A (compare_file name ''summary.md'')" "A (compare_file name ''summary.csv'')"
  shows "keeps H R (compare_start name)"
  using assms unfolding compare_start_def by (auto simp: Let_def intro!: keeps_ops)

end

lemma compare_registry: "list_all (\<lambda>(k, p). complete_project p \<and> plain_name k) compare_projects"
  by code_simp

lemma compare_project: "map_of compare_projects name = Some p \<Longrightarrow> complete_project p \<and> plain_name name"
  using compare_registry by (auto simp: list_all_iff dest!: map_of_SomeD)

text \<open>A project's row: its name and \<open>S\<close> with no message, or \<open>FAIL\<close>.\<close>

definition compare_report :: "string \<Rightarrow> string list \<Rightarrow> bool" where
  "compare_report name row \<longleftrightarrow> (\<exists>status message. row = [name, status, message] \<and>
     (status = ''S'' \<and> message = '''' \<or> status = ''FAIL''))"

lemma compare_one_status:
  assumes "compare_one name args path h w = (r, w')"
  shows "(\<exists>row. compare_report name row \<and> w_status w' = w_status w @ [row]) \<or> (isl r \<and> w_status w' = w_status w)"
proof (cases "map_of compare_projects name")
  case None
  with assms show ?thesis by (auto simp: compare_one_def keyA_def bindA_def raiseA_def)
next
  case (Some project)
  have name: "plain_name name" using compare_project [OF Some] by blast
  have start: "keeps (\<lambda>_. True) same_status (compare_start name)" by (intro status_frame.keeps_compare_start) simp_all
  have body: "keeps (\<lambda>_. True) same_status (reported (compare_log name) (compare_body name project args))"
    by (intro status_frame.keeps_reported status_frame.keeps_compare_body name) simp_all
  from assms Some have run: "thenA (compare_start name) (bindA (reported (compare_log name) (compare_body name project args))
      (\<lambda>(status, message). statusA path [name, status, message])) h w = (r, w')"
    by (simp add: compare_one_def)
  show ?thesis
  proof (cases rule: then_status [OF run start, case_names stop go])
    case (go u)
    show ?thesis
    proof (cases rule: bind_status [OF go(1) body, case_names stop fin])
      case (fin x v)
      obtain status message where x: "x = (status, message)" by (cases x)
      with fin(2) have "w_status w' = w_status v @ [[name, status, message]]" by (auto dest: statusA_status)
      moreover from fin(1) x have "status = ''S'' \<and> message = '''' \<or> status = ''FAIL''" by (auto dest: reported_cases)
      ultimately show ?thesis using fin(3) go(2) by (auto simp: compare_report_def)
    qed (use go(2) in simp)
  qed simp
qed

interpretation comparison: job_runner "compare_job args path" compare_report
proof
  fix name :: string and h w r w'
  assume "compare_job args path name h w = (r, w')"
  then have job: "thenA (printA (''=== '' @ name @ '' asanmm ==='')) (compare_one name args path) h w = (r, w')"
    by (simp add: compare_job_def)
  show "(\<exists>row. compare_report name row \<and> w_status w' = w_status w @ [row]) \<or> (isl r \<and> w_status w' = w_status w)"
  proof (cases rule: then_status [OF job print_status, case_names stop go])
    case (go u)
    from compare_one_status [OF go(1)] show ?thesis by (simp add: go(2))
  qed simp
qed

lemma keeps_read: "keeps (\<lambda>_. True) same_status (readA p)"
  unfolding readA_def by (intro status_frame.keeps_rules same_status_os)

lemma keeps_summaries: "keeps (\<lambda>_. True) same_status (read_summaries ps)"
  by (induction ps) (auto intro!: status_frame.keeps_ops keeps_read)

lemma keeps_collect: "keeps (\<lambda>_. True) same_status (collect_results ps)"
proof -
  have "keeps (\<lambda>_. True) same_status (write_dict names row)" for names row
    unfolding write_dict_def by (cases "dict_cells names row") (auto intro: status_frame.keeps_ops)
  then show ?thesis
    unfolding collect_results_def
    by (intro status_frame.keeps_ops keeps_summaries status_frame.keeps_lift) (auto intro!: status_frame.keeps_ops split: list.splits)
qed

lemma keeps_tools: "keeps (\<lambda>_. True) same_status (check_tools ps)"
  unfolding check_tools_def by (intro status_frame.keeps_ops)


end
