(* ===== verification/AsanmmCollect.thy ===== *)
theory AsanmmCollect
  imports AsanmmJobs AsanmmSummary
begin

text \<open>
  The tables the comparison runner writes in the end: what they hold, and that they can be
  made of whatever the summary script writes.
\<close>

section \<open>What is collected\<close>

definition summary_rows :: "filesys \<Rightarrow> string \<Rightarrow> xrow list" where
  "summary_rows fs p = (case map_of fs (compare_file p ''summary.csv'') of Some (File t) \<Rightarrow> full_reader t | _ \<Rightarrow> [])"

lemma readA_Inr:
  assumes "readA p h w = (Inr t, w')"
  shows "w_fs w' = w_fs w \<and> map_of (w_fs w) p = Some (File t)"
  using assms
  by (auto simp: readA_def thenA_def bindA_def getA_def osA_def Let_def split: option.splits fnode.splits sum.splits)

lemma readA_Inl: "readA p h w = (Inl e, w') \<Longrightarrow> \<exists>m. e = OsErr m"
  by (auto simp: readA_def thenA_def bindA_def getA_def osA_def Let_def split: option.splits fnode.splits sum.splits)

lemma read_summaries_Inr:
  "read_summaries ps h w = (Inr rows, w') \<Longrightarrow> w_fs w' = w_fs w \<and> rows = concat (map (summary_rows (w_fs w)) ps)"
proof (induction ps arbitrary: rows w w')
  case (Cons p ps)
  let ?f = "compare_file p ''summary.csv''"
  show ?case
  proof (cases "map_of (w_fs w) ?f = None")
    case True
    with Cons.prems have "read_summaries ps h w = (Inr rows, w')" by (simp add: bind_exists)
    from Cons.IH [OF this] True show ?thesis by (simp add: summary_rows_def)
  next
    case False
    with Cons.prems have "bindA (readA ?f) (\<lambda>t. bindA (read_summaries ps) (\<lambda>rows. returnA (full_reader t @ rows))) h w = (Inr rows, w')"
      by (simp add: bind_exists)
    then obtain t u rs v where t: "readA ?f h w = (Inr t, u)" and rs: "read_summaries ps h u = (Inr rs, v)"
      and "returnA (full_reader t @ rs) h v = (Inr rows, w')" by (elim bind_Inr) (rule that; assumption)
    then have r: "rows = full_reader t @ rs" "w' = v" by (auto simp: returnA_def)
    from readA_Inr [OF t] Cons.IH [OF rs] r show ?thesis by (simp add: summary_rows_def)
  qed
qed simp

lemma read_summaries_Inl: "read_summaries ps h w = (Inl e, w') \<Longrightarrow> \<exists>m. e = OsErr m"
proof (induction ps arbitrary: w w')
  case (Cons p ps)
  show ?case
  proof (cases "map_of (w_fs w) (compare_file p ''summary.csv'') = None")
    case True
    with Cons.prems Cons.IH show ?thesis by (simp add: bind_exists)
  next
    case False
    with Cons.prems show ?thesis
      by (auto simp: bind_exists elim!: bindA_cases dest: readA_Inl Cons.IH) (auto simp: returnA_def)
  qed
qed (simp add: returnA_def)

text \<open>The text of a row in the CSV file.\<close>

definition csv_texts :: "string option list \<Rightarrow> xrow \<Rightarrow> string list" where
  "csv_texts names row = map (\<lambda>k. value_text (dget row k (VStr ''''))) names"

lemma write_dict_Inr:
  "write_dict names row h w = (Inr x, w') \<Longrightarrow> w_fs w' = w_fs w \<and> w_rows w' = w_rows w @ [csv_texts names row]"
  by (auto simp: write_dict_def dict_cells_def raiseA_def rowA_def csv_texts_def comp_def split: if_splits)

lemma write_dicts_Inr:
  "forA (write_dict names) rows h w = (Inr x, w') \<Longrightarrow> w_fs w' = w_fs w \<and> w_rows w' = w_rows w @ map (csv_texts names) rows"
proof (induction rows arbitrary: w)
  case (Cons row rows)
  then obtain u where u: "write_dict names row h w = (Inr (), u)" "forA (write_dict names) rows h u = (Inr x, w')"
    unfolding forA.simps by (auto elim!: thenA_cases)
  from write_dict_Inr [OF u(1)] Cons.IH [OF u(2)] show ?case by simp
qed simp

lemma appendA_node: "appendA q t h w = (r, w') \<Longrightarrow> p \<noteq> q \<Longrightarrow> map_of (w_fs w') p = map_of (w_fs w) p"
  by (auto simp: appendA_def osA_def Let_def fs_append_def dict_simps split: option.splits fnode.splits)

lemma writeA_node: "writeA q t h w = (r, w') \<Longrightarrow> p \<noteq> q \<Longrightarrow> map_of (w_fs w') p = map_of (w_fs w) p"
  by (auto simp: writeA_def osA_def Let_def fs_write_def dict_simps split: option.splits if_splits)

lemma liftA_Inr [simp]: "liftA r h w = (Inr x, w') \<longleftrightarrow> r = Inr x \<and> w' = w"
  by (cases r) (auto simp: liftA_def raiseA_def returnA_def)

lemma md_lines_Inr:
  assumes "forA (\<lambda>row. bindA (liftA (results_line row)) (appendA p)) rows h w = (Inr x, w')"
    and "map_of (w_fs w) p = Some (File t)"
  shows "\<exists>ls. list_all2 (\<lambda>row l. results_line row = Inr l) rows ls \<and> map_of (w_fs w') p = Some (File (t @ concat ls)) \<and>
    (\<forall>q. q \<noteq> p \<longrightarrow> map_of (w_fs w') q = map_of (w_fs w) q)"
  using assms
proof (induction rows arbitrary: w t)
  case (Cons row rows)
  then obtain u where u: "bindA (liftA (results_line row)) (appendA p) h w = (Inr (), u)"
    "forA (\<lambda>row. bindA (liftA (results_line row)) (appendA p)) rows h u = (Inr x, w')"
    unfolding forA.simps by (auto elim!: thenA_cases)
  from u(1) obtain l where l: "results_line row = Inr l" "appendA p l h w = (Inr (), u)"
    by (auto elim!: bindA_cases)
  from appendA_file [OF l(2) Cons.prems(2)] have t: "map_of (w_fs u) p = Some (File (t @ l))" .
  from Cons.IH [OF u(2) t] obtain ls where ls: "list_all2 (\<lambda>row l. results_line row = Inr l) rows ls"
    "map_of (w_fs w') p = Some (File ((t @ l) @ concat ls))" "\<forall>q. q \<noteq> p \<longrightarrow> map_of (w_fs w') q = map_of (w_fs u) q" by blast
  with l appendA_node [OF l(2)] show ?case by (intro exI [of _ "l # ls"]) simp
qed simp

lemma results_neq: "results_csv \<noteq> results_md"
  by code_simp

text \<open>
  C14: the tables hold the rows of all summaries that are there, project by project: the CSV file
  reads back as the columns of the first row and one row of texts for each, the Markdown file
  is its two head lines and one line for each; without any row the CSV file is left as it was.
\<close>

theorem collected_tables:
  assumes "collect_results projects h w = (Inr x, w')"
    and "rows = concat (map (summary_rows (w_fs w)) projects)"
  shows "(\<exists>ls. list_all2 (\<lambda>row l. results_line row = Inr l) rows ls \<and>
      map_of (w_fs w') results_md = Some (File (concat
        ((table_line results_headers @ [NL]) # (table_rule (length results_headers) @ [NL]) # ls)))) \<and>
    (case rows of
       [] \<Rightarrow> map_of (w_fs w') results_csv = map_of (w_fs w) results_csv
     | row # _ \<Rightarrow> \<exists>t. map_of (w_fs w') results_csv = Some (File t) \<and>
         csv_reader (CHR '','') t = map key_text (dkeys row) # map (csv_texts (dkeys row)) rows)"
proof -
  let ?head = "table_line results_headers @ [NL]" and ?rule = "table_rule (length results_headers) @ [NL]"
  let ?csv = "case rows of [] \<Rightarrow> returnA () | row # _ \<Rightarrow> csvA results_csv
          (thenA (rowA (map key_text (dkeys row))) (forA (write_dict (dkeys row)) rows))"
  let ?lines = "forA (\<lambda>row. bindA (liftA (results_line row)) (appendA results_md)) rows"
  from assms(1) obtain rs u1 where u1: "read_summaries projects h w = (Inr rs, u1)" and
    rest: "thenA (case rs of [] \<Rightarrow> returnA () | row # _ \<Rightarrow> csvA results_csv
          (thenA (rowA (map key_text (dkeys row))) (forA (write_dict (dkeys row)) rs)))
      (thenA (writeA results_md '''') (thenA (appendA results_md ?head) (thenA (appendA results_md ?rule)
        (forA (\<lambda>row. bindA (liftA (results_line row)) (appendA results_md)) rs)))) h u1 = (Inr x, w')"
    unfolding collect_results_def by (rule bind_Inr)
  from read_summaries_Inr [OF u1] assms(2) have rs: "rs = rows" "w_fs u1 = w_fs w" by simp_all
  from rest [unfolded rs(1)] obtain u2 u3 u4 u5 where
    csv: "?csv h u1 = (Inr (), u2)" and m: "writeA results_md '''' h u2 = (Inr (), u3)"
    "appendA results_md ?head h u3 = (Inr (), u4)" "appendA results_md ?rule h u4 = (Inr (), u5)"
    "?lines h u5 = (Inr x, w')" by (elim then_Inr) (rule that; assumption)
  from appendA_file [OF m(3) appendA_file [OF m(2) writeA_file [OF m(1)]]]
  have "map_of (w_fs u5) results_md = Some (File (?head @ ?rule))" by simp
  from md_lines_Inr [OF m(4) this] obtain ls where ls: "list_all2 (\<lambda>row l. results_line row = Inr l) rows ls"
    "map_of (w_fs w') results_md = Some (File (concat (?head # ?rule # ls)))"
    "map_of (w_fs w') results_csv = map_of (w_fs u5) results_csv"
    using results_neq by auto
  have same: "map_of (w_fs w') results_csv = map_of (w_fs u2) results_csv"
    using ls(3) appendA_node [OF m(3) results_neq] appendA_node [OF m(2) results_neq] writeA_node [OF m(1) results_neq] by simp
  have "case rows of
       [] \<Rightarrow> map_of (w_fs w') results_csv = map_of (w_fs w) results_csv
     | row # _ \<Rightarrow> \<exists>t. map_of (w_fs w') results_csv = Some (File t) \<and>
         csv_reader (CHR '','') t = map key_text (dkeys row) # map (csv_texts (dkeys row)) rows"
  proof (cases rows)
    case Nil
    with csv same rs(2) show ?thesis by (simp add: returnA_def)
  next
    case (Cons row rows')
    from csv have "csvA results_csv (thenA (rowA (map key_text (dkeys row))) (forA (write_dict (dkeys row)) rows)) h u1 = (Inr (), u2)"
      by (simp only: Cons list.case)
    from csvA_Inr [OF this] obtain v1 v2 where
      v: "thenA (rowA (map key_text (dkeys row))) (forA (write_dict (dkeys row)) rows) h v1 = (Inr (), v2)" "w_rows v1 = []"
      "map_of (w_fs v2) results_csv = map_of (w_fs v1) results_csv \<longrightarrow>
         map_of (w_fs u2) results_csv = Some (File (rows_text (CHR '','') (w_rows v2)))" .
    from v(1) obtain v3 where v3: "rowA (map key_text (dkeys row)) h v1 = (Inr (), v3)"
      "forA (write_dict (dkeys row)) rows h v3 = (Inr (), v2)" by (rule then_Inr)
    from v3(1) have r3: "w_fs v3 = w_fs v1" "w_rows v3 = [map key_text (dkeys row)]" using v(2) by (auto simp: rowA_def)
    from write_dicts_Inr [OF v3(2)] r3 v(3) same
    have "map_of (w_fs w') results_csv = Some (File (rows_text (CHR '','') (map key_text (dkeys row) # map (csv_texts (dkeys row)) rows)))"
      by simp
    then show ?thesis by (simp add: Cons csv_roundtrip_comma)
  qed
  with ls show ?thesis by blast
qed

section \<open>Whatever the summary script writes can be collected\<close>

text \<open>
  The file the summary script writes: its columns and one row. The texts of the values are left
  open, since a float is written there with all its digits.
\<close>

definition asanmm_summary_file :: "asanmm_row \<Rightarrow> string list \<Rightarrow> string" where
  "asanmm_summary_file r texts = rows_text (CHR '','') [map fst (asanmm_cells r), texts]"

definition asanmm_columns :: "string list" where
  "asanmm_columns = map fst (asanmm_cells undefined)"

lemma asanmm_columns: "map fst (asanmm_cells r) = asanmm_columns"
  by (simp add: asanmm_columns_def asanmm_cells_def)

lemma columns_distinct: "distinct asanmm_columns" "length asanmm_columns = length (asanmm_cells r)"
  by (simp_all add: asanmm_columns_def asanmm_cells_def)

lemma columns_wanted: "set (results_fields @ [''Native Status'', ''ASan Status'', ''ASAN-- Status'']) \<subseteq> set asanmm_columns"
  by (simp add: asanmm_columns_def asanmm_cells_def results_fields_def)

definition text_row :: "xrow \<Rightarrow> bool" where
  "text_row row \<longleftrightarrow> set (dkeys row) = Some ` set asanmm_columns \<and>
     (\<forall>k\<in>set asanmm_columns. \<exists>s. map_of row (Some k) = Some (VStr s))"

lemma map_of_full: "map_of (map (\<lambda>(k, v). (Some k, f v)) d) (Some k) = map_option f (map_of d k)"
  by (induction d) auto

lemma summary_text_row:
  assumes "length texts = length (asanmm_cells r)" "row \<in> set (full_reader (asanmm_summary_file r texts))"
  shows "text_row row"
proof -
  have l: "length texts = length asanmm_columns" using assms(1) columns_distinct(2) [of r] by simp
  then have "texts \<noteq> []" by (auto simp: asanmm_columns_def asanmm_cells_def)
  with assms(2) have "row = full_row asanmm_columns texts"
    by (simp add: full_reader_def asanmm_summary_file_def csv_roundtrip_comma asanmm_columns)
  then have row: "row = map (\<lambda>(k, v). (Some k, pyval_of v)) (dict_row asanmm_columns texts)"
    by (simp add: full_row_def l)
  have "set (dkeys row) = Some ` set (dkeys (dict_row asanmm_columns texts))"
    unfolding row set_map image_comp by (rule image_cong) (auto split: prod.splits)
  moreover have "\<exists>s. map_of row (Some k) = Some (VStr s)" if "k \<in> set asanmm_columns" for k
  proof -
    from that obtain i where i: "i < length asanmm_columns" "k = asanmm_columns ! i" by (auto simp: in_set_conv_nth)
    with dict_row_column [OF columns_distinct(1) i(1), of texts] l
    have "map_of (dict_row asanmm_columns texts) k = Some (Some (texts ! i))"
      by (simp add: row_get_def split: option.splits)
    then show ?thesis unfolding row map_of_full by (simp add: pyval_of_def)
  qed
  ultimately show ?thesis unfolding text_row_def dict_row_keys by blast
qed

lemma lookup_texts:
  "(\<forall>k\<in>set ks. \<exists>s. map_of row (Some k) = Some (VStr s)) \<Longrightarrow> \<exists>ss. lookup_all row ks = Inr (map VStr ss)"
proof (induction ks)
  case (Cons k ks)
  then obtain s ss where "map_of row (Some k) = Some (VStr s)" "lookup_all row ks = Inr (map VStr ss)" by auto
  then show ?case by (intro exI [of _ "s # ss"]) simp
qed simp

lemma join_texts: "join_cells i (map VStr ss) = Inr ss"
  by (induction ss arbitrary: i) simp_all

lemma text_row_line: "text_row row \<Longrightarrow> \<exists>l. results_line row = Inr l"
proof -
  assume t: "text_row row"
  then have "\<forall>k\<in>set (results_fields @ [''Native Status'', ''ASan Status'', ''ASAN-- Status'']). \<exists>s. map_of row (Some k) = Some (VStr s)"
    using columns_wanted by (auto simp: text_row_def)
  from lookup_texts [OF this] obtain ss where
    ss: "lookup_all row (results_fields @ [''Native Status'', ''ASan Status'', ''ASAN-- Status'']) = Inr (map VStr ss)" ..
  have "take 12 (map VStr ss) @ [VStr t] = map VStr (take 12 ss @ [t])" for t by (simp add: take_map)
  then show ?thesis unfolding results_line_def ss by (simp only: sum.case join_texts) simp
qed

lemma text_row_cells: "text_row row \<Longrightarrow> text_row row0 \<Longrightarrow> \<exists>cells. dict_cells (dkeys row0) row = Inr cells"
  by (simp add: text_row_def dict_cells_def)

lemma osA_Inl: "osA f h w = (Inl e, w') \<Longrightarrow> \<exists>m. e = OsErr m"
  by (auto simp: osA_def Let_def split: option.splits sum.splits)

lemma for_Inl: "forA f xs h w = (Inl e, w') \<Longrightarrow> \<exists>x\<in>set xs. \<exists>u. f x h u = (Inl e, w')"
  by (induction xs arbitrary: w) (auto simp: returnA_def elim!: thenA_cases)

lemma csv_Inl:
  assumes "csvA p m h w = (Inl e, w')" "\<And>u v e. m h u = (Inl e, v) \<Longrightarrow> \<exists>t. e = OsErr t"
  shows "\<exists>t. e = OsErr t"
proof -
  from assms(1) consider "writeA p '''' h w = (Inl e, w')"
    | u where "withA m (bindA (getA (\<lambda>h w. rows_text (CHR '','') (w_rows w))) (appendA p)) h u = (Inl e, w')"
    unfolding csvA_def by (auto elim!: thenA_cases)
  then show ?thesis
  proof cases
    case 1
    then show ?thesis unfolding writeA_def by (rule osA_Inl)
  next
    case 2
    obtain r v where m: "m h u = (r, v)" by (cases "m h u")
    with 2 consider "r = Inl e" | "appendA p (rows_text (CHR '','') (w_rows v)) h v = (Inl e, w')"
      by (auto simp: withA_def bindA_def getA_def split: prod.splits sum.splits)
    then show ?thesis
      using assms(2) m unfolding appendA_def by cases (auto dest: osA_Inl)
  qed
qed

text \<open>
  C15: when the summary files that are there are those the summary script writes, whatever the
  values, collecting them can only be stopped by the operating system: no column is missing,
  no value is no string, no row has other columns than the first.
\<close>

theorem summaries_collectable:
  assumes "\<forall>p\<in>set projects. \<forall>t. map_of (w_fs w) (compare_file p ''summary.csv'') = Some (File t) \<longrightarrow>
      (\<exists>r texts. t = asanmm_summary_file r texts \<and> length texts = length (asanmm_cells r))"
    and "collect_results projects h w = (Inl e, w')"
  shows "\<exists>m. e = OsErr m"
proof -
  let ?rest = "\<lambda>rs. thenA (writeA results_md '''') (thenA (appendA results_md (table_line results_headers @ [NL]))
    (thenA (appendA results_md (table_rule (length results_headers) @ [NL]))
      (forA (\<lambda>row. bindA (liftA (results_line row)) (appendA results_md)) rs)))"
  let ?csv = "\<lambda>rs. case rs of [] \<Rightarrow> returnA () | row # _ \<Rightarrow> csvA results_csv
          (thenA (rowA (map key_text (dkeys row))) (forA (write_dict (dkeys row)) rs))"
  from assms(2) have "bindA (read_summaries projects) (\<lambda>rs. thenA (?csv rs) (?rest rs)) h w = (Inl e, w')"
    unfolding collect_results_def .
  then show ?thesis
  proof (cases rule: bindA_cases)
    case (stop e')
    then show ?thesis by (auto dest: read_summaries_Inl)
  next
    case (go rs u)
    from read_summaries_Inr [OF go(1)] have "rs = concat (map (summary_rows (w_fs w)) projects)" by simp
    note rs = this
    have rows: "\<forall>row\<in>set rs. text_row row"
    proof (intro ballI)
      fix row assume "row \<in> set rs"
      then obtain p where p: "p \<in> set projects" "row \<in> set (summary_rows (w_fs w) p)" using rs by auto
      then obtain t where "map_of (w_fs w) (compare_file p ''summary.csv'') = Some (File t)" "row \<in> set (full_reader t)"
        by (cases "map_of (w_fs w) (compare_file p ''summary.csv'')"; cases "the (map_of (w_fs w) (compare_file p ''summary.csv''))") (auto simp: summary_rows_def)
      with assms(1) p(1) show "text_row row" using summary_text_row by blast
    qed
    from go(2) show ?thesis
    proof (cases rule: thenA_cases)
      case (stop e')
      then have c: "?csv rs h u = (Inl e, w')" by simp
      show ?thesis
      proof (cases rs)
        case Nil
        with c show ?thesis by (simp add: returnA_def)
      next
        case (Cons row rs')
        from c have c': "csvA results_csv (thenA (rowA (map key_text (dkeys row))) (forA (write_dict (dkeys row)) rs)) h u = (Inl e, w')"
          by (simp only: Cons list.case)
        have nofail: False if "forA (write_dict (dkeys row)) rs h x = (Inl e', y)" for x y e'
        proof -
          from for_Inl [OF that] obtain row' z where "row' \<in> set rs" "write_dict (dkeys row) row' h z = (Inl e', y)" by blast
          with text_row_cells [of row' row] rows Cons show False by (auto simp: write_dict_def rowA_def)
        qed
        show ?thesis
          by (rule csv_Inl [OF c']) (auto simp: rowA_def elim!: thenA_cases dest: nofail)
      qed
    next
      case rest: (go v)
      have line: "\<exists>t. e' = OsErr t" if "bindA (liftA (results_line row)) (appendA results_md) h x = (Inl e', y)" "row \<in> set rs" for row x y e'
        using that rows text_row_line [of row]
        by (auto simp: liftA_def returnA_def appendA_def elim!: bindA_cases dest: osA_Inl)
      from rest(2) show ?thesis
        unfolding writeA_def appendA_def
        by (auto elim!: thenA_cases dest: osA_Inl dest!: for_Inl intro: line [unfolded appendA_def])
    qed
  qed
qed

section \<open>Witnesses\<close>

definition demo_texts :: "string list" where
  "demo_texts = [''OpenSource'', ''zlib''] @ replicate 20 ''7'' @ [''S'', ''S'', ''NR'']"

definition demo_out :: "(string option) \<Rightarrow> host \<times> world" where
  "demo_out refusal =
     (\<lparr>h_run = (\<lambda>w p. (Exited 0, w_fs w)), h_os = (\<lambda>t. refusal), h_clock = (\<lambda>t. Fin 0), h_environ = []\<rparr>,
      \<lparr>w_fs = [(OUT_BASE, Dir), (compare_file ''zlib'' ''summary.csv'', File (rows_text (CHR '','') [asanmm_columns, demo_texts]))],
       w_tick = 0, w_procs = [], w_rows = [], w_status = [], w_prints = []\<rparr>)"

lemma demo_tables_run: "case demo_out None of (h, w) \<Rightarrow> fst (collect_results [''zlib''] h w) = Inr ()"
  by code_simp

lemma demo_collect_stops: "case demo_out (Some ''no space'') of (h, w) \<Rightarrow>
    fst (collect_results [''zlib''] h w) = Inl (OsErr ''no space'')"
  by code_simp

lemma demo_collect_rows: "case demo_out None of (h, w) \<Rightarrow>
    map (\<lambda>row. results_line row) (concat (map (summary_rows (w_fs w)) [''zlib''])) =
      [Inr (''| zlib | 7 | 7 | 7 | 7 | 7 | 7 | 7 | 7 | 7 | 7 | 7 | S->S->NR |'' @ [NL])]"
  by code_simp

theorem collected_tables_witness:
  "case demo_out None of (h, w) \<Rightarrow> \<exists>t. map_of (w_fs (snd (collect_results [''zlib''] h w))) results_md = Some (File
     (table_line results_headers @ [NL] @ table_rule (length results_headers) @ [NL] @ t)) \<and>
     t = ''| zlib | 7 | 7 | 7 | 7 | 7 | 7 | 7 | 7 | 7 | 7 | 7 | S->S->NR |'' @ [NL]"
proof -
  obtain h w where d: "demo_out None = (h, w)" by (cases "demo_out None")
  from demo_tables_run obtain w' where r: "collect_results [''zlib''] h w = (Inr (), w')"
    unfolding d by (cases "collect_results [''zlib''] h w") auto
  let ?rows = "concat (map (summary_rows (w_fs w)) [''zlib''])"
  from collected_tables [OF r refl] obtain ls where ls: "list_all2 (\<lambda>row l. results_line row = Inr l) ?rows ls"
    "map_of (w_fs w') results_md = Some (File (concat
        ((table_line results_headers @ [NL]) # (table_rule (length results_headers) @ [NL]) # ls)))" by blast
  from ls(1) have "map results_line ?rows = map Inr ls" by (induction rule: list_all2_induct) simp_all
  with demo_collect_rows have "map Inr ls = [Inr (''| zlib | 7 | 7 | 7 | 7 | 7 | 7 | 7 | 7 | 7 | 7 | 7 | S->S->NR |'' @ [NL]) :: job_exn + string]"
    unfolding d by (simp only: prod.case)
  then have "ls = [''| zlib | 7 | 7 | 7 | 7 | 7 | 7 | 7 | 7 | 7 | 7 | 7 | S->S->NR |'' @ [NL]]" by auto
  with ls(2) r show ?thesis unfolding d by simp
qed

theorem summaries_collectable_witness:
  "case demo_out (Some ''no space'') of (h, w) \<Rightarrow> \<exists>e w'. collect_results [''zlib''] h w = (Inl e, w') \<and> (\<exists>m. e = OsErr m)"
proof -
  let ?h = "fst (demo_out (Some ''no space''))" and ?w = "snd (demo_out (Some ''no space''))"
  from demo_collect_stops obtain w' where r: "collect_results [''zlib''] ?h ?w = (Inl (OsErr ''no space''), w')"
    by (cases "collect_results [''zlib''] ?h ?w") (auto simp: case_prod_beta)
  have n: "compare_file ''zlib'' ''summary.csv'' \<noteq> OUT_BASE" by code_simp
  have "\<forall>p\<in>set [''zlib'']. \<forall>t. map_of (w_fs ?w) (compare_file p ''summary.csv'') = Some (File t) \<longrightarrow>
      (\<exists>r texts. t = asanmm_summary_file r texts \<and> length texts = length (asanmm_cells r))"
  proof (intro ballI allI impI)
    fix p t assume p: "p \<in> set [''zlib'']" and "map_of (w_fs ?w) (compare_file p ''summary.csv'') = Some (File t)"
    then have "t = rows_text (CHR '','') [asanmm_columns, demo_texts]" using n by (simp add: demo_out_def)
    then have "t = asanmm_summary_file undefined demo_texts" by (simp add: asanmm_summary_file_def asanmm_columns)
    moreover have "length demo_texts = length (asanmm_cells undefined)" by (simp add: demo_texts_def asanmm_cells_def)
    ultimately show "\<exists>r texts. t = asanmm_summary_file r texts \<and> length texts = length (asanmm_cells r)" by blast
  qed
  from summaries_collectable [OF this r] r show ?thesis by (auto simp: case_prod_beta)
qed

end
