(* ===== verification/StatusFile.thy ===== *)
theory StatusFile
  imports JobLiveness CollectOss
begin

text \<open>
  From the batch to its report: the status file the runner writes row by row is what
  \<open>collect_oss_batch_results.py\<close> reads, and the report shows for every job the status and the
  message the runner has recorded last.
\<close>

lemma status_apart:
  assumes "job_ok (n, s)"
  shows "\<forall>q\<in>grow_frame.job_paths n s. apart default_status_file q"
proof -
  note names = job_names_ok [OF assms]
  have p: "plain_name (job_name n s @ ''-'' @ ''summary.md'')" "plain_name (job_name n s @ ''-'' @ ''summary.csv'')"
    using names(3,4) by simp_all
  have l: "status_name \<noteq> log_name n s" "status_name \<noteq> job_name n s"
    "status_name \<noteq> job_name n s @ ''-summary.md''" "status_name \<noteq> job_name n s @ ''-summary.csv''"
  proof -
    have r: "rev status_name \<noteq> rev (log_name n s)" "rev status_name \<noteq> rev (job_name n s)"
      "rev status_name \<noteq> rev (job_name n s @ ''-summary.md'')" "rev status_name \<noteq> rev (job_name n s @ ''-summary.csv'')"
      by (simp_all add: status_name_def log_name_def job_name_def)
    then show "status_name \<noteq> log_name n s" "status_name \<noteq> job_name n s"
      "status_name \<noteq> job_name n s @ ''-summary.md''" "status_name \<noteq> job_name n s @ ''-summary.csv''"
      by metis+
  qed
  have b: "parallel (out_names @ x) bench_names" for x by (simp add: out_names_def bench_names_def)
  show ?thesis
    using names l b status_plain
    by (simp add: grow_frame.job_paths_def apart_def default_status base_paths(2) job_paths_of [OF assms] del: path_of_simps)
qed

section \<open>What the runner writes\<close>

definition status_file_text :: "string list list \<Rightarrow> string" where
  "status_file_text rows = rows_text (CHR '','') (status_header # rows)"

definition status_holds :: "string \<Rightarrow> world \<Rightarrow> bool" where
  "status_holds t w \<longleftrightarrow> map_of (w_fs w) default_status_file = Some (File t)"

lemma same_holds: "same_node default_status_file w w' \<Longrightarrow> status_holds t w' \<longleftrightarrow> status_holds t w"
  by (simp add: same_node_def status_holds_def)

lemma statusA_holds:
  assumes "statusA default_status_file row h w = (Inr (), w')" "status_holds t w"
  shows "status_holds (t @ row_text (CHR '','') row) w'"
  using appendA_file [of default_status_file "row_text (CHR '','') row" h "w\<lparr>w_status := w_status w @ [row]\<rparr>" w' t] assms
  by (simp add: statusA_def thenA_def bindA_def status_holds_def)

lemma run_one_holds:
  assumes run: "run_one n s args default_status_file h w = (Inr (), w')" and j: "job_ok (n, s)"
    and h: "leaves default_status_file h" "status_holds t w"
  obtains row where "job_report (n, s) row" "w_status w' = w_status w @ [row]"
    "status_holds (t @ row_text (CHR '','') row) w'"
proof -
  note paths = status_apart [OF j] and plain = j [unfolded job_ok_def, simplified, THEN conjunct1]
  obtain project u v status message where
    p: "start_job n s h w = (Inr (), u)" "reported (job_log n s) (job_body n s project args) h u = (Inr (status, message), v)"
      "statusA default_status_file [n, s, status, message] h v = (Inr (), w')"
    using run unfolding run_one_def by (elim bind_Inr then_Inr) (auto simp: keyA_def raiseA_def split: option.splits)
  have "apart default_status_file (job_log n s)" using paths by (simp add: grow_frame.job_paths_def)
  from keepsD [OF kept.keeps_start [OF paths] h(1) p(1)]
    keepsD [OF kept.keeps_reported [OF this kept.keeps_job_body [OF paths plain]] h(1) p(2)] h(2)
  have "status_holds t v" by (simp add: same_holds)
  from statusA_holds [OF p(3) this] have f: "status_holds (t @ row_text (CHR '','') [n, s, status, message]) w'" .
  from run_one_status [OF run] obtain row where row: "job_report (n, s) row" "w_status w' = w_status w @ [row]" by auto
  with statusA_status [OF p(3)] have "row = [n, s, status, message]" by auto
  with row f show thesis by (intro that) simp_all
qed

lemma jobs_hold:
  assumes "forA (batch_job args default_status_file) js h w = (Inr (), w')" "\<forall>j\<in>set js. job_ok j"
    and "leaves default_status_file h" "status_holds t w"
  obtains rows where "list_all2 job_report js rows" "w_status w' = w_status w @ rows"
    "status_holds (t @ rows_text (CHR '','') rows) w'"
  using assms
proof (induction js arbitrary: w t thesis)
  case Nil
  then show ?case by (simp add: returnA_def rows_text_def)
next
  case (Cons j js)
  obtain n s where j: "j = (n, s)" by (cases j)
  from Cons.prems(2) obtain u where u: "batch_job args default_status_file j h w = (Inr (), u)"
    "forA (batch_job args default_status_file) js h u = (Inr (), w')"
    unfolding forA.simps by (rule then_Inr)
  from u(1) obtain x where x: "run_one n s args default_status_file h x = (Inr (), u)" "w_fs x = w_fs w" "w_status x = w_status w"
    unfolding batch_job_def j by (auto simp: thenA_def bindA_def printA_def)
  have tx: "status_holds t x" and ok: "job_ok (n, s)" using Cons.prems(3,5) x(2) j by (simp_all add: status_holds_def)
  from run_one_holds [OF x(1) ok Cons.prems(4) tx] obtain row where
    row: "job_report (n, s) row" "w_status u = w_status x @ [row]" "status_holds (t @ row_text (CHR '','') row) u" .
  from Cons.IH [OF _ u(2) _ Cons.prems(4) row(3)] Cons.prems(3) obtain rows where
    rows: "list_all2 job_report js rows" "w_status w' = w_status u @ rows"
      "status_holds ((t @ row_text (CHR '','') row) @ rows_text (CHR '','') rows) w'" by auto
  with row x(3) j show ?case by (intro Cons.prems(1) [of "row # rows"]) (simp_all add: rows_text_def)
qed

lemma check_names_Inr:
  "check_names what ks names h w = (Inr (), w') \<Longrightarrow> set names \<subseteq> set ks \<and> w' = w"
  unfolding check_names_def
  by (induction names arbitrary: w) (auto simp: thenA_def bindA_def returnA_def raiseA_def split: if_splits)

lemma registered_jobs_ok:
  assumes "set (batch_projects args) \<subseteq> set (dkeys PROJECTS)" "set (batch_names (ba_sanitizers args)) \<subseteq> set (dkeys SANITIZERS)"
  shows "\<forall>j\<in>set (batch_jobs args). job_ok j"
proof
  fix j assume "j \<in> set (batch_jobs args)"
  with assms have "j \<in> set every_job" by (auto simp: batch_jobs_def every_job_def)
  then show "job_ok j" by (rule every.jobs_ok)
qed

lemma mkdir_holds:
  assumes "mkdirA True OUT_BASE h w = (Inr (), u)"
  shows "map_of (w_fs u) default_status_file = map_of (w_fs w) default_status_file"
proof -
  have n: "default_status_file \<notin> set (ancestors OUT_BASE @ [OUT_BASE])" by code_simp
  from assms have "fs_mkdir True OUT_BASE (w_fs w) = Inr (w_fs u)" unfolding mkdirA_def by (rule osA_Inr)
  then have "w_fs u = w_fs w \<or> w_fs u = fold add_dir (ancestors OUT_BASE @ [OUT_BASE]) (w_fs w)"
    by (auto simp: fs_mkdir_def simp del: fold_append split: option.splits fnode.splits if_splits)
  then show ?thesis using fold_add_dir [OF n] by metis
qed

lemma keeps_mkdir_status: "mkdirA b p h w = (r, u) \<Longrightarrow> w_status u = w_status w"
  using keepsD [OF status_frame.keeps_mkdir [OF TrueI] TrueI] by (simp add: same_status_def)

text \<open>The rows are behind those of earlier batches, or behind the header of a new file.\<close>

lemma batch_main_holds:
  assumes run: "batch_main args h w = (Inr (), w')" and h: "leaves default_status_file h"
    and env: "map_of (h_environ h) ''OSS_STATUS_FILE'' = None"
    and old: "(map_of (w_fs w) default_status_file = None \<and> rows0 = []) \<or> status_holds (status_file_text rows0) w"
  obtains rows where "list_all2 job_report (batch_jobs args) rows"
    "w_status w' = w_status w @ (if map_of (w_fs w) default_status_file = None then [status_header] else []) @ rows"
    "status_holds (status_file_text (rows0 @ rows)) w'"
proof -
  let ?path = default_status_file and ?new = "map_of (w_fs w) default_status_file = None"
  have target: "path_str (dget (h_environ h) ''OSS_STATUS_FILE'' ?path) = ?path"
    using env by (simp add: dget_def default_status(2))
  obtain a b c d e where
    "check_names ''project'' (dkeys PROJECTS) (batch_projects args) h w = (Inr (), a)"
    "check_names ''sanitizer'' (dkeys SANITIZERS) (batch_names (ba_sanitizers args)) h a = (Inr (), b)"
    and c: "mkdirA True OUT_BASE h b = (Inr (), c)" and d: "open_append ?path h c = (Inr (), d)"
    and e: "whenA (map_of (w_fs c) ?path \<noteq> None \<longrightarrow> False) (statusA ?path status_header) h d = (Inr (), e)"
    and l: "forA (batch_job args ?path) (batch_jobs args) h e = (Inr (), w')"
    using run unfolding batch_main_def batch_job_def [symmetric] Let_def
    by (elim then_Inr) (auto simp: bind_environ bind_exists target elim!: then_Inr)
  note names = check_names_Inr [OF this(1)] check_names_Inr [OF this(2)]
  then have ok: "\<forall>j\<in>set (batch_jobs args). job_ok j" by (intro registered_jobs_ok) simp_all
  from mkdir_holds [OF c] names have cw: "map_of (w_fs c) ?path = map_of (w_fs w) ?path" by simp
  from keeps_mkdir_status [OF c] keepsD [OF keeps_open TrueI d] names have st: "w_status d = w_status w"
    by (simp add: same_status_def)
  have "status_holds (status_file_text rows0) e \<and> w_status e = w_status w @ (if ?new then [status_header] else [])"
  proof (cases ?new)
    case True
    then have z: "rows0 = []" using old by (auto simp: status_holds_def)
    from d True cw have "writeA ?path '''' h c = (Inr (), d)" by (simp add: open_append_def bind_exists)
    then have "status_holds '''' d" by (simp add: status_holds_def writeA_file)
    moreover from e True cw have s: "statusA ?path status_header h d = (Inr (), e)" by (simp add: whenA_def)
    ultimately have "status_holds (status_file_text rows0) e"
      using statusA_holds [OF s, of "''''"] by (simp add: z status_file_text_def rows_text_def)
    with statusA_status [OF s] st True show ?thesis by simp
  next
    case False
    with d cw have "w_fs d = w_fs c"
      by (auto simp: open_append_def bind_exists dest!: osA_Inr split: if_splits)
    moreover from e False cw have "e = d" by (simp add: whenA_def)
    ultimately show ?thesis using old False cw st by (simp add: status_holds_def)
  qed
  moreover from jobs_hold [OF l ok h conjunct1 [OF this]] obtain rows where
    "list_all2 job_report (batch_jobs args) rows" "w_status w' = w_status e @ rows"
    "status_holds (status_file_text rows0 @ rows_text (CHR '','') rows) w'" .
  ultimately show thesis by (intro that) (simp_all add: status_file_text_def rows_text_append flip: append_Cons)
qed

section \<open>What the report reads\<close>

lemma add_status_row:
  "add_status (dict_row status_header [n, s, status, message]) = dset (Some n, Some s) (Some status, Some message)"
  by (rule ext) (simp add: add_status_def dict_row_def status_header_def row_get_or_def row_get_def)

lemma statuses_elsewhere:
  assumes "list_all2 job_report js rows" "(n, s) \<notin> set js"
  shows "map_of (fold add_status (map (dict_row status_header) rows) sts) (Some n, Some s) = map_of sts (Some n, Some s)"
  using assms
proof (induction js rows arbitrary: sts rule: list_all2_induct)
  case (Cons j js row rows)
  obtain m t where j: "j = (m, t)" by (cases j)
  with Cons.hyps(1) obtain status message where "row = [m, t, status, message]" by (auto simp: job_report_def)
  with Cons j show ?case by (auto simp: add_status_row dict_simps)
qed simp

lemma statuses_of_rows:
  assumes "list_all2 job_report js rows" "distinct js"
  shows "list_all2 (\<lambda>(n, s) row. \<exists>status message. row = [n, s, status, message] \<and>
      map_of (fold add_status (map (dict_row status_header) rows) sts) (Some n, Some s) = Some (Some status, Some message)) js rows"
  using assms
proof (induction js rows arbitrary: sts rule: list_all2_induct)
  case (Cons j js row rows)
  obtain m t where j: "j = (m, t)" by (cases j)
  with Cons.hyps(1) obtain status message where row: "row = [m, t, status, message]" by (auto simp: job_report_def)
  have mt: "(m, t) \<notin> set js" "distinct js" using Cons.prems j by auto
  from statuses_elsewhere [OF Cons.hyps(2) mt(1)] have
    "map_of (fold add_status (map (dict_row status_header) (row # rows)) sts) (Some m, Some t) = Some (Some status, Some message)"
    by (simp add: row add_status_row dict_simps)
  with Cons.IH [OF mt(2)] j row show ?case by simp
qed simp

text \<open>
  C11: the report of a batch shows what the batch recorded: after a batch that came to its end,
  on a host whose processes leave the status file alone, the reader finds every job of it, and
  the row of the report for that job has the status and the message of the job's row.
\<close>

theorem batch_statuses_reported:
  assumes "batch_main args h w = (Inr (), w')" and "leaves default_status_file h"
    and "map_of (h_environ h) ''OSS_STATUS_FILE'' = None" and "distinct (batch_jobs args)"
    and "(map_of (w_fs w) default_status_file = None \<and> old = []) \<or>
      map_of (w_fs w) default_status_file = Some (File (rows_text (CHR '','') (status_header # old)))"
  shows "\<exists>rows statuses. w_status w' =
      w_status w @ (if map_of (w_fs w) default_status_file = None then [status_header] else []) @ rows \<and>
    read_statuses (map_of (w_fs w')) default_status_file = Inr statuses \<and>
    list_all2 (\<lambda>(project, sanitizer) row. \<exists>status message. row = [project, sanitizer, status, message] \<and>
        map_of statuses (Some project, Some sanitizer) = Some (Some status, Some message) \<and>
        (\<forall>summary. row_get (batch_row statuses summary project sanitizer) ''Status'' = Some status))
      (batch_jobs args) rows"
proof -
  from assms(5) have "(map_of (w_fs w) default_status_file = None \<and> old = []) \<or> status_holds (status_file_text old) w"
    by (simp add: status_holds_def status_file_text_def)
  from batch_main_holds [OF assms(1-3) this] obtain rows where
    rows: "list_all2 job_report (batch_jobs args) rows"
      "w_status w' = w_status w @ (if map_of (w_fs w) default_status_file = None then [status_header] else []) @ rows"
      "status_holds (status_file_text (old @ rows)) w'" .
  let ?old = "fold add_status (map (dict_row status_header) (filter (\<lambda>r. r \<noteq> []) old)) []"
  let ?sts = "fold add_status (map (dict_row status_header) rows) ?old"
  have wide: "filter (\<lambda>r. r \<noteq> []) rows = rows"
    using rows(1) by (induction rule: list_all2_induct) (auto simp: job_report_def)
  have read: "read_statuses (map_of (w_fs w')) default_status_file = Inr ?sts"
    using rows(3) dict_roundtrip [of status_header "old @ rows"]
    by (simp add: read_statuses_def path_exists_def read_text_def status_holds_def status_file_text_def default_status(2) wide)
  have "list_all2 (\<lambda>(project, sanitizer) row. \<exists>status message. row = [project, sanitizer, status, message] \<and>
        map_of ?sts (Some project, Some sanitizer) = Some (Some status, Some message) \<and>
        (\<forall>summary. row_get (batch_row ?sts summary project sanitizer) ''Status'' = Some status))
      (batch_jobs args) rows"
    by (rule list_all2_mono [OF statuses_of_rows [OF rows(1) assms(4), of ?old]]) (auto simp: batch_row_fields)
  with rows(2) read show ?thesis by blast
qed

theorem batch_statuses_reported_witness:
  "\<exists>w' statuses. batch_main quiet_args quiet_host quiet_world = (Inr (), w') \<and>
     read_statuses (map_of (w_fs w')) default_status_file = Inr statuses"
proof -
  have fresh: "map_of (w_fs quiet_world) default_status_file = None" by code_simp
  obtain w' where w': "batch_main quiet_args quiet_host quiet_world = (Inr (), w')"
    by (rule quiet_batch_run)
  have "leaves default_status_file quiet_host" by (simp add: leaves_def quiet_host_def)
  moreover have "map_of (h_environ quiet_host) ''OSS_STATUS_FILE'' = None" by (simp add: quiet_host_def)
  moreover have "distinct (batch_jobs quiet_args)" by (simp add: quiet_jobs)
  ultimately show ?thesis
    using batch_statuses_reported [OF w', of "[]"] fresh w' by auto
qed

end
