(* ===== verification/ProcBounds.thy ===== *)
theory ProcBounds
  imports BatchJobs
begin

text \<open>
  How much a batch can start: whatever the host does, every part of a job starts at most a fixed
  number of processes, so that a batch comes to its end after boundedly many of them.
\<close>

definition at_most :: "nat \<Rightarrow> 'a act \<Rightarrow> bool" where
  "at_most k m \<longleftrightarrow> (\<forall>h w. length (w_procs (snd (m h w))) \<le> length (w_procs w) + k)"

named_theorems at_most_rules \<open>bounds on the processes an action starts\<close>

lemma at_most_more: "at_most k m \<Longrightarrow> k \<le> n \<Longrightarrow> at_most n m"
  unfolding at_most_def by (meson add_left_mono order_trans)

lemma at_most_bind:
  assumes "at_most a m" "\<And>x. at_most b (f x)"
  shows "at_most (a + b) (bindA m f)"
  unfolding at_most_def
proof (intro allI)
  fix h and w :: world
  obtain r u where m: "m h w = (r, u)" by (cases "m h w")
  have u: "length (w_procs u) \<le> length (w_procs w) + a" using assms(1) m unfolding at_most_def by (metis snd_conv)
  show "length (w_procs (snd (bindA m f h w))) \<le> length (w_procs w) + (a + b)"
  proof (cases r)
    case (Inr x)
    have "length (w_procs (snd (f x h u))) \<le> length (w_procs u) + b" using assms(2) unfolding at_most_def by blast
    with u m Inr show ?thesis by (simp add: bindA_def)
  qed (use u m in \<open>simp add: bindA_def\<close>)
qed

lemma at_most_then: "at_most a m \<Longrightarrow> at_most b n \<Longrightarrow> at_most (a + b) (thenA m n)"
  unfolding thenA_def by (rule at_most_bind)

lemma at_most_none [at_most_rules]:
  "at_most 0 (returnA x)" "at_most 0 (raiseA e)" "at_most 0 (getA f)" "at_most 0 (osA g)" "at_most 0 (rowA row)"
  "at_most 0 (printA t)" "at_most 0 (keyA k v)" "at_most 0 (failing rc msg)"
  by (auto simp: at_most_def returnA_def raiseA_def getA_def osA_def rowA_def printA_def keyA_def failing_def Let_def
      split: option.splits sum.splits)

lemma at_most_proc [at_most_rules]: "at_most 1 (procA p)"
  by (auto simp: at_most_def procA_def Let_def split: prod.splits proc_end.splits)

lemma at_most_for: "(\<And>x. x \<in> set xs \<Longrightarrow> at_most k (f x)) \<Longrightarrow> at_most (length xs * k) (forA f xs)"
proof (induction xs)
  case (Cons x xs)
  then have "at_most (k + length xs * k) (thenA (f x) (forA f xs))" by (intro at_most_then) simp_all
  then show ?case by simp
qed (simp add: at_most_rules)

lemma at_most_for_0: "(\<And>x. at_most 0 (f x)) \<Longrightarrow> at_most 0 (forA f xs)"
  using at_most_for [of xs 0 f] by simp

lemma at_most_if: "at_most a m \<Longrightarrow> at_most b n \<Longrightarrow> at_most (max a b) (if c then m else n)"
  by (auto elim: at_most_more)

lemma at_most_when: "at_most k m \<Longrightarrow> at_most k (whenA b m)"
  using at_most_if [of k m 0 "returnA ()" b] by (simp add: whenA_def at_most_rules)

lemma at_most_try:
  assumes "at_most a m" "\<And>e. at_most b (f e)"
  shows "at_most (a + b) (tryA m f)"
  unfolding at_most_def
proof (intro allI)
  fix h and w :: world
  obtain r u where m: "m h w = (r, u)" by (cases "m h w")
  have u: "length (w_procs u) \<le> length (w_procs w) + a" using assms(1) m unfolding at_most_def by (metis snd_conv)
  moreover have "length (w_procs (snd (f e h u))) \<le> length (w_procs u) + b" for e
    using assms(2) unfolding at_most_def by blast
  ultimately have "length (w_procs (snd (f e h u))) \<le> length (w_procs w) + (a + b)" for e
    by (metis add.assoc add_le_mono1 order_trans)
  with u m show "length (w_procs (snd (tryA m f h w))) \<le> length (w_procs w) + (a + b)"
    by (auto simp: tryA_def split: sum.split job_exn.split)
qed

lemma at_most_with: "at_most a m \<Longrightarrow> at_most b c \<Longrightarrow> at_most (a + b) (withA m c)"
  unfolding at_most_def withA_def
  by (auto split: prod.splits sum.splits) (metis (no_types, lifting) add.assoc add_le_mono1 order_trans snd_conv)+

lemmas at_most_steps = at_most_bind at_most_then at_most_if at_most_when at_most_with

lemma at_most_files [at_most_rules]:
  "at_most 0 (removeA p)" "at_most 0 (mkdirA b p)" "at_most 0 (writeA p t)" "at_most 0 (appendA p t)"
  "at_most 0 (rmtreeA p)" "at_most 0 (unlinkA p)" "at_most 0 (existsA p)" "at_most 0 clockA" "at_most 0 environA"
  unfolding removeA_def mkdirA_def writeA_def appendA_def rmtreeA_def unlinkA_def existsA_def clockA_def environA_def
  by (rule at_most_more, (rule at_most_rules at_most_steps)+, simp)+

lemma at_most_sh [at_most_rules]: "at_most 1 (sh c d e l t)" "at_most 1 (runs_sh c l t)"
  unfolding runs_sh_def sh_def by (rule at_most_more, (rule at_most_rules at_most_steps)+, simp)+

section \<open>The parts of a job\<close>

lemma at_most_adopt: "at_most 0 (adopt a b)"
proof -
  have "at_most 0 (case x of (names, fs) \<Rightarrow> (case names of
          [c] \<Rightarrow> if map_of fs c = Some Dir then thenA (osA (fs_rename c b)) (rmtreeA a) else osA (fs_rename a b)
        | _ \<Rightarrow> osA (fs_rename a b)))" for x :: "string list \<times> filesys"
    by (auto split: prod.split list.split intro!: at_most_none at_most_more [OF at_most_then] at_most_files)
  then have "at_most (0 + (0 + 0)) (adopt a b)"
    unfolding adopt_def by (intro at_most_then at_most_bind at_most_none)
  then show ?thesis by simp
qed

lemma at_most_source: "at_most 4 (prepare_source n project l)"
proof -
  have a: "at_most 2 (prepare_archive n u l)" for u
    unfolding prepare_archive_def Let_def by (rule at_most_more, (rule at_most_rules at_most_steps at_most_adopt)+, simp)
  have g: "at_most 3 (prepare_git n repo ref l)" for repo ref
    unfolding prepare_git_def Let_def by (rule at_most_more, (rule at_most_rules at_most_steps)+, simp)
  have "at_most 4 (bindA (keyA ''repo'' (pj_repo project)) (\<lambda>repo.
        bindA (prepare_git n repo ref l) (\<lambda>src_dir.
        thenA (whenA (pj_submodules project)
          (bindA (sh (git src_dir ''submodule update --init --recursive --depth 1'') ROOT None l 1800)
            (\<lambda>rc. failing rc (''git submodule update failed for '' @ n))))
        (returnA src_dir))))" for ref
    by (rule at_most_more, (rule at_most_rules at_most_steps g)+, simp)
  with at_most_more [OF a] show ?thesis unfolding prepare_source_def by (auto split: option.split)
qed

lemma at_most_inputs: "at_most 0 (write_bench_inputs bench)"
proof -
  have tree: "at_most 0 (write_tree_file t i)" for t i
    unfolding write_tree_file_def Let_def by (rule at_most_more, (rule at_most_rules at_most_steps)+, simp)
  have each: "at_most 0 (case x of (name, s) \<Rightarrow> writeA (path_div bench name) s)" for x
    by (cases x) (simp add: at_most_rules)
  show ?thesis
    unfolding write_bench_inputs_def
    by (rule at_most_more, (rule at_most_rules at_most_steps at_most_for_0 tree each)+, simp)
qed

lemma at_most_build: "at_most 1 (build_variant n project src out v san dis k l t)"
  unfolding build_variant_def copy_source_def Let_def by (rule at_most_more, (rule at_most_rules at_most_steps)+, simp)

lemma at_most_measure: "at_most (nat runs) (measure_runs vars n project v dir runs t l)"
proof -
  have late: "at_most 0 (case e of TimeoutErr x y \<Rightarrow> returnA 124 | _ \<Rightarrow> raiseA e)" for e
    by (cases e) (simp_all add: at_most_rules)
  have one: "at_most 1 (timed_run v c d env l t i)" for c d env i
    unfolding timed_run_def catch_timeout_def
    by (rule at_most_more, (rule at_most_rules at_most_steps at_most_try late)+, simp)
  have many: "at_most (nat runs) (forA (timed_run v c d env l t) (run_numbers runs))" for c d env
    using at_most_for [of "run_numbers runs" 1 "timed_run v c d env l t"] one by (simp add: run_numbers_def)
  show ?thesis
    unfolding measure_runs_def Let_def
    by (rule at_most_more, (rule at_most_rules at_most_steps at_most_for_0 many)+, simp)
qed

lemma at_most_summarize: "at_most 1 (summarize n s out)"
  unfolding summarize_def Let_def by (rule at_most_more, (rule at_most_rules at_most_steps)+, simp)

lemma at_most_csv: "at_most k m \<Longrightarrow> at_most k (csvA p m)"
proof -
  assume m: "at_most k m"
  have reset: "at_most 0 (\<lambda>h w. (Inr (), w\<lparr>w_rows := []\<rparr>))" by (simp add: at_most_def)
  show ?thesis unfolding csvA_def by (rule at_most_more, (rule at_most_rules at_most_steps m reset)+, simp)
qed

lemma at_most_job: "at_most (8 + 3 * nat (ba_runs args)) (job_body n s project args)"
  unfolding job_body_def Let_def run_runtime_def
  by (rule at_most_more, (rule at_most_rules at_most_steps at_most_source at_most_inputs at_most_build at_most_measure
      at_most_summarize at_most_csv)+, simp)

lemma at_most_start: "at_most 0 (start_job n s)"
proof -
  have old: "at_most 0 (bindA (existsA p) (\<lambda>there. whenA there (unlinkA p)))" for p
    by (rule at_most_more, (rule at_most_rules at_most_steps)+, simp)
  show ?thesis
    unfolding start_job_def Let_def
    by (rule at_most_more, (rule at_most_rules at_most_then at_most_for_0 old)+, simp)
qed

lemma at_most_status: "at_most 0 (statusA p row)"
proof -
  have "at_most 0 (\<lambda>h w. (Inr (), w\<lparr>w_status := w_status w @ [row]\<rparr>))" by (simp add: at_most_def)
  then show ?thesis unfolding statusA_def using at_most_then [OF _ at_most_files(4)] by fastforce
qed

lemma at_most_run_one: "at_most (8 + 3 * nat (ba_runs args)) (run_one n s args path)"
proof -
  have st: "at_most 0 (case x of (status, message) \<Rightarrow> statusA path [n, s, status, message])" for x
    by (cases x) (simp add: at_most_status)
  show ?thesis
    unfolding run_one_def reported_def
    by (rule at_most_more, (rule at_most_rules at_most_steps at_most_try at_most_start at_most_job st)+, simp)
qed

text \<open>
  C12: a batch comes to its end after boundedly many processes, whatever they and the operating
  system do: for each job at most four to fetch the source, three builds, three times the runs
  asked for, and the summary script.
\<close>

theorem batch_processes_bounded:
  "length (w_procs (snd (batch_main args h w))) \<le>
     length (w_procs w) + length (batch_jobs args) * (8 + 3 * nat (ba_runs args))"
proof -
  have job: "at_most (8 + 3 * nat (ba_runs args)) (case j of (project, sanitizer) \<Rightarrow>
      thenA (printA (''=== '' @ project @ '' '' @ sanitizer @ '' ===''))
        (run_one project sanitizer args path))" for j path
    using at_most_then [OF at_most_none(6) at_most_run_one] by (cases j) simp
  have name: "at_most 0 (if n \<in> A then returnA () else raiseA e)" for n :: string and A e
    by (simp add: at_most_rules)
  have checks: "at_most 0 (check_names what ks names)" for what ks names
    unfolding check_names_def by (rule at_most_for_0 [OF name])
  have opens: "at_most 0 (open_append p)" for p
    unfolding open_append_def by (rule at_most_more, (rule at_most_rules at_most_steps)+, simp)
  have "at_most (length (batch_jobs args) * (8 + 3 * nat (ba_runs args))) (batch_main args)"
    unfolding batch_main_def Let_def
    by (rule at_most_more, (rule at_most_rules at_most_steps checks opens at_most_status at_most_for [OF job])+, simp)
  then show ?thesis unfolding at_most_def by blast
qed

end
