(* ===== verification/Registries.thy ===== *)
theory Registries
  imports AsanmmJobs JobLiveness
begin

text \<open>
  The tables of the two runners, and the directories the jobs of the full batch get.
\<close>

lemma job_root_inj:
  assumes "job_ok (n, s)" "job_ok (m, t)" "job_root n s = job_root m t"
  shows "(n, s) = (m, t)"
proof -
  have "plain_names (out_names @ [job_name n s])" "plain_names (out_names @ [job_name m t])"
    using assms(1,2) job_names_ok(1) by simp_all
  with assms have "job_name n s = job_name m t"
    using path_of_inj by (metis job_paths_of(1) same_append_eq list.inject)
  then have "rev (job_name n s) = rev (job_name m t)" by simp
  with assms(1,2) show ?thesis by (auto simp: job_name_def job_ok_def)
qed

text \<open>
  C16: the tables of the two runners are well-formed: project names are distinct single path
  components, every project has one source, a build command, an artifact and a run command; the
  base variant and the core checks of a sanitizer carry its name; and no two jobs of the full
  batch share a directory.
\<close>

theorem registries_well_formed:
  "distinct (dkeys PROJECTS) \<and> distinct (dkeys compare_projects) \<and>
   list_all (\<lambda>(name, p). complete_project p \<and> plain_name name) (PROJECTS @ compare_projects) \<and>
   list_all (\<lambda>(s, san). sn_base_variant san = s @ ''-base'' \<and> sn_core_prefixes san \<noteq> [] \<and>
      list_all (\<lambda>p. startswith p (''__'' @ s @ ''_'')) (sn_core_prefixes san)) SANITIZERS \<and>
   distinct (map (\<lambda>(name, s). job_root name s) (List.product (dkeys PROJECTS) (dkeys SANITIZERS)))"
proof (intro conjI)
  show d: "distinct (dkeys PROJECTS)" "distinct (dkeys compare_projects)"
    by code_simp+
  show "list_all (\<lambda>(name, p). complete_project p \<and> plain_name name) (PROJECTS @ compare_projects)"
    using registry_complete compare_registry by simp
  show "list_all (\<lambda>(s, san). sn_base_variant san = s @ ''-base'' \<and> sn_core_prefixes san \<noteq> [] \<and>
      list_all (\<lambda>p. startswith p (''__'' @ s @ ''_'')) (sn_core_prefixes san)) SANITIZERS"
    by code_simp
  have "distinct (dkeys SANITIZERS)" by code_simp
  with d(1) have "distinct every_job" unfolding every_job_def by (rule distinct_product)
  moreover have "inj_on (\<lambda>(name, s). job_root name s) (set every_job)"
  proof (rule inj_onI)
    fix j k assume j: "j \<in> set every_job" and k: "k \<in> set every_job"
      and same: "(\<lambda>(name, s). job_root name s) j = (\<lambda>(name, s). job_root name s) k"
    obtain n s m t where p: "j = (n, s)" "k = (m, t)" by (cases j; cases k)
    from same have "job_root n s = job_root m t" by (simp add: p)
    with every.jobs_ok [OF j] every.jobs_ok [OF k] show "j = k" unfolding p by (rule job_root_inj)
  qed
  ultimately show "distinct (map (\<lambda>(name, s). job_root name s) (List.product (dkeys PROJECTS) (dkeys SANITIZERS)))"
    by (simp add: distinct_map every_job_def)
qed

end
