(* ===== verification/SanrazorOutput.thy ===== *)
theory SanrazorOutput
  imports SanrazorAccess SanrazorApply Host FloatText
begin

text \<open>
  \<open>write_outputs\<close> of \<open>scripts/sanrazor_removed_access_summary.py\<close>, and what
  \<open>scripts/apply_sanrazor_detected_disabled_counts.py\<close> reads from the CSV file it writes.
\<close>

section \<open>The files\<close>

definition access_fields :: "string list" where
  "access_fields = [''Level'', ''Benchmark'', ''SanRazor Reported Removed Checks'', ''Removed Checks'',
     ''Removed READ Checks'', ''Removed WRITE Checks'', ''Removed UNKNOWN Checks'', ''READ / Removed'',
     ''WRITE / Removed'', ''UNKNOWN / Removed'', ''Detected / Reported'']"

text \<open>A row's values as text, in the order of the columns; \<open>none\<close> is how a missing name is written.\<close>

definition access_texts :: "string \<Rightarrow> access_row \<Rightarrow> string list" where
  "access_texts none r =
     [xr_level r, case xr_bench r of None \<Rightarrow> none | Some b \<Rightarrow> b, show_int (xr_reported r), show_int (xr_removed r),
      show_int (xr_read r), show_int (xr_write r), show_int (xr_unknown r), access_cell (xr_read_pct r),
      access_cell (xr_write_pct r), access_cell (xr_unknown_pct r), access_cell (xr_coverage r)]"

definition access_csv :: "access_row list \<Rightarrow> string" where
  "access_csv rows = rows_text (CHR '','') (access_fields # map (access_texts '''') rows)"

definition access_md :: "access_row list \<Rightarrow> string" where
  "access_md rows =
     ''| Level | Benchmark | SanRazor Reported Removed | Removed | READ | WRITE | UNKNOWN | READ/Removed | WRITE/Removed | UNKNOWN/Removed | Detected/Reported |'' @ [NL] @
     ''|---|---|---:|---:|---:|---:|---:|---:|---:|---:|---:|'' @ [NL] @
     concat (map (\<lambda>r. ''| '' @ join '' | '' (access_texts ''None'' r) @ '' |'' @ [NL]) rows)"

text \<open>The files are optional; their directories are made.\<close>

definition write_output :: "string option \<Rightarrow> string \<Rightarrow> unit act" where
  "write_output path content = (case path of
      None \<Rightarrow> returnA ()
    | Some p \<Rightarrow> thenA (mkdirA True (path_parent p)) (writeA p content))"

definition write_outputs :: "access_row list \<Rightarrow> string option \<Rightarrow> string option \<Rightarrow> unit act" where
  "write_outputs rows csv_out md_out =
     thenA (write_output csv_out (access_csv rows)) (write_output md_out (access_md rows))"

section \<open>Numbers as text\<close>

lemma parse_digits: "s \<noteq> [] \<Longrightarrow> list_all is_digit s \<Longrightarrow> parse_decimal s = Some (of_int (dec_val s))"
proof -
  assume s: "s \<noteq> []" "list_all is_digit s"
  then have t: "takeWhile is_digit s = s" "dropWhile is_digit s = []" by (auto simp: list_all_iff)
  show ?thesis using s(1) by (simp add: parse_decimal_def ten_pow_def Let_def t)
qed

lemma py_float_digits:
  assumes "s \<noteq> []" "list_all is_digit s"
  shows "py_float s = Inr (of_exact False (of_int (dec_val s)))"
    "py_float (CHR ''-'' # s) = Inr (of_exact True (- of_int (dec_val s)))"
proof -
  from assms have u: "CHR ''_'' \<notin> set s" by (auto simp: is_digit_def list_all_iff)
  obtain a s' where s: "s = a # s'" "is_digit a" using assms by (cases s) auto
  have l: "is_digit (last s)" using assms by (auto simp: list_all_iff)
  have "num_strip s = s" "num_strip (CHR ''-'' # s) = CHR ''-'' # s"
    using s l by (auto intro!: num_strip_id simp: digit_not_num_space, simp add: num_space_def)
  moreover have "take_sign s = (False, s)" "take_sign (CHR ''-'' # s) = (True, s)"
    using s digit_not_sign [OF s(2)] by (simp_all add: take_sign_def)
  moreover have "lower s \<noteq> ''inf'' \<and> lower s \<noteq> ''infinity'' \<and> lower s \<noteq> ''nan''"
    using s digit_lower [OF s(2)] by (auto simp: lower_def is_digit_def)
  ultimately show "py_float s = Inr (of_exact False (of_int (dec_val s)))"
    "py_float (CHR ''-'' # s) = Inr (of_exact True (- of_int (dec_val s)))"
    using parse_digits [OF assms] u by (simp_all add: py_float_def drop_underscores_none underscores_ok_none)
qed

text \<open>An integer of at most 53 bits survives the way over text and float.\<close>

lemma number_show_int:
  assumes "\<bar>i\<bar> < 2 ^ 53"
  shows "number (VStr (show_int i)) = Inr i"
proof -
  have r: "rnd (of_int i) = of_int i" using assms by (rule rnd_of_small_int)
  have b: "(of_int i :: rat) < two_pow 1024" "- two_pow 1024 < (of_int i :: rat)"
  proof -
    have "\<bar>of_int i :: rat\<bar> < of_int (2 ^ 53)" using assms by (simp only: of_int_abs [symmetric] of_int_less_iff)
    also have "\<dots> < two_pow 1024" by (simp add: two_pow_def)
    finally show "(of_int i :: rat) < two_pow 1024" "- two_pow 1024 < (of_int i :: rat)" by (simp_all add: abs_less_iff)
  qed
  have d: "list_all is_digit (show_digits \<bar>i\<bar>)" using show_digits_digits [of "\<bar>i\<bar>"] by (auto simp: list_all_iff)
  have "py_float (show_int i) = Inr (of_exact (i < 0) (of_int i))"
    using py_float_digits [OF show_digits_nonempty d] by (auto simp: show_int_def)
  then have "py_float (show_int i) = Inr (Fin (of_int i))"
    using r b by (auto simp: of_exact_def Let_def)
  then show ?thesis by (simp add: number_def float_of_def catch_bad_value_def trunc_def)
qed

section \<open>What is written is read\<close>

lemma mkdir_keeps: "mkdirA b p h w = (Inr (), u) \<Longrightarrow> map_of (w_fs w) q = Some n \<Longrightarrow> map_of (w_fs u) q = Some n"
proof -
  assume "mkdirA b p h w = (Inr (), u)" and q: "map_of (w_fs w) q = Some n"
  then have "fs_mkdir b p (w_fs w) = Inr (w_fs u)" by (auto simp: mkdirA_def osA_def Let_def split: option.splits sum.splits)
  then have "w_fs u = w_fs w \<or> w_fs u = fold add_dir (ancestors p @ [p]) (w_fs w)"
    by (auto simp: fs_mkdir_def simp del: fold_append split: option.splits fnode.splits if_splits)
  moreover have "map_of (fold add_dir ps fs) q = Some n" if "map_of fs q = Some n" for ps fs
    using that
  proof (induction ps arbitrary: fs)
    case (Cons a ps)
    from Cons.prems have "map_of (add_dir a fs) q = Some n" by (auto simp: add_dir_def dict_simps)
    with Cons.IH show ?case by simp
  qed simp
  ultimately show ?thesis using q by metis
qed

lemma write_node: "writeA p t h w = (Inr (), u) \<Longrightarrow> map_of (w_fs u) q = (if q = p then Some (File t) else map_of (w_fs w) q)"
  by (auto simp: writeA_def osA_def fs_write_def Let_def dict_simps split: option.splits sum.splits if_splits)

lemma write_output_node:
  assumes "write_output path t h w = (Inr (), u)"
  shows "path = Some q \<Longrightarrow> map_of (w_fs u) q = Some (File t)"
    "path \<noteq> Some q \<Longrightarrow> map_of (w_fs w) q = Some n \<Longrightarrow> map_of (w_fs u) q = Some n"
  using assms mkdir_keeps
  by (auto simp: write_output_def thenA_def bindA_def returnA_def write_node split: option.splits prod.splits sum.splits)

abbreviation access_dict :: "access_row \<Rightarrow> csv_dict" where
  "access_dict r \<equiv> dict_row access_fields (access_texts '''' r)"

lemma access_dict_fields:
  "row_get_or (access_dict r) ''Level'' x = Some (xr_level r)"
  "row_get_or (access_dict r) ''Benchmark'' x = Some (case xr_bench r of None \<Rightarrow> '''' | Some b \<Rightarrow> b)"
  "row_get (access_dict r) ''Removed Checks'' = Some (show_int (xr_removed r))"
  "row_get (access_dict r) ''Removed READ Checks'' = Some (show_int (xr_read r))"
  "row_get (access_dict r) ''Removed WRITE Checks'' = Some (show_int (xr_write r))"
  "row_get (access_dict r) ''Removed UNKNOWN Checks'' = Some (show_int (xr_unknown r))"
  "row_get_or (access_dict r) ''READ / Removed'' x = Some (access_cell (xr_read_pct r))"
  "row_get_or (access_dict r) ''WRITE / Removed'' x = Some (access_cell (xr_write_pct r))"
  "row_get_or (access_dict r) ''UNKNOWN / Removed'' x = Some (access_cell (xr_unknown_pct r))"
  "row_get_or (access_dict r) ''Detected / Reported'' x = Some (access_cell (xr_coverage r))"
  by (simp_all add: dict_row_def access_fields_def access_texts_def row_get_or_def row_get_def)

text \<open>A row that counts: not a total, and with a name.\<close>

definition counted :: "access_row \<Rightarrow> bool" where
  "counted r \<longleftrightarrow> xr_bench r \<notin> {None, Some '''', Some ''TOTAL''}"

lemma add_access_row:
  "add_access (access_dict r) acc = (if counted r then dset (Some (xr_level r), xr_bench r) (access_dict r) acc else acc)"
  by (auto simp: add_access_def access_dict_fields counted_def Let_def split: option.splits)

lemma read_rows_elsewhere:
  "(l, b) \<notin> (\<lambda>r. (Some (xr_level r), xr_bench r)) ` set rows \<Longrightarrow>
   map_of (fold add_access (map access_dict rows) acc) (l, b) = map_of acc (l, b)"
  by (induction rows arbitrary: acc) (auto simp: add_access_row dict_simps)

lemma read_rows:
  assumes "distinct (map (\<lambda>r. (xr_level r, xr_bench r)) rows)" "r \<in> set rows" "counted r"
  shows "map_of (fold add_access (map access_dict rows) acc) (Some (xr_level r), xr_bench r) = Some (access_dict r)"
  using assms(1,2)
proof (induction rows arbitrary: acc)
  case (Cons x rows)
  show ?case
  proof (cases "r = x")
    case True
    have "(Some (xr_level r), xr_bench r) \<notin> (\<lambda>r. (Some (xr_level r), xr_bench r)) ` set rows"
      using Cons.prems(1) True by auto
    from read_rows_elsewhere [OF this] assms(3) True show ?thesis by (simp add: add_access_row dict_simps)
  qed (use Cons in simp)
qed simp

text \<open>What the rewriting script takes from an access row.\<close>

definition reads_as :: "csv_dict \<Rightarrow> access_row \<Rightarrow> bool" where
  "reads_as a r \<longleftrightarrow>
     (\<forall>(k, i)\<in>set [(''Removed Checks'', xr_removed r), (''Removed READ Checks'', xr_read r),
         (''Removed WRITE Checks'', xr_write r), (''Removed UNKNOWN Checks'', xr_unknown r)].
        \<bar>i\<bar> < 2 ^ 53 \<longrightarrow> access_number a k = Inr i) \<and>
     (\<forall>(k, x)\<in>set [(''READ / Removed'', xr_read_pct r), (''WRITE / Removed'', xr_write_pct r),
         (''UNKNOWN / Removed'', xr_unknown_pct r), (''Detected / Reported'', xr_coverage r)].
        access_field a k = VStr (access_cell x))"

lemma access_dict_reads: "reads_as (access_dict r) r"
  using number_show_int
  by (simp add: reads_as_def access_number_def access_field_def access_dict_fields pyval_of_def)

text \<open>
  C29: the access summary passes from one SanRazor script to the other without loss: from the
  CSV file that was written the rewriting script reads, for every row with a name that is not a
  total, the same counts (up to 53 bits) and the same percentages; a benchmark that has no row
  is not found.
\<close>

theorem access_written_read:
  assumes "write_outputs rows (Some p) md h w = (Inr (), w')" and "path_str p = p" and "md \<noteq> Some p"
    and "distinct (map (\<lambda>r. (xr_level r, xr_bench r)) rows)"
  shows "\<exists>acc. read_access (map_of (w_fs w')) p = Inr acc \<and>
    (\<forall>r\<in>set rows. counted r \<longrightarrow> (\<exists>a. map_of acc (Some (xr_level r), xr_bench r) = Some a \<and> reads_as a r)) \<and>
    (\<forall>l b. (l, b) \<notin> (\<lambda>r. (Some (xr_level r), xr_bench r)) ` set rows \<longrightarrow> map_of acc (l, b) = None)"
proof -
  let ?acc = "fold add_access (map access_dict rows) []"
  from assms(1) obtain u where u: "write_output (Some p) (access_csv rows) h w = (Inr (), u)"
    "write_output md (access_md rows) h u = (Inr (), w')"
    by (auto simp: write_outputs_def thenA_def bindA_def split: prod.splits sum.splits)
  from write_output_node(1) [OF u(1) refl] write_output_node(2) [OF u(2) assms(3)]
  have f: "map_of (w_fs w') p = Some (File (access_csv rows))" by simp
  have "filter (\<lambda>r. r \<noteq> []) (map (access_texts '''') rows) = map (access_texts '''') rows"
    by (auto simp: filter_id_conv access_texts_def)
  with f assms(2) have "read_access (map_of (w_fs w')) p = Inr ?acc"
    by (simp add: read_access_def read_text_def access_csv_def dict_roundtrip comp_def)
  moreover have "\<forall>r\<in>set rows. counted r \<longrightarrow> (\<exists>a. map_of ?acc (Some (xr_level r), xr_bench r) = Some a \<and> reads_as a r)"
    using read_rows [OF assms(4)] access_dict_reads by blast
  moreover have "\<forall>l b. (l, b) \<notin> (\<lambda>r. (Some (xr_level r), xr_bench r)) ` set rows \<longrightarrow> map_of ?acc (l, b) = None"
    using read_rows_elsewhere [of _ _ rows "[]"] by simp
  ultimately show ?thesis by blast
qed

definition demo_output_rows :: "access_row list" where
  "demo_output_rows =
     [\<lparr>xr_level = ''L1'', xr_bench = Some ''401.bzip2'', xr_reported = 12, xr_removed = 10, xr_read = 6, xr_write = 3,
       xr_unknown = 1, xr_read_pct = Some (Fin 60), xr_write_pct = Some (Fin 30), xr_unknown_pct = Some (Fin 10),
       xr_coverage = Some (Fin 80)\<rparr>,
      \<lparr>xr_level = ''L1'', xr_bench = Some ''TOTAL'', xr_reported = 12, xr_removed = 10, xr_read = 6, xr_write = 3,
       xr_unknown = 1, xr_read_pct = Some (Fin 60), xr_write_pct = Some (Fin 30), xr_unknown_pct = Some (Fin 10),
       xr_coverage = Some (Fin 80)\<rparr>]"

definition demo_output_host :: host where
  "demo_output_host = \<lparr>h_run = \<lambda>w p. (Exited 0, w_fs w), h_os = \<lambda>t. None, h_clock = \<lambda>t. Fin 0, h_environ = []\<rparr>"

definition demo_output_world :: world where
  "demo_output_world = \<lparr>w_fs = [(''/'', Dir)], w_tick = 0, w_procs = [], w_rows = [], w_status = [], w_prints = []\<rparr>"

lemma demo_output_writes:
  "\<exists>w'. write_outputs demo_output_rows (Some ''/out/access.csv'') (Some ''/out/access.md'') demo_output_host demo_output_world
     = (Inr (), w')"
proof -
  have p: "path_parent ''/out/access.csv'' = ''/out''" "path_parent ''/out/access.md'' = ''/out''"
    "ancestors ''/out'' = [''/'']"
    by code_simp+
  show ?thesis
    by (simp add: write_outputs_def write_output_def thenA_def bindA_def mkdirA_def writeA_def osA_def fs_mkdir_def fs_write_def
        p demo_output_host_def demo_output_world_def add_dir_def dict_simps)
qed

theorem access_written_read_witness:
  "\<exists>w' acc. write_outputs demo_output_rows (Some ''/out/access.csv'') (Some ''/out/access.md'') demo_output_host demo_output_world
       = (Inr (), w') \<and> read_access (map_of (w_fs w')) ''/out/access.csv'' = Inr acc \<and>
     (\<exists>a. map_of acc (Some ''L1'', Some ''401.bzip2'') = Some a \<and> access_number a ''Removed Checks'' = Inr 10)"
proof -
  obtain w' where w': "write_outputs demo_output_rows (Some ''/out/access.csv'') (Some ''/out/access.md'')
      demo_output_host demo_output_world = (Inr (), w')"
    using demo_output_writes by blast
  have p: "path_str ''/out/access.csv'' = ''/out/access.csv''" by code_simp
  have d: "distinct (map (\<lambda>r. (xr_level r, xr_bench r)) demo_output_rows)" by (simp add: demo_output_rows_def)
  have c: "counted (hd demo_output_rows)" "hd demo_output_rows \<in> set demo_output_rows"
    "xr_level (hd demo_output_rows) = ''L1''" "xr_bench (hd demo_output_rows) = Some ''401.bzip2''"
    "xr_removed (hd demo_output_rows) = 10"
    by (simp_all add: demo_output_rows_def counted_def)
  obtain acc where acc: "read_access (map_of (w_fs w')) ''/out/access.csv'' = Inr acc"
    "\<forall>r\<in>set demo_output_rows. counted r \<longrightarrow> (\<exists>a. map_of acc (Some (xr_level r), xr_bench r) = Some a \<and> reads_as a r)"
    using access_written_read [OF w' p _ d] by auto
  from acc(2) c obtain a where a: "map_of acc (Some ''L1'', Some ''401.bzip2'') = Some a" "reads_as a (hd demo_output_rows)"
    by metis
  from a(2) c(5) have "access_number a ''Removed Checks'' = Inr 10" by (simp add: reads_as_def)
  with w' acc(1) a(1) show ?thesis by blast
qed

end
