(* ===== verification/Spec2Isabelle.thy ===== *)
theory Spec2Isabelle
  imports DesanSummary AsanmmSummary SanrazorSummary CollectAll CollectOss SanrazorAccess SanrazorApply
    JobReport AsanmmCollect StatusFile ProcBounds Registries
    SanrazorOutput
begin

text \<open>
  The measurement scripts of DESAN. DESAN is an LLVM pass that removes redundant sanitizer
  checks; the Python programs under \<open>src/scripts\<close> build the benchmarks with and without it, run
  them, count the checks and turn logs and run times into tables. This development models the
  twelve Python programs, statement by statement, and proves what their tables mean, what can
  stop them, and what a batch does to the processes and files of the machine.

  \<^bold>\<open>How the programs interact.\<close> The batch runner builds three variants of a project, writes their
  run times to \<open>runtime.csv\<close>, starts the summary script on it, and appends a row to the status
  file. The compilers it starts write a record per compiled unit and the log of the pass. The
  summary scripts read records, logs and run times and write one row per benchmark. The
  collectors read the rows of many summaries, the batch collector also the status file.

  \<^bold>\<open>Theories and programs.\<close>
  Python itself: \<open>Prelude\<close> (results \<open>error + value\<close>, dictionaries as association lists in
  insertion order, \<open>foldE\<close> and \<open>mapE\<close> for loops that may raise), \<open>PyStr\<close>, \<open>PyNum\<close>, \<open>Rounding\<close>,
  \<open>PyFloat\<close>, \<open>FloatOrder\<close>, \<open>FloatText\<close> (binary64 as exact rationals with one rounding, parsing
  and printing), \<open>PyRegex\<close> (backtracking matching), \<open>PyCsv\<close>, \<open>CsvWriter\<close> (reader and writer with
  their round trip), \<open>PyPath\<close>, \<open>PathNames\<close>.
  \<^item> \<open>CountChecks\<close>: \<open>count_sanitizer_checks.py\<close>.
  \<^item> \<open>PassLog\<close>, \<open>Records\<close>, \<open>SpecRuntime\<close>, \<open>OssRuntime\<close>, \<open>Overhead\<close>: the readers and the figures
    the four summary scripts share (\<open>parse_pass_log\<close>, \<open>parse_records\<close>, \<open>parse_runtime_csv\<close>,
    \<open>summarize_runtime\<close>, \<open>compute_overhead_metrics\<close>), in the variants of each script.
  \<^item> \<open>DesanSummary\<close>: \<open>main\<close> of \<open>spec_asan_summary.py\<close> and \<open>opensource_summary.py\<close>;
    \<open>AsanmmSummary\<close>: of \<open>spec_asanmm_summary.py\<close> and \<open>opensource_asanmm_summary.py\<close>;
    \<open>SanrazorSummary\<close>: \<open>spec_sanrazor_summary.py\<close>.
  \<^item> \<open>SanrazorAccess\<close>: \<open>sanrazor_removed_access_summary.py\<close>; \<open>SanrazorApply\<close>:
    \<open>apply_sanrazor_detected_disabled_counts.py\<close>; \<open>SanrazorOutput\<close>: the file that goes from the first
    to the second.
  \<^item> \<open>CollectAll\<close>: \<open>collect_all_results.py\<close>; \<open>CollectOss\<close>: \<open>collect_oss_batch_results.py\<close>.
  \<^item> \<open>Host\<close>: the state of a running batch (files, processes, rows, clock) and actions on it;
    \<open>Registry\<close>, \<open>BatchRunner\<close>: \<open>run_oss_batch_after_read_check_elimination.py\<close>; \<open>AsanmmRunner\<close>:
    \<open>run_oss_asanmm_comparison.py\<close>.

  \<^bold>\<open>Interfaces.\<close> \<open>Host.frame\<close> and \<open>Host.file_frame\<close>: a relation between worlds that every operation
  keeps; \<open>JobFrames\<close> proves once that the parts of a job keep it, and the interpretations make of
  it that only status rows are reported by jobs (\<open>status_frame\<close>), that processes are only added
  (\<open>grow_frame\<close>) and that a file apart from a job's paths is left alone (\<open>kept\<close>).
  \<open>BatchSpec.job_runner\<close>: jobs that report one row each run in step with an abstract machine; both
  runners are instances. \<open>CalmHost.roles\<close> and \<open>JobLiveness.calm_batch\<close>: total correctness of
  actions on files whose roles are known.

  \<^bold>\<open>What the lemmas show.\<close> Counting: the counter equals its specification and its output is read
  back without loss. Summaries: their rows are the sums over the records, one row per benchmark,
  in order; the run that is reported is the one a specification over the whole file picks; the
  overhead figures never divide by zero and respect the order of the times. Collectors: filters
  decide on whole projects; rows are sorted; which errors can stop them. SanRazor: the
  classification counts exactly the disabled checks, in any order of the worker threads. Runners:
  one row per job whatever the host does (\<open>BatchJobs\<close>, \<open>AsanmmJobs\<close>); what a job that reports \<open>S\<close>
  has started and that its run times are what the summary script reads (\<open>BatchTrace\<close>,
  \<open>JobReport\<close>); that on a calm host every job does report \<open>S\<close> (\<open>BatchRoles\<close>, \<open>JobLiveness\<close>); that
  the status file is what the batch collector reads (\<open>StatusFile\<close>); a bound on the processes
  (\<open>ProcBounds\<close>); the collected tables of the comparison (\<open>AsanmmCollect\<close>).

  \<^bold>\<open>Bounds.\<close> Nothing runs on fuel: every loop of the scripts is over a list, and the recursive
  functions that are not structural have termination proofs. Text is Latin-1: a character is one
  of 256, and the white space, digits and word characters are those Python has among these.
  Integers are unbounded. The interpreter's limit of 4300 digits for \<open>int(s)\<close> and the field size
  limit of \<open>csv\<close> (131072 characters) are not modelled.

  \<^bold>\<open>Parameters.\<close> What processes do to files and how they end, when the operating system refuses an
  operation, the clock, the environment, the result of \<open>llvm-dis\<close>, the completion order of worker
  threads and the order of \<open>glob\<close> are arguments of the definitions. Hypotheses about them are in
  the statements: \<open>leaves\<close> (processes leave one file alone) and \<open>calm\<close> (nothing is refused, every
  process ends with exit code 0 and respects the roles of the paths); \<open>JobLiveness\<close> has a host
  that meets them.

  \<^bold>\<open>Not modelled.\<close> The LLVM pass in C++ and the shell scripts; \<open>argparse\<close> (its result is a record);
  symbolic links, permissions and modification times; the buffering of open files (a write is
  seen at once, except for the rows of \<open>runtime.csv\<close>, which are seen when it is closed).
\<close>

end
